(* ===== verification/Prelude.thy ===== *)
theory Prelude
  imports Complex_Main
begin

text \<open>
  Shared vocabulary of the development: the types of identifiers, times and amounts, the
  error-propagating composition \<open>andthen\<close>, tables of rows addressed by primary key, and
  the few generic facts on lists and options the components rest on.

  A table is the list of its rows in insertion order.  \<open>get_row\<close> is
  \<open>session.get\<close> (the first row with the key), \<open>upd_row\<close> the in-place mutation of an
  attribute of the row with a key.  \<open>fresh_in\<close> is the contract of \<open>uuid4\<close>: the key
  given to a new row is one no row of the table has.
\<close>

named_theorems row_simps \<open>lookup of a row after an update or an insertion\<close>
named_theorems enum_defs \<open>the member lists and value functions of the string enums\<close>

text \<open>
  \<open>id\<close> is a UUID; times are seconds since the epoch; \<open>Decimal\<close> and \<open>float\<close> quantities
  are exact rationals.
\<close>

type_synonym uuid = nat
type_synonym time = rat
type_synonym decimal = rat

section \<open>Propagating errors\<close>

definition andthen :: "'e + 'a \<Rightarrow> ('a \<Rightarrow> 'e + 'b) \<Rightarrow> 'e + 'b" where
  "andthen m f = (case m of Inl e \<Rightarrow> Inl e | Inr x \<Rightarrow> f x)"

lemma andthen_simps [simp]:
  "andthen (Inl e) f = Inl e" "andthen (Inr x) f = f x"
  by (simp_all add: andthen_def)

lemma andthen_Inr_iff: "andthen m f = Inr y \<longleftrightarrow> (\<exists>x. m = Inr x \<and> f x = Inr y)"
  by (cases m) simp_all

lemma andthen_Inl_iff:
  "andthen m f = Inl e \<longleftrightarrow> m = Inl e \<or> (\<exists>x. m = Inr x \<and> f x = Inl e)"
  by (cases m) simp_all

lemma andthen_InrE:
  assumes "andthen m f = Inr y"
  obtains x where "m = Inr x" and "f x = Inr y"
  using assms by (auto simp: andthen_Inr_iff)

lemma andthen_cong [cong]: "m = m' \<Longrightarrow> andthen m f = andthen m' f"
  by simp

text \<open>Reading off what a computation that ended well returned.\<close>

lemma ok1D: "(case m of Inl _ \<Rightarrow> False | Inr d \<Rightarrow> P d) \<Longrightarrow> \<exists>d. m = Inr d \<and> P d"
  by (cases m) auto

lemma ok2D: "(case m of Inl _ \<Rightarrow> False | Inr (d, a) \<Rightarrow> P d a) \<Longrightarrow> \<exists>d a. m = Inr (d, a) \<and> P d a"
  by (cases m) auto

lemma ok3D: "(case m of Inl _ \<Rightarrow> False | Inr (d, a, b) \<Rightarrow> P d a b) \<Longrightarrow> \<exists>d a b. m = Inr (d, a, b) \<and> P d a b"
  by (cases m) auto

text \<open>An attribute read through \<open>None\<close> raises: \<open>require\<close> turns absence into an error.\<close>

definition require :: "'e \<Rightarrow> 'a option \<Rightarrow> 'e + 'a" where
  "require e m = (case m of None \<Rightarrow> Inl e | Some x \<Rightarrow> Inr x)"

lemma require_simps [simp]:
  "require e None = Inl e" "require e (Some x) = Inr x"
  "require e m = Inr x \<longleftrightarrow> m = Some x"
  by (cases m; simp add: require_def)+

definition ensure :: "'e \<Rightarrow> bool \<Rightarrow> 'e + unit" where
  "ensure e b = (if b then Inr () else Inl e)"

lemma ensure_simps [simp]:
  "ensure e True = Inr ()" "ensure e False = Inl e"
  "ensure e b = Inr u \<longleftrightarrow> b" "ensure e b = Inl e' \<longleftrightarrow> \<not> b \<and> e' = e"
  by (auto simp: ensure_def)

text \<open>A loop that stops at the first exception.\<close>

fun fold_err :: "('x \<Rightarrow> 'a \<Rightarrow> 'e + 'a) \<Rightarrow> 'x list \<Rightarrow> 'a \<Rightarrow> 'e + 'a" where
  "fold_err f [] a = Inr a"
| "fold_err f (x # xs) a = andthen (f x a) (fold_err f xs)"

lemma fold_err_append:
  "fold_err f (xs @ ys) a = andthen (fold_err f xs a) (fold_err f ys)"
  by (induction xs arbitrary: a) (auto simp: andthen_def split: sum.splits)

lemma fold_err_invariant:
  assumes "fold_err f xs a = Inr b" and "I a"
    and "\<And>x a b. x \<in> set xs \<Longrightarrow> I a \<Longrightarrow> f x a = Inr b \<Longrightarrow> I b"
  shows "I b"
  using assms
proof (induction xs arbitrary: a)
  case Nil
  then show ?case by simp
next
  case (Cons x xs)
  from Cons.prems(1) obtain c where c: "f x a = Inr c" and rest: "fold_err f xs c = Inr b"
    by (auto simp: andthen_Inr_iff)
  from Cons.prems(3) [of x a c] c Cons.prems(2) have "I c" by simp
  with rest show ?case
    by (rule Cons.IH) (use Cons.prems(3) in auto)
qed

section \<open>Tables\<close>

definition get_row :: "('r \<Rightarrow> uuid) \<Rightarrow> uuid \<Rightarrow> 'r list \<Rightarrow> 'r option" where
  "get_row key i rows = find (\<lambda>r. key r = i) rows"

definition upd_row :: "('r \<Rightarrow> uuid) \<Rightarrow> uuid \<Rightarrow> ('r \<Rightarrow> 'r) \<Rightarrow> 'r list \<Rightarrow> 'r list" where
  "upd_row key i f rows = map (\<lambda>r. if key r = i then f r else r) rows"

definition fresh_in :: "('r \<Rightarrow> uuid) \<Rightarrow> uuid \<Rightarrow> 'r list \<Rightarrow> bool" where
  "fresh_in key n rows \<longleftrightarrow> (\<forall>r \<in> set rows. key r < n)"

lemma get_row_Nil [row_simps, simp]: "get_row key i [] = None"
  by (simp add: get_row_def)

lemma get_row_Cons [row_simps, simp]:
  "get_row key i (r # rows) = (if key r = i then Some r else get_row key i rows)"
  by (simp add: get_row_def)

lemma get_row_append [row_simps]:
  "get_row key i (xs @ ys) = (case get_row key i xs of None \<Rightarrow> get_row key i ys | Some r \<Rightarrow> Some r)"
  by (induction xs) auto

lemma get_row_SomeD: "get_row key i rows = Some r \<Longrightarrow> r \<in> set rows \<and> key r = i"
  by (induction rows) (auto split: if_splits)

lemma get_row_None_iff: "get_row key i rows = None \<longleftrightarrow> (\<forall>r \<in> set rows. key r \<noteq> i)"
  by (induction rows) auto

lemma get_row_distinct:
  "distinct (map key rows) \<Longrightarrow> r \<in> set rows \<Longrightarrow> get_row key (key r) rows = Some r"
  by (induction rows) (auto simp: image_iff)

lemma get_row_upd_same [row_simps]:
  "(\<And>r. key (f r) = key r) \<Longrightarrow> get_row key i (upd_row key i f rows) = map_option f (get_row key i rows)"
  by (induction rows) (auto simp: upd_row_def)

lemma get_row_upd_other [row_simps]:
  "(\<And>r. key (f r) = key r) \<Longrightarrow> i \<noteq> j \<Longrightarrow> get_row key j (upd_row key i f rows) = get_row key j rows"
  by (induction rows) (auto simp: upd_row_def)

lemma map_key_upd_row [row_simps, simp]:
  "(\<And>r. key (f r) = key r) \<Longrightarrow> map key (upd_row key i f rows) = map key rows"
  by (induction rows) (auto simp: upd_row_def)

lemma map_upd_row_frame:
  "(\<And>r. g (f r) = g r) \<Longrightarrow> map g (upd_row key i f rows) = map g rows"
  by (induction rows) (auto simp: upd_row_def)

lemma upd_row_Nil [simp]: "upd_row key i f [] = []"
  by (simp add: upd_row_def)

lemma upd_row_Cons [simp]:
  "upd_row key i f (r # rows) = (if key r = i then f r else r) # upd_row key i f rows"
  by (simp add: upd_row_def)

lemma length_upd_row [simp]: "length (upd_row key i f rows) = length rows"
  by (simp add: upd_row_def)

lemma set_upd_rowD:
  "r \<in> set (upd_row key i f rows) \<Longrightarrow>
     (\<exists>r0 \<in> set rows. key r0 = i \<and> r = f r0) \<or> (r \<in> set rows \<and> key r \<noteq> i)"
  by (auto simp: upd_row_def split: if_splits)

lemma set_upd_row:
  "set (upd_row key i f rows) =
     f ` {r \<in> set rows. key r = i} \<union> {r \<in> set rows. key r \<noteq> i}"
  by (auto simp: upd_row_def split: if_splits)

lemma ex_upd_row:
  assumes "\<And>r. key (f r) = key r"
  shows "(\<exists>y \<in> set (upd_row key c f rows). key y = i \<and> P y) \<longleftrightarrow>
         (\<exists>y \<in> set rows. key y = i \<and> (if i = c then P (f y) else P y))"
  using assms by (induction rows) auto

text \<open>Updating the rows with the given keys one after another.\<close>

lemma fold_upd_row:
  assumes "distinct is" and "\<And>r. key (f r) = key r"
  shows "fold (\<lambda>i. upd_row key i f) is rows = map (\<lambda>r. if key r \<in> set is then f r else r) rows"
  using assms(1)
proof (induction "is" arbitrary: rows)
  case Nil
  then show ?case by simp
next
  case (Cons i "is")
  have "fold (\<lambda>i. upd_row key i f) (i # is) rows =
      map (\<lambda>r. if key r \<in> set is then f r else r) (map (\<lambda>r. if key r = i then f r else r) rows)"
    using Cons by (simp add: upd_row_def [of key i f rows])
  then show ?case using Cons.prems assms(2) by auto
qed

lemma fresh_in_get_row: "fresh_in key n rows \<Longrightarrow> n \<le> i \<Longrightarrow> get_row key i rows = None"
  by (auto simp: get_row_None_iff fresh_in_def)

section \<open>Lists and strings\<close>

text \<open>\<open>str.startswith\<close> and \<open>str.split(sep, 1)[1]\<close>.\<close>

fun starts_with :: "string \<Rightarrow> string \<Rightarrow> bool" where
  "starts_with [] s = True"
| "starts_with (c # p) (d # s) = (c = d \<and> starts_with p s)"
| "starts_with (c # p) [] = False"

fun after_first :: "char \<Rightarrow> string \<Rightarrow> string" where
  "after_first sep [] = []"
| "after_first sep (c # s) = (if c = sep then s else after_first sep s)"

text \<open>
  The SQL \<open>ORDER BY ... LIMIT 1\<close>: a least element, the earliest row among equals (SQL
  leaves the choice among equals open).
\<close>

fun first_min :: "('a \<Rightarrow> 'k::linorder) \<Rightarrow> 'a list \<Rightarrow> 'a option" where
  "first_min k [] = None"
| "first_min k (x # xs) =
     (case first_min k xs of None \<Rightarrow> Some x | Some y \<Rightarrow> if k x \<le> k y then Some x else Some y)"

lemma first_min_None_iff [simp]: "first_min k xs = None \<longleftrightarrow> xs = []"
  by (cases xs) (auto split: option.splits if_splits)

lemma first_min_SomeD:
  "first_min k xs = Some x \<Longrightarrow> x \<in> set xs \<and> (\<forall>y \<in> set xs. k x \<le> k y)"
proof (induction xs arbitrary: x)
  case Nil
  then show ?case by simp
next
  case (Cons a xs)
  show ?case
  proof (cases "first_min k xs")
    case None
    with Cons.prems show ?thesis by simp
  next
    case (Some y)
    with Cons.IH [of y] Cons.prems show ?thesis by (auto split: if_splits)
  qed
qed

lemma sum_list_map_upd_row:
  fixes g :: "'r \<Rightarrow> rat"
  assumes "distinct (map key rows)" and "get_row key i rows = Some r"
  shows "sum_list (map g (upd_row key i f rows)) = sum_list (map g rows) - g r + g (f r)"
  using assms
proof (induction rows)
  case Nil
  then show ?case by simp
next
  case (Cons a rows)
  show ?case
  proof (cases "key a = i")
    case True
    with Cons.prems(1) have "\<forall>b \<in> set rows. key b \<noteq> i" by (auto simp: image_iff)
    then have "upd_row key i f rows = rows" by (simp add: upd_row_def map_idI)
    with True Cons.prems show ?thesis by simp
  next
    case False
    with Cons show ?thesis by simp
  qed
qed

end
