(* ===== verification/Domain_Types.thy ===== *)
theory Domain_Types
  imports Prelude
begin

text \<open>
  The string enums of \<open>core/domain/enums.py\<close> and of the two state-machine modules, each as
  a datatype with its member list (declaration order) and its \<open>.value\<close> function, and the
  exceptions the components raise as one error type.

  A \<open>StrEnum\<close> class is an interface of its own: \<open>E(s)\<close> looks a member up by value
  and raises \<open>ValueError\<close> when there is none.  The locale \<open>str_enum\<close> states what the
  callers rely on (a member list that is complete and has distinct values); its lemmas give the
  round trip in both directions, and every enum of the code is an interpretation.
\<close>

section \<open>The StrEnum interface\<close>

definition enum_of :: "('e \<Rightarrow> string) \<Rightarrow> 'e list \<Rightarrow> string \<Rightarrow> 'e option" where
  "enum_of val members s = find (\<lambda>e. val e = s) members"

locale str_enum =
  fixes val :: "'e \<Rightarrow> string" and members :: "'e list"
  assumes values_distinct: "distinct (map val members)"
    and members_complete: "e \<in> set members"
begin

lemma val_inject: "val a = val b \<longleftrightarrow> a = b"
  using values_distinct members_complete [of a] members_complete [of b]
  by (auto simp: distinct_map inj_on_def)

lemma of_val: "enum_of val members (val e) = Some e"
proof -
  have "\<exists>x. find (\<lambda>x. val x = val e) members = Some x"
    using members_complete [of e] by (cases "find (\<lambda>x. val x = val e) members") (auto simp: find_None_iff)
  then show ?thesis
    by (auto simp: enum_of_def find_Some_iff val_inject)
qed

lemma of_Some_iff: "enum_of val members s = Some e \<longleftrightarrow> s = val e"
proof
  assume "enum_of val members s = Some e"
  then show "s = val e" by (auto simp: enum_of_def find_Some_iff)
next
  assume "s = val e"
  then show "enum_of val members s = Some e" by (simp add: of_val)
qed

lemma of_None_iff: "enum_of val members s = None \<longleftrightarrow> s \<notin> range val"
proof -
  have "enum_of val members s = None \<longleftrightarrow> (\<forall>e. s \<noteq> val e)"
    by (metis of_Some_iff not_None_eq)
  then show ?thesis by auto
qed

end

section \<open>The enums\<close>


text \<open>\<open>CoverageState\<close>.\<close>

datatype coverage_state =
    CS_Proposed
  | CS_Initiating
  | CS_Decision_Pending
  | CS_Active
  | CS_Watch
  | CS_Rejected
  | CS_Exited
  | CS_Failed

fun coverage_state_value :: "coverage_state \<Rightarrow> string" where
  "coverage_state_value CS_Proposed = ''proposed''"
| "coverage_state_value CS_Initiating = ''initiating''"
| "coverage_state_value CS_Decision_Pending = ''decision_pending''"
| "coverage_state_value CS_Active = ''active''"
| "coverage_state_value CS_Watch = ''watch''"
| "coverage_state_value CS_Rejected = ''rejected''"
| "coverage_state_value CS_Exited = ''exited''"
| "coverage_state_value CS_Failed = ''failed''"

definition coverage_state_members :: "coverage_state list" where
  "coverage_state_members = [CS_Proposed, CS_Initiating, CS_Decision_Pending, CS_Active, CS_Watch, CS_Rejected, CS_Exited, CS_Failed]"

definition coverage_state_of :: "string \<Rightarrow> coverage_state option" where
  "coverage_state_of = enum_of coverage_state_value coverage_state_members"

lemma coverage_state_all: "(\<forall>e. P e) \<longleftrightarrow> (\<forall>e \<in> set coverage_state_members. P e)"
proof -
  have "e \<in> set coverage_state_members" for e by (cases e) (simp_all add: coverage_state_members_def)
  then show ?thesis by blast
qed

interpretation coverage_state_enum: str_enum coverage_state_value coverage_state_members
proof unfold_locales
  show "distinct (map coverage_state_value coverage_state_members)" by (simp add: coverage_state_members_def)
  show "e \<in> set coverage_state_members" for e by (cases e) (simp_all add: coverage_state_members_def)
qed


text \<open>\<open>RunType\<close>.\<close>

datatype run_type =
    RT_Initiation
  | RT_Deep_Review
  | RT_Event_Analysis
  | RT_Monitor_Tick
  | RT_PM_Query
  | RT_Lead_Review
  | RT_Distillation

fun run_type_value :: "run_type \<Rightarrow> string" where
  "run_type_value RT_Initiation = ''initiation''"
| "run_type_value RT_Deep_Review = ''deep_review''"
| "run_type_value RT_Event_Analysis = ''event_analysis''"
| "run_type_value RT_Monitor_Tick = ''monitor_tick''"
| "run_type_value RT_PM_Query = ''pm_query''"
| "run_type_value RT_Lead_Review = ''lead_review''"
| "run_type_value RT_Distillation = ''distillation''"

definition run_type_members :: "run_type list" where
  "run_type_members = [RT_Initiation, RT_Deep_Review, RT_Event_Analysis, RT_Monitor_Tick, RT_PM_Query, RT_Lead_Review, RT_Distillation]"

definition run_type_of :: "string \<Rightarrow> run_type option" where
  "run_type_of = enum_of run_type_value run_type_members"

lemma run_type_all: "(\<forall>e. P e) \<longleftrightarrow> (\<forall>e \<in> set run_type_members. P e)"
proof -
  have "e \<in> set run_type_members" for e by (cases e) (simp_all add: run_type_members_def)
  then show ?thesis by blast
qed

interpretation run_type_enum: str_enum run_type_value run_type_members
proof unfold_locales
  show "distinct (map run_type_value run_type_members)" by (simp add: run_type_members_def)
  show "e \<in> set run_type_members" for e by (cases e) (simp_all add: run_type_members_def)
qed


text \<open>\<open>RunStatus\<close>.\<close>

datatype run_status =
    RS_Queued
  | RS_Running
  | RS_Waiting_PM
  | RS_Succeeded
  | RS_Failed
  | RS_Cancelled

fun run_status_value :: "run_status \<Rightarrow> string" where
  "run_status_value RS_Queued = ''queued''"
| "run_status_value RS_Running = ''running''"
| "run_status_value RS_Waiting_PM = ''waiting_pm''"
| "run_status_value RS_Succeeded = ''succeeded''"
| "run_status_value RS_Failed = ''failed''"
| "run_status_value RS_Cancelled = ''cancelled''"

definition run_status_members :: "run_status list" where
  "run_status_members = [RS_Queued, RS_Running, RS_Waiting_PM, RS_Succeeded, RS_Failed, RS_Cancelled]"

definition run_status_of :: "string \<Rightarrow> run_status option" where
  "run_status_of = enum_of run_status_value run_status_members"

lemma run_status_all: "(\<forall>e. P e) \<longleftrightarrow> (\<forall>e \<in> set run_status_members. P e)"
proof -
  have "e \<in> set run_status_members" for e by (cases e) (simp_all add: run_status_members_def)
  then show ?thesis by blast
qed

interpretation run_status_enum: str_enum run_status_value run_status_members
proof unfold_locales
  show "distinct (map run_status_value run_status_members)" by (simp add: run_status_members_def)
  show "e \<in> set run_status_members" for e by (cases e) (simp_all add: run_status_members_def)
qed


text \<open>\<open>StageStatus\<close>.\<close>

datatype stage_status =
    SS_Queued
  | SS_Running
  | SS_Succeeded
  | SS_Failed
  | SS_Skipped

fun stage_status_value :: "stage_status \<Rightarrow> string" where
  "stage_status_value SS_Queued = ''queued''"
| "stage_status_value SS_Running = ''running''"
| "stage_status_value SS_Succeeded = ''succeeded''"
| "stage_status_value SS_Failed = ''failed''"
| "stage_status_value SS_Skipped = ''skipped''"

definition stage_status_members :: "stage_status list" where
  "stage_status_members = [SS_Queued, SS_Running, SS_Succeeded, SS_Failed, SS_Skipped]"

definition stage_status_of :: "string \<Rightarrow> stage_status option" where
  "stage_status_of = enum_of stage_status_value stage_status_members"

lemma stage_status_all: "(\<forall>e. P e) \<longleftrightarrow> (\<forall>e \<in> set stage_status_members. P e)"
proof -
  have "e \<in> set stage_status_members" for e by (cases e) (simp_all add: stage_status_members_def)
  then show ?thesis by blast
qed

interpretation stage_status_enum: str_enum stage_status_value stage_status_members
proof unfold_locales
  show "distinct (map stage_status_value stage_status_members)" by (simp add: stage_status_members_def)
  show "e \<in> set stage_status_members" for e by (cases e) (simp_all add: stage_status_members_def)
qed


text \<open>\<open>Substrate\<close>.\<close>

datatype substrate =
    Sub_Harness
  | Sub_Api

fun substrate_value :: "substrate \<Rightarrow> string" where
  "substrate_value Sub_Harness = ''harness''"
| "substrate_value Sub_Api = ''api''"

definition substrate_members :: "substrate list" where
  "substrate_members = [Sub_Harness, Sub_Api]"

definition substrate_of :: "string \<Rightarrow> substrate option" where
  "substrate_of = enum_of substrate_value substrate_members"

lemma substrate_all: "(\<forall>e. P e) \<longleftrightarrow> (\<forall>e \<in> set substrate_members. P e)"
proof -
  have "e \<in> set substrate_members" for e by (cases e) (simp_all add: substrate_members_def)
  then show ?thesis by blast
qed

interpretation substrate_enum: str_enum substrate_value substrate_members
proof unfold_locales
  show "distinct (map substrate_value substrate_members)" by (simp add: substrate_members_def)
  show "e \<in> set substrate_members" for e by (cases e) (simp_all add: substrate_members_def)
qed


text \<open>\<open>PredictionKind\<close>.\<close>

datatype prediction_kind =
    PK_Target_Price
  | PK_Entry_Point
  | PK_Scenario
  | PK_Event_Forecast
  | PK_Stance

fun prediction_kind_value :: "prediction_kind \<Rightarrow> string" where
  "prediction_kind_value PK_Target_Price = ''target_price''"
| "prediction_kind_value PK_Entry_Point = ''entry_point''"
| "prediction_kind_value PK_Scenario = ''scenario''"
| "prediction_kind_value PK_Event_Forecast = ''event_forecast''"
| "prediction_kind_value PK_Stance = ''stance''"

definition prediction_kind_members :: "prediction_kind list" where
  "prediction_kind_members = [PK_Target_Price, PK_Entry_Point, PK_Scenario, PK_Event_Forecast, PK_Stance]"

definition prediction_kind_of :: "string \<Rightarrow> prediction_kind option" where
  "prediction_kind_of = enum_of prediction_kind_value prediction_kind_members"

lemma prediction_kind_all: "(\<forall>e. P e) \<longleftrightarrow> (\<forall>e \<in> set prediction_kind_members. P e)"
proof -
  have "e \<in> set prediction_kind_members" for e by (cases e) (simp_all add: prediction_kind_members_def)
  then show ?thesis by blast
qed

interpretation prediction_kind_enum: str_enum prediction_kind_value prediction_kind_members
proof unfold_locales
  show "distinct (map prediction_kind_value prediction_kind_members)" by (simp add: prediction_kind_members_def)
  show "e \<in> set prediction_kind_members" for e by (cases e) (simp_all add: prediction_kind_members_def)
qed


text \<open>\<open>PredictionStatus\<close>.\<close>

datatype prediction_status =
    PS_Open
  | PS_Hit
  | PS_Miss
  | PS_Expired
  | PS_Superseded

fun prediction_status_value :: "prediction_status \<Rightarrow> string" where
  "prediction_status_value PS_Open = ''open''"
| "prediction_status_value PS_Hit = ''hit''"
| "prediction_status_value PS_Miss = ''miss''"
| "prediction_status_value PS_Expired = ''expired''"
| "prediction_status_value PS_Superseded = ''superseded''"

definition prediction_status_members :: "prediction_status list" where
  "prediction_status_members = [PS_Open, PS_Hit, PS_Miss, PS_Expired, PS_Superseded]"

definition prediction_status_of :: "string \<Rightarrow> prediction_status option" where
  "prediction_status_of = enum_of prediction_status_value prediction_status_members"

lemma prediction_status_all: "(\<forall>e. P e) \<longleftrightarrow> (\<forall>e \<in> set prediction_status_members. P e)"
proof -
  have "e \<in> set prediction_status_members" for e by (cases e) (simp_all add: prediction_status_members_def)
  then show ?thesis by blast
qed

interpretation prediction_status_enum: str_enum prediction_status_value prediction_status_members
proof unfold_locales
  show "distinct (map prediction_status_value prediction_status_members)" by (simp add: prediction_status_members_def)
  show "e \<in> set prediction_status_members" for e by (cases e) (simp_all add: prediction_status_members_def)
qed


text \<open>\<open>ActorType\<close>.\<close>

datatype actor_type =
    AT_PM
  | AT_Run
  | AT_Scheduler
  | AT_System

fun actor_type_value :: "actor_type \<Rightarrow> string" where
  "actor_type_value AT_PM = ''pm''"
| "actor_type_value AT_Run = ''run''"
| "actor_type_value AT_Scheduler = ''scheduler''"
| "actor_type_value AT_System = ''system''"

definition actor_type_members :: "actor_type list" where
  "actor_type_members = [AT_PM, AT_Run, AT_Scheduler, AT_System]"

definition actor_type_of :: "string \<Rightarrow> actor_type option" where
  "actor_type_of = enum_of actor_type_value actor_type_members"

lemma actor_type_all: "(\<forall>e. P e) \<longleftrightarrow> (\<forall>e \<in> set actor_type_members. P e)"
proof -
  have "e \<in> set actor_type_members" for e by (cases e) (simp_all add: actor_type_members_def)
  then show ?thesis by blast
qed

interpretation actor_type_enum: str_enum actor_type_value actor_type_members
proof unfold_locales
  show "distinct (map actor_type_value actor_type_members)" by (simp add: actor_type_members_def)
  show "e \<in> set actor_type_members" for e by (cases e) (simp_all add: actor_type_members_def)
qed


text \<open>\<open>Action\<close>.\<close>

datatype action =
    Act_Propose
  | Act_Start_Initiation
  | Act_Initiation_Delivered
  | Act_Initiation_Failed
  | Act_Initiation_Cancelled
  | Act_Retry_Initiation
  | Act_Withdraw
  | Act_Decide_Active
  | Act_Decide_Watch
  | Act_Decide_Reject
  | Act_Promote
  | Act_Demote
  | Act_Exit
  | Act_Re_Propose
  | Act_Set_Lead

fun action_value :: "action \<Rightarrow> string" where
  "action_value Act_Propose = ''propose''"
| "action_value Act_Start_Initiation = ''start_initiation''"
| "action_value Act_Initiation_Delivered = ''initiation_delivered''"
| "action_value Act_Initiation_Failed = ''initiation_failed''"
| "action_value Act_Initiation_Cancelled = ''initiation_cancelled''"
| "action_value Act_Retry_Initiation = ''retry_initiation''"
| "action_value Act_Withdraw = ''withdraw''"
| "action_value Act_Decide_Active = ''decide:active''"
| "action_value Act_Decide_Watch = ''decide:watch''"
| "action_value Act_Decide_Reject = ''decide:reject''"
| "action_value Act_Promote = ''promote''"
| "action_value Act_Demote = ''demote''"
| "action_value Act_Exit = ''exit''"
| "action_value Act_Re_Propose = ''re_propose''"
| "action_value Act_Set_Lead = ''set_lead''"

definition action_members :: "action list" where
  "action_members = [Act_Propose, Act_Start_Initiation, Act_Initiation_Delivered, Act_Initiation_Failed, Act_Initiation_Cancelled, Act_Retry_Initiation, Act_Withdraw, Act_Decide_Active, Act_Decide_Watch, Act_Decide_Reject, Act_Promote, Act_Demote, Act_Exit, Act_Re_Propose, Act_Set_Lead]"

definition action_of :: "string \<Rightarrow> action option" where
  "action_of = enum_of action_value action_members"

lemma action_all: "(\<forall>e. P e) \<longleftrightarrow> (\<forall>e \<in> set action_members. P e)"
proof -
  have "e \<in> set action_members" for e by (cases e) (simp_all add: action_members_def)
  then show ?thesis by blast
qed

interpretation action_enum: str_enum action_value action_members
proof unfold_locales
  show "distinct (map action_value action_members)" by (simp add: action_members_def)
  show "e \<in> set action_members" for e by (cases e) (simp_all add: action_members_def)
qed


text \<open>\<open>RunAction\<close>.\<close>

datatype run_action =
    RA_Start
  | RA_Requeue
  | RA_Fail
  | RA_Open_Gate
  | RA_Succeed
  | RA_Cancel

fun run_action_value :: "run_action \<Rightarrow> string" where
  "run_action_value RA_Start = ''start''"
| "run_action_value RA_Requeue = ''requeue''"
| "run_action_value RA_Fail = ''fail''"
| "run_action_value RA_Open_Gate = ''open_gate''"
| "run_action_value RA_Succeed = ''succeed''"
| "run_action_value RA_Cancel = ''cancel''"

definition run_action_members :: "run_action list" where
  "run_action_members = [RA_Start, RA_Requeue, RA_Fail, RA_Open_Gate, RA_Succeed, RA_Cancel]"

definition run_action_of :: "string \<Rightarrow> run_action option" where
  "run_action_of = enum_of run_action_value run_action_members"

lemma run_action_all: "(\<forall>e. P e) \<longleftrightarrow> (\<forall>e \<in> set run_action_members. P e)"
proof -
  have "e \<in> set run_action_members" for e by (cases e) (simp_all add: run_action_members_def)
  then show ?thesis by blast
qed

interpretation run_action_enum: str_enum run_action_value run_action_members
proof unfold_locales
  show "distinct (map run_action_value run_action_members)" by (simp add: run_action_members_def)
  show "e \<in> set run_action_members" for e by (cases e) (simp_all add: run_action_members_def)
qed


text \<open>\<open>StageAction\<close>.\<close>

datatype stage_action =
    SA_Start
  | SA_Complete
  | SA_Fail_Retryable
  | SA_Fail_Terminal
  | SA_Skip

fun stage_action_value :: "stage_action \<Rightarrow> string" where
  "stage_action_value SA_Start = ''start''"
| "stage_action_value SA_Complete = ''complete''"
| "stage_action_value SA_Fail_Retryable = ''fail_retryable''"
| "stage_action_value SA_Fail_Terminal = ''fail_terminal''"
| "stage_action_value SA_Skip = ''skip''"

definition stage_action_members :: "stage_action list" where
  "stage_action_members = [SA_Start, SA_Complete, SA_Fail_Retryable, SA_Fail_Terminal, SA_Skip]"

definition stage_action_of :: "string \<Rightarrow> stage_action option" where
  "stage_action_of = enum_of stage_action_value stage_action_members"

lemma stage_action_all: "(\<forall>e. P e) \<longleftrightarrow> (\<forall>e \<in> set stage_action_members. P e)"
proof -
  have "e \<in> set stage_action_members" for e by (cases e) (simp_all add: stage_action_members_def)
  then show ?thesis by blast
qed

interpretation stage_action_enum: str_enum stage_action_value stage_action_members
proof unfold_locales
  show "distinct (map stage_action_value stage_action_members)" by (simp add: stage_action_members_def)
  show "e \<in> set stage_action_members" for e by (cases e) (simp_all add: stage_action_members_def)
qed


text \<open>
  The state of a machine is quantified over in many statements; \<open>enum\<close> instances make such
  quantifiers executable.
\<close>


instantiation coverage_state :: enum
begin

definition enum_coverage_state :: "coverage_state list" where
  "enum_coverage_state = coverage_state_members"

definition enum_all_coverage_state :: "(coverage_state \<Rightarrow> bool) \<Rightarrow> bool" where
  "enum_all_coverage_state P = list_all P coverage_state_members"

definition enum_ex_coverage_state :: "(coverage_state \<Rightarrow> bool) \<Rightarrow> bool" where
  "enum_ex_coverage_state P = list_ex P coverage_state_members"

instance
proof
  have all: "e \<in> set coverage_state_members" for e :: coverage_state
    by (cases e) (simp_all add: coverage_state_members_def)
  show "(UNIV :: coverage_state set) = set (enum_class.enum :: coverage_state list)"
    using all by (auto simp: enum_coverage_state_def)
  show "distinct (enum_class.enum :: coverage_state list)"
    by (simp add: enum_coverage_state_def coverage_state_members_def)
  show "enum_class.enum_all P \<longleftrightarrow> Ball UNIV P" for P :: "coverage_state \<Rightarrow> bool"
    using all by (auto simp: enum_all_coverage_state_def list_all_iff)
  show "enum_class.enum_ex P \<longleftrightarrow> Bex UNIV P" for P :: "coverage_state \<Rightarrow> bool"
    using all by (auto simp: enum_ex_coverage_state_def list_ex_iff)
qed

end


instantiation run_status :: enum
begin

definition enum_run_status :: "run_status list" where
  "enum_run_status = run_status_members"

definition enum_all_run_status :: "(run_status \<Rightarrow> bool) \<Rightarrow> bool" where
  "enum_all_run_status P = list_all P run_status_members"

definition enum_ex_run_status :: "(run_status \<Rightarrow> bool) \<Rightarrow> bool" where
  "enum_ex_run_status P = list_ex P run_status_members"

instance
proof
  have all: "e \<in> set run_status_members" for e :: run_status
    by (cases e) (simp_all add: run_status_members_def)
  show "(UNIV :: run_status set) = set (enum_class.enum :: run_status list)"
    using all by (auto simp: enum_run_status_def)
  show "distinct (enum_class.enum :: run_status list)"
    by (simp add: enum_run_status_def run_status_members_def)
  show "enum_class.enum_all P \<longleftrightarrow> Ball UNIV P" for P :: "run_status \<Rightarrow> bool"
    using all by (auto simp: enum_all_run_status_def list_all_iff)
  show "enum_class.enum_ex P \<longleftrightarrow> Bex UNIV P" for P :: "run_status \<Rightarrow> bool"
    using all by (auto simp: enum_ex_run_status_def list_ex_iff)
qed

end


instantiation stage_status :: enum
begin

definition enum_stage_status :: "stage_status list" where
  "enum_stage_status = stage_status_members"

definition enum_all_stage_status :: "(stage_status \<Rightarrow> bool) \<Rightarrow> bool" where
  "enum_all_stage_status P = list_all P stage_status_members"

definition enum_ex_stage_status :: "(stage_status \<Rightarrow> bool) \<Rightarrow> bool" where
  "enum_ex_stage_status P = list_ex P stage_status_members"

instance
proof
  have all: "e \<in> set stage_status_members" for e :: stage_status
    by (cases e) (simp_all add: stage_status_members_def)
  show "(UNIV :: stage_status set) = set (enum_class.enum :: stage_status list)"
    using all by (auto simp: enum_stage_status_def)
  show "distinct (enum_class.enum :: stage_status list)"
    by (simp add: enum_stage_status_def stage_status_members_def)
  show "enum_class.enum_all P \<longleftrightarrow> Ball UNIV P" for P :: "stage_status \<Rightarrow> bool"
    using all by (auto simp: enum_all_stage_status_def list_all_iff)
  show "enum_class.enum_ex P \<longleftrightarrow> Bex UNIV P" for P :: "stage_status \<Rightarrow> bool"
    using all by (auto simp: enum_ex_stage_status_def list_ex_iff)
qed

end


instantiation action :: enum
begin

definition enum_action :: "action list" where
  "enum_action = action_members"

definition enum_all_action :: "(action \<Rightarrow> bool) \<Rightarrow> bool" where
  "enum_all_action P = list_all P action_members"

definition enum_ex_action :: "(action \<Rightarrow> bool) \<Rightarrow> bool" where
  "enum_ex_action P = list_ex P action_members"

instance
proof
  have all: "e \<in> set action_members" for e :: action
    by (cases e) (simp_all add: action_members_def)
  show "(UNIV :: action set) = set (enum_class.enum :: action list)"
    using all by (auto simp: enum_action_def)
  show "distinct (enum_class.enum :: action list)"
    by (simp add: enum_action_def action_members_def)
  show "enum_class.enum_all P \<longleftrightarrow> Ball UNIV P" for P :: "action \<Rightarrow> bool"
    using all by (auto simp: enum_all_action_def list_all_iff)
  show "enum_class.enum_ex P \<longleftrightarrow> Bex UNIV P" for P :: "action \<Rightarrow> bool"
    using all by (auto simp: enum_ex_action_def list_ex_iff)
qed

end


instantiation run_action :: enum
begin

definition enum_run_action :: "run_action list" where
  "enum_run_action = run_action_members"

definition enum_all_run_action :: "(run_action \<Rightarrow> bool) \<Rightarrow> bool" where
  "enum_all_run_action P = list_all P run_action_members"

definition enum_ex_run_action :: "(run_action \<Rightarrow> bool) \<Rightarrow> bool" where
  "enum_ex_run_action P = list_ex P run_action_members"

instance
proof
  have all: "e \<in> set run_action_members" for e :: run_action
    by (cases e) (simp_all add: run_action_members_def)
  show "(UNIV :: run_action set) = set (enum_class.enum :: run_action list)"
    using all by (auto simp: enum_run_action_def)
  show "distinct (enum_class.enum :: run_action list)"
    by (simp add: enum_run_action_def run_action_members_def)
  show "enum_class.enum_all P \<longleftrightarrow> Ball UNIV P" for P :: "run_action \<Rightarrow> bool"
    using all by (auto simp: enum_all_run_action_def list_all_iff)
  show "enum_class.enum_ex P \<longleftrightarrow> Bex UNIV P" for P :: "run_action \<Rightarrow> bool"
    using all by (auto simp: enum_ex_run_action_def list_ex_iff)
qed

end


instantiation stage_action :: enum
begin

definition enum_stage_action :: "stage_action list" where
  "enum_stage_action = stage_action_members"

definition enum_all_stage_action :: "(stage_action \<Rightarrow> bool) \<Rightarrow> bool" where
  "enum_all_stage_action P = list_all P stage_action_members"

definition enum_ex_stage_action :: "(stage_action \<Rightarrow> bool) \<Rightarrow> bool" where
  "enum_ex_stage_action P = list_ex P stage_action_members"

instance
proof
  have all: "e \<in> set stage_action_members" for e :: stage_action
    by (cases e) (simp_all add: stage_action_members_def)
  show "(UNIV :: stage_action set) = set (enum_class.enum :: stage_action list)"
    using all by (auto simp: enum_stage_action_def)
  show "distinct (enum_class.enum :: stage_action list)"
    by (simp add: enum_stage_action_def stage_action_members_def)
  show "enum_class.enum_all P \<longleftrightarrow> Ball UNIV P" for P :: "stage_action \<Rightarrow> bool"
    using all by (auto simp: enum_all_stage_action_def list_all_iff)
  show "enum_class.enum_ex P \<longleftrightarrow> Bex UNIV P" for P :: "stage_action \<Rightarrow> bool"
    using all by (auto simp: enum_ex_stage_action_def list_ex_iff)
qed

end


section \<open>Exceptions\<close>

text \<open>
  The exceptions of the modelled code.  \<open>IntegrityError\<close> names the constraint a flush
  violates, \<open>AttributeError\<close> is an attribute access on \<open>None\<close>, \<open>ApiError\<close> carries
  code, message and HTTP status.
\<close>

datatype error =
    IllegalTransition "coverage_state option" action string
  | IllegalRunChange run_status run_action string
  | IllegalStageChange stage_status stage_action string
  | IntegrityError string
  | ImmutableColumnError "string list"
  | PlanError string
  | EngineError string
  | AttributeError
  | KeyError string
  | ValueError string
  | TypeError string
  | NotImplementedError string
  | RuntimeError string
  | ApiError string string nat

end
