(* ===== verification/Coverage_SM.thy ===== *)
theory Coverage_SM
  imports Domain_Types
begin

text \<open>
  \<open>core/domain/coverage_sm.py\<close>: the pure coverage state machine.  \<open>ENTRIES\<close> is the
  transition dictionary, \<open>check_guards\<close> the guard cascade and \<open>transition\<close> the function
  the repository calls; an illegal pair or a failing guard is the \<open>IllegalTransition\<close>
  exception.  \<open>run_actions\<close> folds a sequence of actions, each with its own guard inputs.
  The lemmas characterise acceptance by a declarative guard predicate and show which action
  sequences can put a ticker into the live book.
\<close>

section \<open>Data\<close>

record transition_context =
  has_open_position :: bool
  force :: bool
  note_provided :: bool
  new_house_enabled :: bool
  new_house_assignable :: bool
  new_house_meta :: bool
  gate_open :: bool
  answer_in_allowed :: bool

definition default_ctx :: transition_context where
  "default_ctx = \<lparr>has_open_position = False, force = False, note_provided = False,
     new_house_enabled = True, new_house_assignable = True, new_house_meta = False,
     gate_open = True, answer_in_allowed = True\<rparr>"

record cov_transition =
  ct_to :: coverage_state
  ct_cause :: string
  ct_effects :: "string list"

definition ENTRIES ::
  "((coverage_state option \<times> action) \<times> (coverage_state \<times> string \<times> string list)) list" where
  "ENTRIES = [
    ((None, Act_Propose),
      (CS_Proposed, ''propose'', [''create_coverage_row'', ''compute_dossier_slug''])),
    ((Some CS_Proposed, Act_Start_Initiation),
      (CS_Initiating, ''start_initiation'', [''set_lead_house''])),
    ((Some CS_Initiating, Act_Initiation_Delivered),
      (CS_Decision_Pending, ''initiation_delivered'',
       [''open_gate:initiation_decision'', ''outbox:gate.opened''])),
    ((Some CS_Initiating, Act_Initiation_Failed),
      (CS_Failed, ''initiation_failed'', [''outbox:run.finished''])),
    ((Some CS_Decision_Pending, Act_Initiation_Cancelled),
      (CS_Failed, ''initiation_cancelled'',
       [''cancel_open_gate'', ''retain_branch'', ''outbox:run.finished''])),
    ((Some CS_Failed, Act_Retry_Initiation),
      (CS_Initiating, ''retry_initiation'', [''new_initiation_run''])),
    ((Some CS_Proposed, Act_Withdraw), (CS_Rejected, ''withdraw'', [''no_branch_merge''])),
    ((Some CS_Failed, Act_Withdraw), (CS_Rejected, ''withdraw'', [''no_branch_merge''])),
    ((Some CS_Decision_Pending, Act_Decide_Active),
      (CS_Active, ''pm_decision'',
       [''answer_gate'', ''merge_branch'', ''predictions_open'', ''write_coverage_levels'',
        ''set_decided_at'', ''outbox:coverage.state_changed''])),
    ((Some CS_Decision_Pending, Act_Decide_Watch),
      (CS_Watch, ''pm_decision'',
       [''answer_gate'', ''merge_branch'', ''predictions_open'', ''write_coverage_levels'',
        ''set_decided_at'', ''outbox:coverage.state_changed''])),
    ((Some CS_Decision_Pending, Act_Decide_Reject),
      (CS_Rejected, ''pm_decision'',
       [''answer_gate'', ''no_branch_merge'', ''supersede_predictions''])),
    ((Some CS_Watch, Act_Promote),
      (CS_Active, ''promote'', [''spawn_deep_review'', ''outbox:coverage.state_changed''])),
    ((Some CS_Active, Act_Demote),
      (CS_Watch, ''demote'', [''outbox:coverage.state_changed''])),
    ((Some CS_Active, Act_Exit),
      (CS_Exited, ''exit'',
       [''expire_open_predictions'', ''set_exited_at'', ''outbox:coverage.state_changed''])),
    ((Some CS_Watch, Act_Exit),
      (CS_Exited, ''exit'',
       [''expire_open_predictions'', ''set_exited_at'', ''outbox:coverage.state_changed''])),
    ((Some CS_Exited, Act_Re_Propose),
      (CS_Proposed, ''re_propose'', [''reuse_dossier_history''])),
    ((Some CS_Rejected, Act_Re_Propose),
      (CS_Proposed, ''re_propose'', [''reuse_dossier_history''])),
    ((Some CS_Active, Act_Set_Lead),
      (CS_Active, ''lead_change'',
       [''write_lead_history'', ''open_predictions_keep_house'', ''outbox:coverage.state_changed''])),
    ((Some CS_Watch, Act_Set_Lead),
      (CS_Watch, ''lead_change'',
       [''write_lead_history'', ''open_predictions_keep_house'', ''outbox:coverage.state_changed'']))]"

definition DECIDE_ACTIONS :: "action list" where
  "DECIDE_ACTIONS = [Act_Decide_Active, Act_Decide_Watch, Act_Decide_Reject]"

section \<open>Operations\<close>

definition check_guards ::
  "coverage_state option \<Rightarrow> action \<Rightarrow> transition_context \<Rightarrow> error + unit" where
  "check_guards from_state a ctx =
    (if a = Act_Exit then
       if has_open_position ctx \<and> \<not> force ctx then
         Inl (IllegalTransition from_state a ''exit with an open position requires force=True'')
       else if force ctx \<and> \<not> note_provided ctx then
         Inl (IllegalTransition from_state a ''forced exit requires a mandatory note'')
       else Inr ()
     else if a = Act_Withdraw then
       if \<not> note_provided ctx then
         Inl (IllegalTransition from_state a ''withdraw requires a mandatory note'')
       else Inr ()
     else if a = Act_Set_Lead then
       if \<not> new_house_enabled ctx then
         Inl (IllegalTransition from_state a ''lead house must be enabled'')
       else if new_house_meta ctx then
         Inl (IllegalTransition from_state a ''a meta house cannot be lead'')
       else if \<not> new_house_assignable ctx then
         Inl (IllegalTransition from_state a ''lead house must be assignable'')
       else Inr ()
     else if a \<in> set DECIDE_ACTIONS then
       if \<not> gate_open ctx then
         Inl (IllegalTransition from_state a ''decide requires an open gate'')
       else if \<not> answer_in_allowed ctx then
         Inl (IllegalTransition from_state a ''answer is not in allowed_answers'')
       else Inr ()
     else Inr ())"

definition transition ::
  "coverage_state option \<Rightarrow> action \<Rightarrow> transition_context \<Rightarrow> error + cov_transition" where
  "transition from_state a ctx =
    (case map_of ENTRIES (from_state, a) of
       None \<Rightarrow> Inl (IllegalTransition from_state a ''not a legal transition from this state'')
     | Some (to_state, cause, effects) \<Rightarrow>
         andthen (check_guards from_state a ctx) (\<lambda>_.
           Inr \<lparr>ct_to = to_state, ct_cause = cause, ct_effects = effects\<rparr>))"

definition legal_actions :: "coverage_state option \<Rightarrow> action set" where
  "legal_actions from_state =
     set (map (\<lambda>((_, a), _). a) (filter (\<lambda>((s, _), _). s = from_state) ENTRIES))"

text \<open>A history of a ticker: actions applied in turn, from before its creation.\<close>

definition run_actions ::
  "(action \<times> transition_context) list \<Rightarrow> coverage_state option \<Rightarrow> error + coverage_state option" where
  "run_actions = fold_err (\<lambda>(a, ctx) s. andthen (transition s a ctx) (\<lambda>t. Inr (Some (ct_to t))))"

section \<open>Acceptance\<close>

text \<open>The guards as one declarative predicate, each action's clause on its own.\<close>

definition guards_hold :: "action \<Rightarrow> transition_context \<Rightarrow> bool" where
  "guards_hold a ctx \<longleftrightarrow>
     (a = Act_Exit \<longrightarrow> (has_open_position ctx \<longrightarrow> force ctx) \<and> (force ctx \<longrightarrow> note_provided ctx)) \<and>
     (a = Act_Withdraw \<longrightarrow> note_provided ctx) \<and>
     (a = Act_Set_Lead \<longrightarrow>
        new_house_enabled ctx \<and> new_house_assignable ctx \<and> \<not> new_house_meta ctx) \<and>
     (a \<in> {Act_Decide_Active, Act_Decide_Watch, Act_Decide_Reject} \<longrightarrow>
        gate_open ctx \<and> answer_in_allowed ctx)"

lemma check_guards_Inr_iff: "check_guards s a ctx = Inr u \<longleftrightarrow> guards_hold a ctx"
  by (cases a) (auto simp: check_guards_def guards_hold_def DECIDE_ACTIONS_def)

lemma ENTRIES_keys_distinct: "distinct (map fst ENTRIES)"
  by (simp add: ENTRIES_def)

lemma legal_actions_iff: "a \<in> legal_actions s \<longleftrightarrow> map_of ENTRIES (s, a) \<noteq> None"
proof -
  have "map_of ENTRIES (s, a) \<noteq> None \<longleftrightarrow> (s, a) \<in> fst ` set ENTRIES"
    by (simp add: map_of_eq_None_iff)
  also have "\<dots> \<longleftrightarrow> a \<in> legal_actions s"
    unfolding legal_actions_def by force
  finally show ?thesis by blast
qed

lemma transition_Inr_iff:
  "transition s a ctx = Inr t \<longleftrightarrow>
     guards_hold a ctx \<and> map_of ENTRIES (s, a) = Some (ct_to t, ct_cause t, ct_effects t)"
  by (cases t)
    (auto simp: transition_def andthen_Inr_iff check_guards_Inr_iff split: option.splits)

lemma transition_InrE:
  assumes "transition s a ctx = Inr t"
  obtains "guards_hold a ctx" and "((s, a), (ct_to t, ct_cause t, ct_effects t)) \<in> set ENTRIES"
  using assms by (auto simp: transition_Inr_iff dest: map_of_SomeD)

lemma transition_Inl_iff:
  "(\<exists>e. transition s a ctx = Inl e) \<longleftrightarrow> a \<notin> legal_actions s \<or> \<not> guards_hold a ctx"
proof -
  have "(\<exists>e. check_guards s a ctx = Inl e) \<longleftrightarrow> \<not> guards_hold a ctx"
    using check_guards_Inr_iff [of s a ctx] by (cases "check_guards s a ctx") auto
  then show ?thesis
    unfolding legal_actions_iff by (auto simp: transition_def andthen_Inl_iff split: option.splits)
qed

text \<open>
  The state machine accepts an action exactly when the pair is in the table and every
  guard of that action holds: an exit from an open position is forced and a forced exit has a
  note, a withdrawal has a note, a new lead is enabled, assignable and not meta, a decision
  answers an open gate with an allowed answer.  Otherwise the result is an exception carrying
  the state and the action, so the API can map it to a 409.
\<close>

theorem transition_accepts_iff:
  "((\<exists>t. transition s a ctx = Inr t) \<longleftrightarrow> a \<in> legal_actions s \<and> guards_hold a ctx) \<and>
   (\<forall>e. transition s a ctx = Inl e \<longrightarrow> (\<exists>reason. e = IllegalTransition s a reason))"
proof
  show "(\<exists>t. transition s a ctx = Inr t) \<longleftrightarrow> a \<in> legal_actions s \<and> guards_hold a ctx"
    using transition_Inl_iff [of s a ctx] by (cases "transition s a ctx") auto
  show "\<forall>e. transition s a ctx = Inl e \<longrightarrow> (\<exists>reason. e = IllegalTransition s a reason)"
    by (auto simp: transition_def andthen_Inl_iff check_guards_def split: option.splits if_splits)
qed

text \<open>A closed instance: a decision on an open gate is accepted, on no gate it is refused.\<close>

theorem transition_accepts_iff_witness:
  "(\<exists>t. transition (Some CS_Decision_Pending) Act_Decide_Watch default_ctx = Inr t) \<and>
   \<not> (\<exists>t. transition (Some CS_Decision_Pending) Act_Decide_Watch
             (default_ctx\<lparr>gate_open := False\<rparr>) = Inr t)"
proof -
  have legal: "Act_Decide_Watch \<in> legal_actions (Some CS_Decision_Pending)"
    by (simp add: legal_actions_iff ENTRIES_def)
  show ?thesis
    using transition_accepts_iff [of "Some CS_Decision_Pending" Act_Decide_Watch default_ctx]
      transition_accepts_iff [of "Some CS_Decision_Pending" Act_Decide_Watch
        "default_ctx\<lparr>gate_open := False\<rparr>"] legal
    by (simp add: guards_hold_def default_ctx_def)
qed

section \<open>Histories\<close>

lemma run_actions_Nil [simp]: "run_actions [] s = Inr s"
  by (simp add: run_actions_def)

lemma run_actions_snoc:
  "run_actions (acts @ [(a, ctx)]) s0 = Inr s' \<longleftrightarrow>
     (\<exists>s t. run_actions acts s0 = Inr s \<and> transition s a ctx = Inr t \<and> s' = Some (ct_to t))"
  by (auto simp: run_actions_def fold_err_append andthen_Inr_iff)

definition is_live :: "coverage_state \<Rightarrow> bool" where
  "is_live s \<longleftrightarrow> s \<in> {CS_Active, CS_Watch}"

lemma ENTRIES_live:
  "list_all (\<lambda>((s, a), to_state, _). is_live to_state \<longrightarrow>
      a \<in> {Act_Decide_Active, Act_Decide_Watch} \<or>
      (\<exists>s0. s = Some s0 \<and> is_live s0) \<and> a \<notin> {Act_Propose, Act_Re_Propose}) ENTRIES"
  by (simp add: ENTRIES_def is_live_def)

lemma live_step:
  assumes step: "transition s a ctx = Inr t" and live: "is_live (ct_to t)"
  shows "(a \<in> {Act_Decide_Active, Act_Decide_Watch} \<and> gate_open ctx \<and> answer_in_allowed ctx) \<or>
         (\<exists>s0. s = Some s0 \<and> is_live s0 \<and> a \<notin> {Act_Propose, Act_Re_Propose})"
proof (rule transition_InrE [OF step])
  assume g: "guards_hold a ctx" and e: "((s, a), ct_to t, ct_cause t, ct_effects t) \<in> set ENTRIES"
  from e live ENTRIES_live have
    "a \<in> {Act_Decide_Active, Act_Decide_Watch} \<or>
     (\<exists>s0. s = Some s0 \<and> is_live s0) \<and> a \<notin> {Act_Propose, Act_Re_Propose}"
    by (fastforce simp: list_all_iff)
  with g show ?thesis by (auto simp: guards_hold_def)
qed

text \<open>
  No ticker enters the live book without the PM: whenever a history from creation ends in
  \<open>active\<close> or \<open>watch\<close>, it contains a decide action taken on an open gate with an allowed
  answer, and the ticker has not been proposed again since.
\<close>

theorem live_needs_pm_decision:
  assumes "run_actions acts None = Inr (Some s)" and "is_live s"
  shows "\<exists>pre a ctx post. acts = pre @ (a, ctx) # post \<and>
           a \<in> {Act_Decide_Active, Act_Decide_Watch} \<and> gate_open ctx \<and> answer_in_allowed ctx \<and>
           (\<forall>(b, c) \<in> set post. b \<notin> {Act_Propose, Act_Re_Propose})"
  using assms
proof (induction acts arbitrary: s rule: rev_induct)
  case Nil
  then show ?case by simp
next
  case (snoc x acts)
  obtain a ctx where x: "x = (a, ctx)" by (cases x)
  from snoc.prems(1) x obtain s0 t where run: "run_actions acts None = Inr s0"
    and step: "transition s0 a ctx = Inr t" and s: "s = ct_to t"
    by (auto simp: run_actions_snoc)
  from live_step [OF step] snoc.prems(2) s
  consider (decide) "a \<in> {Act_Decide_Active, Act_Decide_Watch}" "gate_open ctx" "answer_in_allowed ctx"
    | (stay) s1 where "s0 = Some s1" "is_live s1" "a \<notin> {Act_Propose, Act_Re_Propose}"
    by blast
  then show ?case
  proof cases
    case decide
    then have "acts @ [x] = acts @ (a, ctx) # [] \<and> (\<forall>(b, c) \<in> set []. b \<notin> {Act_Propose, Act_Re_Propose})"
      using x by simp
    with decide show ?thesis by blast
  next
    case stay
    from snoc.IH [of s1] run stay obtain pre b c post where
      IH: "acts = pre @ (b, c) # post" "b \<in> {Act_Decide_Active, Act_Decide_Watch}"
        "gate_open c" "answer_in_allowed c" "\<forall>(b, c) \<in> set post. b \<notin> {Act_Propose, Act_Re_Propose}"
      by blast
    then have "acts @ [x] = pre @ (b, c) # (post @ [x]) \<and>
        (\<forall>(b, c) \<in> set (post @ [x]). b \<notin> {Act_Propose, Act_Re_Propose})"
      using x stay(3) by auto
    with IH(2-4) show ?thesis by blast
  qed
qed

definition sample_history :: "(action \<times> transition_context) list" where
  "sample_history = map (\<lambda>a. (a, default_ctx))
     [Act_Propose, Act_Start_Initiation, Act_Initiation_Delivered, Act_Decide_Watch, Act_Promote]"

lemma sample_history_run: "run_actions sample_history None = Inr (Some CS_Active)"
  by (simp add: sample_history_def run_actions_def transition_def ENTRIES_def check_guards_def
      DECIDE_ACTIONS_def default_ctx_def)

theorem live_needs_pm_decision_witness:
  "\<exists>pre a ctx post. sample_history = pre @ (a, ctx) # post \<and>
     a \<in> {Act_Decide_Active, Act_Decide_Watch} \<and> gate_open ctx \<and> answer_in_allowed ctx \<and>
     (\<forall>(b, c) \<in> set post. b \<notin> {Act_Propose, Act_Re_Propose})"
  by (rule live_needs_pm_decision [OF sample_history_run]) (simp add: is_live_def)

text \<open>
  No state is a trap: from every state there is a sequence of legal actions, each with its
  guards satisfied, that makes the ticker active (a rejected, exited or failed one included).
\<close>

definition path_to_active :: "coverage_state \<Rightarrow> action list" where
  "path_to_active s = (case s of
     CS_Active \<Rightarrow> [] | CS_Watch \<Rightarrow> [Act_Promote]
   | CS_Decision_Pending \<Rightarrow> [Act_Decide_Active]
   | CS_Initiating \<Rightarrow> [Act_Initiation_Delivered, Act_Decide_Active]
   | CS_Failed \<Rightarrow> [Act_Retry_Initiation, Act_Initiation_Delivered, Act_Decide_Active]
   | CS_Proposed \<Rightarrow> [Act_Start_Initiation, Act_Initiation_Delivered, Act_Decide_Active]
   | _ \<Rightarrow> [Act_Re_Propose, Act_Start_Initiation, Act_Initiation_Delivered, Act_Decide_Active])"

theorem no_dead_end:
  "run_actions (map (\<lambda>a. (a, default_ctx)) (path_to_active s)) (Some s) = Inr (Some CS_Active)"
  by (cases s) (simp_all add: path_to_active_def run_actions_def transition_def ENTRIES_def
      check_guards_def DECIDE_ACTIONS_def default_ctx_def)

end
