(* ===== verification/Run_SM.thy ===== *)
theory Run_SM
  imports Domain_Types
begin

text \<open>
  \<open>core/domain/run_sm.py\<close>: the run and the stage state machine.  Both are tables of legal
  (status, action) pairs with one guard (a requeue or a retry needs attempts left) and a list
  of side effects.

  The locale \<open>lifecycle\<close> is what the repositories rely on: a machine with final statuses no
  action leaves.  Its lemmas (a history that reaches a final status ends there) hold for both
  machines by interpretation.
\<close>

section \<open>The lifecycle interface\<close>

definition run_machine :: "('s \<Rightarrow> 'x \<Rightarrow> 'e + 's) \<Rightarrow> 'x list \<Rightarrow> 's \<Rightarrow> 'e + 's" where
  "run_machine step = fold_err (\<lambda>x s. step s x)"

locale lifecycle =
  fixes step :: "'s \<Rightarrow> 'x \<Rightarrow> 'e + 's" and final :: "'s \<Rightarrow> bool"
  assumes final_stuck: "final s \<Longrightarrow> step s x \<noteq> Inr t"
begin

lemma final_run: "final s \<Longrightarrow> run_machine step xs s = Inr t \<Longrightarrow> xs = [] \<and> t = s"
  by (cases xs) (auto simp: run_machine_def andthen_Inr_iff final_stuck)

lemma final_last:
  assumes "run_machine step (xs @ ys) s = Inr t" and "run_machine step xs s = Inr u" and "final u"
  shows "ys = [] \<and> t = u"
  using assms final_run [of u ys t]
  by (simp add: run_machine_def fold_err_append)

end

section \<open>Runs\<close>

record attempt_context =
  ctx_attempts :: int
  ctx_max_attempts :: int

definition default_attempt_ctx :: attempt_context where
  "default_attempt_ctx = \<lparr>ctx_attempts = 0, ctx_max_attempts = 1\<rparr>"

record run_transition_result =
  rt_to :: run_status
  rt_cause :: string
  rt_effects :: "string list"

definition RUN_TERMINAL :: "run_status list" where
  "RUN_TERMINAL = [RS_Succeeded, RS_Failed, RS_Cancelled]"

definition terminal_side_effects :: "run_status \<Rightarrow> string list" where
  "terminal_side_effects to_state =
     (if to_state \<in> set RUN_TERMINAL then [''release_lock'', ''outbox:run.finished''] else [])"

definition run_legal :: "((run_status \<times> run_action) \<times> (run_status \<times> string)) list" where
  "run_legal = [
    ((RS_Queued, RA_Start), (RS_Running, ''started'')),
    ((RS_Running, RA_Requeue), (RS_Queued, ''transient_failure'')),
    ((RS_Running, RA_Fail), (RS_Failed, ''terminal_failure'')),
    ((RS_Running, RA_Open_Gate), (RS_Waiting_PM, ''reached_pm_gate'')),
    ((RS_Running, RA_Succeed), (RS_Succeeded, ''succeeded'')),
    ((RS_Running, RA_Cancel), (RS_Cancelled, ''cancelled'')),
    ((RS_Waiting_PM, RA_Succeed), (RS_Succeeded, ''succeeded'')),
    ((RS_Waiting_PM, RA_Cancel), (RS_Cancelled, ''cancelled'')),
    ((RS_Queued, RA_Cancel), (RS_Cancelled, ''cancelled''))]"

definition run_transition ::
  "run_status \<Rightarrow> run_action \<Rightarrow> attempt_context \<Rightarrow> error + run_transition_result" where
  "run_transition state a ctx =
    (case map_of run_legal (state, a) of
       None \<Rightarrow> Inl (IllegalRunChange state a ''not a legal run transition from this state'')
     | Some (to_state, cause) \<Rightarrow>
         if a = RA_Requeue \<and> ctx_attempts ctx \<ge> ctx_max_attempts ctx then
           Inl (IllegalRunChange state a
             ''attempts exhausted; the run must go to failed, not requeued'')
         else
           Inr \<lparr>rt_to = to_state, rt_cause = cause,
                rt_effects =
                  (if a = RA_Open_Gate then [''open_pm_gate''] else []) @
                  (if a = RA_Requeue then [''record_transient_error''] else []) @
                  terminal_side_effects to_state\<rparr>)"

section \<open>Stages\<close>

record stage_transition_result =
  stt_to :: stage_status
  stt_cause :: string
  stt_effects :: "string list"

definition stage_legal :: "((stage_status \<times> stage_action) \<times> (stage_status \<times> string)) list" where
  "stage_legal = [
    ((SS_Queued, SA_Start), (SS_Running, ''claimed'')),
    ((SS_Running, SA_Complete), (SS_Succeeded, ''completed'')),
    ((SS_Running, SA_Fail_Retryable), (SS_Queued, ''retryable_failure'')),
    ((SS_Running, SA_Fail_Terminal), (SS_Failed, ''terminal_failure'')),
    ((SS_Queued, SA_Skip), (SS_Skipped, ''orchestrator_skip''))]"

definition stage_transition ::
  "stage_status \<Rightarrow> stage_action \<Rightarrow> attempt_context \<Rightarrow> error + stage_transition_result" where
  "stage_transition state a ctx =
    (case map_of stage_legal (state, a) of
       None \<Rightarrow> Inl (IllegalStageChange state a ''not a legal stage transition from this state'')
     | Some (to_state, cause) \<Rightarrow>
         if a = SA_Fail_Retryable \<and> ctx_attempts ctx \<ge> ctx_max_attempts ctx then
           Inl (IllegalStageChange state a
             ''attempts exhausted; the stage must go to failed, not requeued'')
         else
           Inr \<lparr>stt_to = to_state, stt_cause = cause,
                stt_effects =
                  (if a = SA_Fail_Retryable then [''set_available_at_backoff''] else [])\<rparr>)"

section \<open>Lemmas\<close>

definition run_step :: "run_status \<Rightarrow> run_action \<times> attempt_context \<Rightarrow> error + run_status" where
  "run_step s = (\<lambda>(a, ctx). andthen (run_transition s a ctx) (\<lambda>t. Inr (rt_to t)))"

definition stage_step :: "stage_status \<Rightarrow> stage_action \<times> attempt_context \<Rightarrow> error + stage_status" where
  "stage_step s = (\<lambda>(a, ctx). andthen (stage_transition s a ctx) (\<lambda>t. Inr (stt_to t)))"

lemma run_transition_InrE:
  assumes "run_transition s a ctx = Inr t"
  obtains "((s, a), (rt_to t, rt_cause t)) \<in> set run_legal"
    and "a = RA_Requeue \<longrightarrow> ctx_attempts ctx < ctx_max_attempts ctx"
    and "rt_effects t = (if a = RA_Open_Gate then [''open_pm_gate''] else []) @
           (if a = RA_Requeue then [''record_transient_error''] else []) @
           terminal_side_effects (rt_to t)"
  using assms by (auto simp: run_transition_def split: option.splits if_splits dest!: map_of_SomeD)

lemma stage_transition_InrE:
  assumes "stage_transition s a ctx = Inr t"
  obtains "((s, a), (stt_to t, stt_cause t)) \<in> set stage_legal"
    and "a = SA_Fail_Retryable \<longrightarrow> ctx_attempts ctx < ctx_max_attempts ctx"
  using assms by (auto simp: stage_transition_def split: option.splits if_splits dest!: map_of_SomeD)

text \<open>The transitions the repositories use, as rewrite rules.\<close>

lemma run_succeed_iff:
  "run_transition s RA_Succeed c = Inr t \<longleftrightarrow>
     s \<in> {RS_Running, RS_Waiting_PM} \<and>
     t = \<lparr>rt_to = RS_Succeeded, rt_cause = ''succeeded'',
          rt_effects = [''release_lock'', ''outbox:run.finished'']\<rparr>"
  by (cases s) (auto simp: run_transition_def run_legal_def terminal_side_effects_def RUN_TERMINAL_def)

lemma run_fail_iff:
  "run_transition s RA_Fail c = Inr t \<longleftrightarrow>
     s = RS_Running \<and>
     t = \<lparr>rt_to = RS_Failed, rt_cause = ''terminal_failure'',
          rt_effects = [''release_lock'', ''outbox:run.finished'']\<rparr>"
  by (cases s) (auto simp: run_transition_def run_legal_def terminal_side_effects_def RUN_TERMINAL_def)

lemma run_cancel_iff:
  "run_transition s RA_Cancel c = Inr t \<longleftrightarrow>
     s \<in> {RS_Running, RS_Waiting_PM, RS_Queued} \<and>
     t = \<lparr>rt_to = RS_Cancelled, rt_cause = ''cancelled'',
          rt_effects = [''release_lock'', ''outbox:run.finished'']\<rparr>"
  by (cases s) (auto simp: run_transition_def run_legal_def terminal_side_effects_def RUN_TERMINAL_def)

lemma run_requeue_iff:
  "run_transition s RA_Requeue c = Inr t \<longleftrightarrow>
     s = RS_Running \<and> ctx_attempts c < ctx_max_attempts c \<and>
     t = \<lparr>rt_to = RS_Queued, rt_cause = ''transient_failure'',
          rt_effects = [''record_transient_error'']\<rparr>"
  by (cases s) (auto simp: run_transition_def run_legal_def terminal_side_effects_def RUN_TERMINAL_def)

lemma run_open_gate_iff:
  "run_transition s RA_Open_Gate c = Inr t \<longleftrightarrow>
     s = RS_Running \<and>
     t = \<lparr>rt_to = RS_Waiting_PM, rt_cause = ''reached_pm_gate'', rt_effects = [''open_pm_gate'']\<rparr>"
  by (cases s) (auto simp: run_transition_def run_legal_def terminal_side_effects_def RUN_TERMINAL_def)

lemma stage_complete_iff:
  "stage_transition s SA_Complete c = Inr t \<longleftrightarrow>
     s = SS_Running \<and> t = \<lparr>stt_to = SS_Succeeded, stt_cause = ''completed'', stt_effects = []\<rparr>"
  by (cases s) (auto simp: stage_transition_def stage_legal_def)

lemma stage_retry_iff:
  "stage_transition s SA_Fail_Retryable c = Inr t \<longleftrightarrow>
     s = SS_Running \<and> ctx_attempts c < ctx_max_attempts c \<and>
     t = \<lparr>stt_to = SS_Queued, stt_cause = ''retryable_failure'',
          stt_effects = [''set_available_at_backoff'']\<rparr>"
  by (cases s) (auto simp: stage_transition_def stage_legal_def)

definition run_final :: "run_status \<Rightarrow> bool" where
  "run_final s \<longleftrightarrow> s \<in> set RUN_TERMINAL"

definition stage_final :: "stage_status \<Rightarrow> bool" where
  "stage_final s \<longleftrightarrow> s \<in> {SS_Succeeded, SS_Failed, SS_Skipped}"

interpretation run_sm: lifecycle run_step run_final
proof unfold_locales
  fix s x t
  assume "run_final s"
  then show "run_step s x \<noteq> Inr t"
    by (cases x)
      (auto simp: run_step_def run_final_def RUN_TERMINAL_def run_transition_def run_legal_def)
qed

interpretation stage_sm: lifecycle stage_step stage_final
proof unfold_locales
  fix s x t
  assume "stage_final s"
  then show "stage_step s x \<noteq> Inr t"
    by (cases x)
      (auto simp: stage_step_def stage_final_def stage_transition_def stage_legal_def)
qed

section \<open>Properties\<close>

text \<open>
  Once a history of run actions reaches succeeded, failed or cancelled, nothing follows: no
  action, whatever its attempt counts, is accepted any more.
\<close>

theorem run_terminal_absorbs:
  assumes "run_machine run_step (xs @ ys) s = Inr t"
    and "run_machine run_step xs s = Inr u" and "u \<in> {RS_Succeeded, RS_Failed, RS_Cancelled}"
  shows "ys = [] \<and> t = u"
  using assms(1,2)
  by (rule run_sm.final_last) (use assms(3) in \<open>simp add: run_final_def RUN_TERMINAL_def\<close>)

theorem run_terminal_absorbs_witness:
  "([] :: (run_action \<times> attempt_context) list) = [] \<and> RS_Succeeded = RS_Succeeded"
  by (rule run_terminal_absorbs
      [of "[(RA_Start, default_attempt_ctx), (RA_Succeed, default_attempt_ctx)]" "[]" RS_Queued])
    (simp_all add: run_machine_def run_step_def run_transition_def run_legal_def)

text \<open>
  The lock discipline of the machine: an accepted run action asks for the coverage lock to be
  released and for \<open>run.finished\<close> to be emitted exactly when the run becomes terminal, and
  asks for a PM gate exactly when the run starts to wait for the PM.
\<close>

theorem run_effects_match_status:
  assumes "run_transition s a ctx = Inr t"
  shows "(''release_lock'' \<in> set (rt_effects t) \<longleftrightarrow> run_final (rt_to t)) \<and>
         (''outbox:run.finished'' \<in> set (rt_effects t) \<longleftrightarrow> run_final (rt_to t)) \<and>
         (''open_pm_gate'' \<in> set (rt_effects t) \<longleftrightarrow> rt_to t = RS_Waiting_PM) \<and>
         (rt_to t = RS_Queued \<longrightarrow> ctx_attempts ctx < ctx_max_attempts ctx)"
  using assms
proof (rule run_transition_InrE)
  assume legal: "((s, a), rt_to t, rt_cause t) \<in> set run_legal"
    and guard: "a = RA_Requeue \<longrightarrow> ctx_attempts ctx < ctx_max_attempts ctx"
    and eff: "rt_effects t = (if a = RA_Open_Gate then [''open_pm_gate''] else []) @
           (if a = RA_Requeue then [''record_transient_error''] else []) @
           terminal_side_effects (rt_to t)"
  have tab: "list_all (\<lambda>((s, a), to_state, _).
      (a = RA_Open_Gate \<longleftrightarrow> to_state = RS_Waiting_PM) \<and> (to_state = RS_Queued \<longrightarrow> a = RA_Requeue)) run_legal"
    by (simp add: run_legal_def)
  with legal have "a = RA_Open_Gate \<longleftrightarrow> rt_to t = RS_Waiting_PM"
    and "rt_to t = RS_Queued \<longrightarrow> a = RA_Requeue"
    by (fastforce simp: list_all_iff)+
  with guard eff show ?thesis
    by (auto simp: terminal_side_effects_def run_final_def RUN_TERMINAL_def)
qed

theorem run_effects_match_status_witness:
  "''release_lock'' \<in> set [''release_lock'', ''outbox:run.finished''] \<longleftrightarrow> run_final RS_Cancelled"
proof -
  let ?t = "\<lparr>rt_to = RS_Cancelled, rt_cause = ''cancelled'',
             rt_effects = [''release_lock'', ''outbox:run.finished'']\<rparr>"
  have "run_transition RS_Waiting_PM RA_Cancel default_attempt_ctx = Inr ?t"
    by (simp add: run_cancel_iff)
  from run_effects_match_status [OF this] show ?thesis by simp
qed

text \<open>
  A run that waits for the PM can only end: every accepted action from \<open>waiting_pm\<close> leads
  to succeeded or cancelled.  In particular a run paused at a budget gate has no way back to
  running, whatever the PM answers.
\<close>

theorem waiting_pm_only_ends:
  "(\<exists>ctx t. run_transition RS_Waiting_PM a ctx = Inr t \<and> rt_to t = s) \<longleftrightarrow>
     (a = RA_Succeed \<and> s = RS_Succeeded) \<or> (a = RA_Cancel \<and> s = RS_Cancelled)"
  by (cases a) (auto simp: run_transition_def run_legal_def)

end
