(* ===== verification/Backoff.thy ===== *)
theory Backoff
  imports Domain_Types
begin

text \<open>
  \<open>core/domain/backoff.py\<close>: the delay before a failed stage is tried again, exponential in
  the attempts made, capped, with a jitter factor the caller draws.  Python's integers are
  \<open>int\<close>; the two floats are exact rationals.
\<close>

record backoff_policy =
  base_s :: int
  max_s :: int
  jitter :: rat

definition raw_delay :: "int \<Rightarrow> backoff_policy \<Rightarrow> int" where
  "raw_delay attempts policy =
     min (base_s policy * 2 ^ nat (max 0 (attempts - 1))) (max_s policy)"

definition backoff_seconds :: "int \<Rightarrow> backoff_policy \<Rightarrow> rat \<Rightarrow> rat" where
  "backoff_seconds attempts policy jitter_factor =
     max 0 (of_int (raw_delay attempts policy) * (1 + jitter policy * jitter_factor))"

text \<open>What a sane configuration looks like; \<open>QueueCfg\<close>'s defaults are one.\<close>

definition sane_policy :: "backoff_policy \<Rightarrow> bool" where
  "sane_policy p \<longleftrightarrow> 0 \<le> base_s p \<and> 0 \<le> max_s p \<and> 0 \<le> jitter p \<and> jitter p \<le> 1"

definition default_policy :: backoff_policy where
  "default_policy = \<lparr>base_s = 30, max_s = 3600, jitter = 1/5\<rparr>"

lemma raw_delay_nonneg: "sane_policy p \<Longrightarrow> 0 \<le> raw_delay n p"
  by (simp add: raw_delay_def sane_policy_def)

lemma raw_delay_mono:
  assumes "sane_policy p" and "m \<le> n"
  shows "raw_delay m p \<le> raw_delay n p"
proof -
  have "(2::int) ^ nat (max 0 (m - 1)) \<le> 2 ^ nat (max 0 (n - 1))"
    using assms(2) by (intro power_increasing) auto
  then have "base_s p * 2 ^ nat (max 0 (m - 1)) \<le> base_s p * 2 ^ nat (max 0 (n - 1))"
    using assms(1) by (intro mult_left_mono) (auto simp: sane_policy_def)
  then show ?thesis by (simp add: raw_delay_def min.coboundedI1)
qed

lemma jitter_product_bound:
  assumes "sane_policy p" and "\<bar>j\<bar> \<le> 1"
  shows "- jitter p \<le> jitter p * j \<and> jitter p * j \<le> jitter p"
proof -
  have "\<bar>jitter p * j\<bar> \<le> jitter p * 1"
    using assms mult_left_mono [of "\<bar>j\<bar>" 1 "jitter p"] by (simp add: abs_mult sane_policy_def)
  then show ?thesis by (simp add: abs_le_iff)
qed

lemma backoff_unclamped:
  assumes "sane_policy p" and "\<bar>j\<bar> \<le> 1"
  shows "backoff_seconds n p j = of_int (raw_delay n p) * (1 + jitter p * j)"
proof -
  have "0 \<le> 1 + jitter p * j"
    using jitter_product_bound [OF assms] assms(1) by (simp add: sane_policy_def)
  then show ?thesis
    using raw_delay_nonneg [OF assms(1), of n] by (simp add: backoff_seconds_def)
qed

text \<open>
  For a sane policy and a jitter factor in [-1, 1] the delay stays in the jitter band around
  the raw exponential delay, never negative, never above the cap widened by the jitter; and it
  never shrinks as attempts are made.
\<close>

theorem backoff_bounds:
  assumes "sane_policy p" and "\<bar>j\<bar> \<le> 1" and "m \<le> n"
  shows "of_int (raw_delay n p) * (1 - jitter p) \<le> backoff_seconds n p j \<and>
         backoff_seconds n p j \<le> of_int (max_s p) * (1 + jitter p) \<and>
         0 \<le> backoff_seconds n p j \<and>
         backoff_seconds m p j \<le> backoff_seconds n p j"
proof (intro conjI)
  note u = backoff_unclamped [OF assms(1,2)]
  note b = jitter_product_bound [OF assms(1,2)]
  have r: "0 \<le> (of_int (raw_delay n p) :: rat)"
    using raw_delay_nonneg [OF assms(1), of n] by simp
  have f: "0 \<le> 1 + jitter p * j"
    using b assms(1) by (simp add: sane_policy_def)
  show "of_int (raw_delay n p) * (1 - jitter p) \<le> backoff_seconds n p j"
    unfolding u by (rule mult_left_mono) (use b r in auto)
  have cap: "raw_delay n p \<le> max_s p" by (simp add: raw_delay_def)
  have "of_int (raw_delay n p) * (1 + jitter p * j) \<le> of_int (max_s p) * (1 + jitter p)"
    by (rule mult_mono) (use cap b r f assms(1) in \<open>auto simp: sane_policy_def\<close>)
  then show "backoff_seconds n p j \<le> of_int (max_s p) * (1 + jitter p)" unfolding u .
  show "0 \<le> backoff_seconds n p j" by (simp add: backoff_seconds_def)
  have "raw_delay m p \<le> raw_delay n p" by (rule raw_delay_mono [OF assms(1,3)])
  then show "backoff_seconds m p j \<le> backoff_seconds n p j"
    unfolding u by (intro mult_right_mono) (use f in auto)
qed

theorem backoff_bounds_witness:
  "backoff_seconds 3 default_policy (1/2) \<le> backoff_seconds 20 default_policy (1/2) \<and>
   backoff_seconds 20 default_policy (1/2) \<le> 4320"
proof -
  have sane: "sane_policy default_policy" and j: "\<bar>1/2 :: rat\<bar> \<le> 1" and le: "(3::int) \<le> 20"
    by (simp_all add: sane_policy_def default_policy_def)
  from backoff_bounds [OF sane j le] show ?thesis by (simp add: default_policy_def)
qed

end
