(* ===== verification/Dossier_Slug.thy ===== *)
theory Dossier_Slug
  imports Domain_Types
begin

text \<open>
  \<open>core/domain/dossier_slug.py\<close>.  \<open>collapse\<close> is \<open>_NON_ALNUM.sub("_", raw)\<close>, every
  maximal run of characters outside \<open>[a-z0-9]\<close> replaced by one underscore, and
  \<open>strip_underscore\<close> is \<open>.strip("_")\<close>.  Characters are the first 256 code points;
  lowering one outside ASCII never yields a letter of \<open>[a-z0-9]\<close> there, so lowering the
  ASCII capitals is all the regular expression can see.

  The specification is \<open>slug_words\<close>: the maximal alphanumeric runs of the lowered text.  The
  slug is those words joined by underscores, and two names share a slug exactly when they have
  the same words.
\<close>

definition lower_char :: "char \<Rightarrow> char" where
  "lower_char c =
     (let n = (of_char c :: nat) in if 65 \<le> n \<and> n \<le> 90 then char_of (n + 32) else c)"

definition alnum :: "char \<Rightarrow> bool" where
  "alnum c =
     (let n = (of_char c :: nat) in (97 \<le> n \<and> n \<le> 122) \<or> (48 \<le> n \<and> n \<le> 57))"

function collapse :: "string \<Rightarrow> string" where
  "collapse [] = []"
| "collapse (c # s) =
     (if alnum c then c # collapse s else CHR ''_'' # collapse (dropWhile (\<lambda>d. \<not> alnum d) s))"
  by pat_completeness auto
termination
  by (relation "measure length") (auto simp: le_imp_less_Suc length_dropWhile_le)

definition strip_underscore :: "string \<Rightarrow> string" where
  "strip_underscore s =
     rev (dropWhile (\<lambda>c. c = CHR ''_'') (rev (dropWhile (\<lambda>c. c = CHR ''_'') s)))"

definition slug_raw :: "string \<Rightarrow> string \<Rightarrow> string" where
  "slug_raw exchange ticker = map lower_char (exchange @ ''_'' @ ticker)"

definition compute_dossier_slug :: "string \<Rightarrow> string \<Rightarrow> string" where
  "compute_dossier_slug exchange ticker = strip_underscore (collapse (slug_raw exchange ticker))"

section \<open>The specification: words\<close>

function slug_words :: "string \<Rightarrow> string list" where
  "slug_words [] = []"
| "slug_words (c # s) =
     (if alnum c then (c # takeWhile alnum s) # slug_words (dropWhile alnum s) else slug_words s)"
  by pat_completeness auto
termination
  by (relation "measure length") (auto simp: le_imp_less_Suc length_dropWhile_le)

fun join_words :: "string list \<Rightarrow> string" where
  "join_words [] = []"
| "join_words [w] = w"
| "join_words (w # v # ws) = w @ CHR ''_'' # join_words (v # ws)"

definition is_word :: "string \<Rightarrow> bool" where
  "is_word w \<longleftrightarrow> w \<noteq> [] \<and> list_all alnum w"

lemma underscore_not_alnum [simp]: "\<not> alnum CHR ''_''"
  by (simp add: alnum_def)

lemma slug_words_are_words: "list_all is_word (slug_words s)"
proof (induction s rule: slug_words.induct)
  case 1
  then show ?case by simp
next
  case (2 c s)
  have "list_all alnum (takeWhile alnum s)" by (auto simp: list_all_iff dest: set_takeWhileD)
  with 2 show ?case by (simp add: is_word_def)
qed

lemma collapse_alnum_append: "list_all alnum w \<Longrightarrow> collapse (w @ r) = w @ collapse r"
  by (induction w) auto

lemma collapse_skip:
  "s \<noteq> [] \<Longrightarrow> \<not> alnum (hd s) \<Longrightarrow>
     collapse s = CHR ''_'' # collapse (dropWhile (\<lambda>d. \<not> alnum d) s)"
  by (cases s) auto

lemma slug_words_skip: "slug_words (dropWhile (\<lambda>d. \<not> alnum d) s) = slug_words s"
  by (induction s) auto

lemma slug_words_word:
  assumes "is_word w" and "r = [] \<or> \<not> alnum (hd r)"
  shows "slug_words (w @ r) = w # slug_words r"
proof -
  obtain c v where w: "w = c # v" and a: "alnum c" "list_all alnum v"
    using assms(1) by (cases w) (auto simp: is_word_def)
  have "takeWhile alnum (v @ r) = v" and "dropWhile alnum (v @ r) = r"
    using a(2) assms(2) by (cases r; auto simp: takeWhile_append dropWhile_append list_all_iff)+
  with w a show ?thesis by simp
qed

lemma last_dropWhile_nonempty: "dropWhile P s \<noteq> [] \<Longrightarrow> last (dropWhile P s) = last s"
  by (induction s) auto

definition trail :: "string \<Rightarrow> string" where
  "trail s = (if s \<noteq> [] \<and> \<not> alnum (last s) then ''_'' else [])"

lemma collapse_words:
  "s = [] \<or> alnum (hd s) \<Longrightarrow> collapse s = join_words (slug_words s) @ trail s"
proof (induction s rule: length_induct)
  case (1 s)
  show ?case
  proof (cases s)
    case Nil
    then show ?thesis by (simp add: trail_def)
  next
    case (Cons c t)
    define w where "w = takeWhile alnum s"
    define r where "r = dropWhile alnum s"
    define r' where "r' = dropWhile (\<lambda>d. \<not> alnum d) r"
    have s: "s = w @ r" by (simp add: w_def r_def)
    have w: "is_word w"
      using "1.prems" Cons by (auto simp: w_def is_word_def list_all_iff dest: set_takeWhileD)
    have r: "r = [] \<or> \<not> alnum (hd r)"
      by (cases "r = []") (auto simp: r_def hd_dropWhile)
    have cw: "collapse s = w @ collapse r"
      using w by (simp add: s collapse_alnum_append is_word_def)
    have ws: "slug_words s = w # slug_words r'"
      unfolding s r'_def slug_words_skip by (rule slug_words_word [OF w r])
    show ?thesis
    proof (cases "r = []")
      case True
      then show ?thesis using w s ws r'_def cw
        by (auto simp: trail_def is_word_def list_all_iff)
    next
      case ne: False
      with r have cr: "collapse r = CHR ''_'' # collapse r'"
        unfolding r'_def by (intro collapse_skip) auto
      show ?thesis
      proof (cases "r' = []")
        case True
        then have "\<forall>d \<in> set r. \<not> alnum d" by (auto simp: r'_def dropWhile_eq_Nil_conv)
        with ne have "\<not> alnum (last s)" by (simp add: s)
        with True cw cr ws s ne show ?thesis by (simp add: trail_def)
      next
        case False
        have "length r' < length s"
          unfolding r'_def using w s length_dropWhile_le [of "\<lambda>d. \<not> alnum d" r]
          by (auto simp: is_word_def intro: le_less_trans)
        moreover have "r' = [] \<or> alnum (hd r')"
          using False hd_dropWhile [of "\<lambda>d. \<not> alnum d" r] by (simp add: r'_def)
        ultimately have IH: "collapse r' = join_words (slug_words r') @ trail r'"
          using "1.IH" by blast
        have l: "last r' = last s"
          using False ne by (simp add: r'_def last_dropWhile_nonempty s)
        then have t: "trail r' = trail s" using False Cons by (simp add: trail_def)
        have "alnum (hd r')"
          using False hd_dropWhile [of "\<lambda>d. \<not> alnum d" r] by (simp add: r'_def)
        then obtain v vs where "slug_words r' = v # vs"
          using False by (cases r') auto
        with cw cr IH ws t show ?thesis by simp
      qed
    qed
  qed
qed

lemma join_words_ends:
  assumes "list_all is_word ws" and "ws \<noteq> []"
  shows "join_words ws \<noteq> [] \<and> alnum (hd (join_words ws)) \<and> alnum (last (join_words ws))"
  using assms
proof (induction ws rule: join_words.induct)
  case 1
  then show ?case by simp
next
  case (2 w)
  then show ?case by (auto simp: is_word_def list_all_iff)
next
  case (3 w v ws)
  then show ?case by (auto simp: is_word_def list_all_iff hd_append)
qed

lemma dropWhile_underscore: "s = [] \<or> alnum (hd s) \<Longrightarrow> dropWhile (\<lambda>c. c = CHR ''_'') s = s"
  by (cases s) auto

lemma strip_words:
  assumes "list_all is_word ws" and "p \<in> {[], ''_''}" and "t \<in> {[], ''_''}"
  shows "strip_underscore (p @ join_words ws @ t) = join_words ws"
proof (cases "ws = []")
  case True
  with assms(2,3) show ?thesis by (auto simp: strip_underscore_def)
next
  case False
  note e = join_words_ends [OF assms(1) False]
  have 1: "dropWhile (\<lambda>c. c = CHR ''_'') (p @ join_words ws @ t) = join_words ws @ t"
    using assms(2) e by (auto simp: dropWhile_underscore)
  have "dropWhile (\<lambda>c. c = CHR ''_'') (rev (join_words ws)) = rev (join_words ws)"
    using e by (intro dropWhile_underscore) (simp add: hd_rev)
  then have "dropWhile (\<lambda>c. c = CHR ''_'') (rev (join_words ws @ t)) = rev (join_words ws)"
    using assms(3) by auto
  with 1 show ?thesis by (simp add: strip_underscore_def)
qed

lemma compute_dossier_slug_words:
  "compute_dossier_slug exchange ticker = join_words (slug_words (slug_raw exchange ticker))"
proof -
  let ?s = "slug_raw exchange ticker"
  let ?s' = "dropWhile (\<lambda>d. \<not> alnum d) ?s"
  have body: "collapse ?s' = join_words (slug_words ?s) @ trail ?s'"
    using hd_dropWhile [of "\<lambda>d. \<not> alnum d" ?s] collapse_words [of ?s'] by (auto simp: slug_words_skip)
  have "\<exists>p \<in> {[], ''_''}. collapse ?s = p @ collapse ?s'"
  proof (cases "?s \<noteq> [] \<and> \<not> alnum (hd ?s)")
    case True
    then show ?thesis by (auto simp: collapse_skip)
  next
    case False
    then have "?s' = ?s" by (cases ?s) auto
    then show ?thesis by simp
  qed
  then obtain p where "p \<in> {[], ''_''}" and "collapse ?s = p @ join_words (slug_words ?s) @ trail ?s'"
    using body by auto
  moreover have "trail ?s' \<in> {[], ''_''}" by (simp add: trail_def)
  ultimately show ?thesis
    unfolding compute_dossier_slug_def using strip_words [OF slug_words_are_words] by metis
qed

lemma words_join: "list_all is_word ws \<Longrightarrow> slug_words (join_words ws) = ws"
proof (induction ws rule: join_words.induct)
  case 1
  then show ?case by simp
next
  case (2 w)
  then show ?case using slug_words_word [of w "[]"] by simp
next
  case (3 w v ws)
  then show ?case by (simp add: slug_words_word)
qed

section \<open>Properties\<close>

text \<open>
  The slug is the words of the name joined by single underscores, and the words can be read
  off from it, so two (exchange, ticker) pairs collide exactly when they have the same words.
\<close>

theorem slug_collision_iff:
  "compute_dossier_slug e t = join_words (slug_words (slug_raw e t)) \<and>
   slug_words (compute_dossier_slug e t) = slug_words (slug_raw e t) \<and>
   (compute_dossier_slug e t = compute_dossier_slug e' t' \<longleftrightarrow>
      slug_words (slug_raw e t) = slug_words (slug_raw e' t'))"
proof -
  have bwd: "slug_words (compute_dossier_slug x y) = slug_words (slug_raw x y)" for x y
    by (simp add: compute_dossier_slug_words words_join slug_words_are_words)
  then show ?thesis by (metis compute_dossier_slug_words)
qed

text \<open>
  Distinct listings can therefore share a slug: the pair (US_A, B) and the pair (US, A.B) are
  different coverages with one dossier path.
\<close>

theorem slug_not_injective:
  "compute_dossier_slug ''US_A'' ''B'' = ''us_a_b'' \<and> compute_dossier_slug ''US'' ''A.B'' = ''us_a_b''"
  by code_simp

end
