(* ===== verification/Contributors.thy ===== *)
theory Contributors
  imports Domain_Types "HOL-Library.List_Lexorder" "HOL-Library.Char_ord" "HOL-Library.Product_Lexorder"
    "HOL-Library.Multiset"
begin

text \<open>
  Which houses work on a ticker beside its lead: \<open>core/domain/contributors.py\<close> (the default
  set) and \<open>core/orchestrator/rotation.py\<close> (their order and the choice of verifiers).
  \<open>sorted\<close> on Python strings is \<open>sort\<close> on strings ordered lexicographically by code point.
\<close>

section \<open>The default contributor set\<close>

record house_info =
  hi_key :: string
  hi_enabled :: bool
  hi_assignable :: bool
  hi_meta :: bool

definition resolve_default_contributors :: "string option \<Rightarrow> house_info list \<Rightarrow> string list" where
  "resolve_default_contributors lead_house houses =
     sort (map hi_key (filter (\<lambda>h. hi_enabled h \<and> hi_assignable h \<and> \<not> hi_meta h \<and>
                                    Some (hi_key h) \<noteq> lead_house) houses))"

lemma set_resolve_default:
  "set (resolve_default_contributors lead houses) =
     {hi_key h | h. h \<in> set houses \<and> hi_enabled h \<and> hi_assignable h \<and> \<not> hi_meta h \<and>
        Some (hi_key h) \<noteq> lead}"
  by (auto simp: resolve_default_contributors_def)

lemma sorted_resolve_default: "sorted (resolve_default_contributors lead houses)"
  by (simp add: resolve_default_contributors_def)

lemma distinct_resolve_default:
  "distinct (map hi_key houses) \<Longrightarrow> distinct (resolve_default_contributors lead houses)"
  by (simp add: resolve_default_contributors_def distinct_map_filter)

section \<open>Rotation\<close>

text \<open>\<open>datetime.min\<close> in seconds relative to the epoch.\<close>

definition EPOCH :: time where
  "EPOCH = -62135596800"

definition order_contributors :: "string list \<Rightarrow> (string \<Rightarrow> time option) \<Rightarrow> string list" where
  "order_contributors contributors last_used_at =
     sort_key (\<lambda>k. (case last_used_at k of None \<Rightarrow> EPOCH | Some t \<Rightarrow> t, k)) contributors"

definition pick_verifiers :: "string list \<Rightarrow> int \<Rightarrow> string list" where
  "pick_verifiers ordered n = take (nat (max n 0)) ordered"

lemma mset_order_contributors [simp]: "mset (order_contributors cs lu) = mset cs"
  by (simp add: order_contributors_def)

lemma set_order_contributors [simp]: "set (order_contributors cs lu) = set cs"
  by (simp add: order_contributors_def)

lemma length_order_contributors [simp]: "length (order_contributors cs lu) = length cs"
  by (simp add: order_contributors_def)

lemma distinct_order_contributors [simp]: "distinct (order_contributors cs lu) = distinct cs"
  by (simp add: order_contributors_def)

lemma set_pick_verifiers: "set (pick_verifiers cs n) \<subseteq> set cs"
  by (auto simp: pick_verifiers_def dest: in_set_takeD)

lemma nat_max_zero [simp]: "nat (max n 0) = nat n"
  by (simp add: max_def)

lemma order_without_history: "order_contributors cs (\<lambda>_. None) = sort cs"
proof -
  have "sorted (order_contributors cs (\<lambda>_. None))"
  proof -
    have "sorted (map (\<lambda>k. (EPOCH, k)) (order_contributors cs (\<lambda>_. None)))"
      unfolding order_contributors_def option.case by (rule sorted_sort_key)
    then show ?thesis by (simp add: sorted_map)
  qed
  moreover have "mset (order_contributors cs (\<lambda>_. None)) = mset cs" by simp
  ultimately show ?thesis by (metis properties_for_sort)
qed

text \<open>
  The default contributors are, sorted and without repetition, exactly the enabled,
  assignable, non-meta houses other than the lead.
\<close>

theorem default_contributors_exact:
  assumes "distinct (map hi_key houses)"
  shows "sorted (resolve_default_contributors lead houses) \<and>
         distinct (resolve_default_contributors lead houses) \<and>
         (\<forall>k. k \<in> set (resolve_default_contributors lead houses) \<longleftrightarrow>
            (\<exists>h \<in> set houses. hi_key h = k \<and> hi_enabled h \<and> hi_assignable h \<and> \<not> hi_meta h) \<and>
            lead \<noteq> Some k)"
  using assms by (auto simp: sorted_resolve_default distinct_resolve_default set_resolve_default)

definition sample_houses :: "house_info list" where
  "sample_houses = [
     \<lparr>hi_key = ''qwen'', hi_enabled = True, hi_assignable = True, hi_meta = False\<rparr>,
     \<lparr>hi_key = ''claude'', hi_enabled = True, hi_assignable = False, hi_meta = True\<rparr>,
     \<lparr>hi_key = ''gpt'', hi_enabled = True, hi_assignable = True, hi_meta = False\<rparr>,
     \<lparr>hi_key = ''glm'', hi_enabled = False, hi_assignable = True, hi_meta = False\<rparr>]"

theorem default_contributors_exact_witness:
  "''gpt'' \<in> set (resolve_default_contributors (Some ''qwen'') sample_houses) \<and>
   ''claude'' \<notin> set (resolve_default_contributors (Some ''qwen'') sample_houses)"
proof -
  have "distinct (map hi_key sample_houses)" by (simp add: sample_houses_def)
  from default_contributors_exact [OF this, of "Some ''qwen''"] show ?thesis
    by (simp add: sample_houses_def)
qed

text \<open>
  The orchestrator passes no usage history to the rotation, so the verifiers of a plan are
  always the alphabetically first contributors: the rotation is a prefix of the sorted list.
\<close>

theorem rotation_without_history:
  "pick_verifiers (order_contributors cs (\<lambda>_. None)) n = take (nat n) (sort cs)"
  by (simp add: order_without_history pick_verifiers_def nat_max_zero)

end
