(* ===== verification/Planner.thy ===== *)
theory Planner
  imports Contributors
begin

text \<open>
  \<open>core/orchestrator/planner.py\<close>: the stage graph of each run type, and
  \<open>core/orchestrator/gates.py\<close>: the gate a run type ends at.  A stage's house may be absent
  (Python's \<open>None\<close>); the repository refuses such a stage when it inserts it.  The keyword
  arguments are the record \<open>plan_args\<close>, whose defaults are \<open>default_plan_args\<close>.
\<close>

record stage_in =
  si_seq :: int
  si_role :: string
  si_house :: "string option"
  si_substrate :: string
  si_max_attempts :: int
  si_depends_on_seq :: "int option"

record plan_args =
  pa_lead :: "string option"
  pa_contributors :: "string list"
  pa_verify_count :: int
  pa_include_data_checker :: bool
  pa_monitor_house :: "string option"
  pa_meta_house :: "string option"
  pa_meta_houses :: "string list"
  pa_max_attempts :: int

definition default_plan_args :: "int \<Rightarrow> plan_args" where
  "default_plan_args max_attempts = \<lparr>pa_lead = None, pa_contributors = [], pa_verify_count = 2,
     pa_include_data_checker = False, pa_monitor_house = None, pa_meta_house = None,
     pa_meta_houses = [], pa_max_attempts = max_attempts\<rparr>"

definition chk :: "string list \<Rightarrow> string option \<Rightarrow> error + unit" where
  "chk meta_houses house = (case house of
     None \<Rightarrow> Inr ()
   | Some h \<Rightarrow> if h \<in> set meta_houses
              then Inl (PlanError (''a meta house ('' @ h @ '') cannot fill an analyst role''))
              else Inr ())"

definition mk_stage ::
  "int \<Rightarrow> int \<Rightarrow> string \<Rightarrow> string option \<Rightarrow> string \<Rightarrow> int option \<Rightarrow> stage_in" where
  "mk_stage max_attempts s role house substrate depends =
     \<lparr>si_seq = s, si_role = role, si_house = house, si_substrate = substrate,
      si_max_attempts = max_attempts, si_depends_on_seq = depends\<rparr>"

fun verifier_stages :: "plan_args \<Rightarrow> int \<Rightarrow> string list \<Rightarrow> error + stage_in list" where
  "verifier_stages a s [] = Inr []"
| "verifier_stages a s (c # cs) =
     andthen (chk (pa_meta_houses a) (Some c)) (\<lambda>_.
     andthen (verifier_stages a (s + 1) cs) (\<lambda>rest.
     Inr (mk_stage (pa_max_attempts a) s ''verifier'' (Some c) ''harness'' (Some (s - 1)) # rest)))"

fun lead_review_stages :: "plan_args \<Rightarrow> int \<Rightarrow> string list \<Rightarrow> error + stage_in list" where
  "lead_review_stages a s [] = Inr []"
| "lead_review_stages a s (c # cs) =
     andthen (chk (pa_meta_houses a) (Some c)) (\<lambda>_.
     andthen (lead_review_stages a (s + 1) cs) (\<lambda>rest.
     Inr (mk_stage (pa_max_attempts a) s ''lead_review'' (Some c) ''api'' None # rest)))"

definition or_house :: "string option \<Rightarrow> string option \<Rightarrow> string option" where
  "or_house a b = (case a of None \<Rightarrow> b | Some h \<Rightarrow> if h = [] then b else Some h)"

definition plan_initiation :: "plan_args \<Rightarrow> error + stage_in list" where
  "plan_initiation a =
     andthen (chk (pa_meta_houses a) (pa_lead a)) (\<lambda>_.
     let verifiers = pick_verifiers (order_contributors (pa_contributors a) (\<lambda>_. None)) (pa_verify_count a);
         author = mk_stage (pa_max_attempts a) 1 ''author'' (pa_lead a) ''harness'' None
     in andthen (verifier_stages a 2 verifiers) (\<lambda>vs.
        let s = 2 + int (length verifiers);
            dc = (case pa_contributors a of [] \<Rightarrow> pa_lead a | c # _ \<Rightarrow> Some c);
            checker = (if pa_include_data_checker a
                       then [mk_stage (pa_max_attempts a) s ''data_checker'' dc ''harness'' (Some (s - 1))]
                       else []);
            s' = s + int (length checker)
        in Inr ([author] @ vs @ checker @
                [mk_stage (pa_max_attempts a) s' ''finalizer'' (pa_lead a) ''harness'' (Some (s' - 1))])))"

definition plan_deep_review :: "plan_args \<Rightarrow> error + stage_in list" where
  "plan_deep_review a =
     andthen (chk (pa_meta_houses a) (pa_lead a)) (\<lambda>_.
     let author = mk_stage (pa_max_attempts a) 1 ''author'' (pa_lead a) ''harness'' None
     in case pick_verifiers (order_contributors (pa_contributors a) (\<lambda>_. None)) 1 of
          [] \<Rightarrow> Inr [author]
        | v # _ \<Rightarrow>
            andthen (chk (pa_meta_houses a) (Some v)) (\<lambda>_.
            Inr [author, mk_stage (pa_max_attempts a) 2 ''verifier'' (Some v) ''harness'' (Some 1)]))"

definition plan_stages :: "string \<Rightarrow> plan_args \<Rightarrow> error + stage_in list" where
  "plan_stages run_type a =
     (if run_type = ''initiation'' then plan_initiation a
      else if run_type = ''deep_review'' then plan_deep_review a
      else if run_type = ''event_analysis'' then
        andthen (chk (pa_meta_houses a) (pa_lead a)) (\<lambda>_.
        Inr [mk_stage (pa_max_attempts a) 1 ''author'' (pa_lead a) ''harness'' None])
      else if run_type = ''monitor_tick'' then
        Inr [mk_stage (pa_max_attempts a) 1 ''monitor'' (or_house (pa_monitor_house a) (pa_lead a)) ''api'' None]
      else if run_type = ''pm_query'' then
        andthen (chk (pa_meta_houses a) (pa_lead a)) (\<lambda>_.
        Inr [mk_stage (pa_max_attempts a) 1 ''pm_query'' (pa_lead a) ''api'' None])
      else if run_type = ''lead_review'' then lead_review_stages a 1 (pa_contributors a)
      else if run_type = ''distillation'' then
        Inr [mk_stage (pa_max_attempts a) 1 ''distiller'' (pa_meta_house a) ''harness'' None]
      else Inl (PlanError (''unknown run type '' @ run_type)))"

definition terminal_gate :: "string \<Rightarrow> (string \<times> string list) option" where
  "terminal_gate run_type = map_of [
     (''initiation'', (''initiation_decision'', [''active'', ''watch'', ''reject''])),
     (''lead_review'', (''lead_change'', [''approve'', ''keep''])),
     (''distillation'', (''doctrine_amendment'', [''merge'', ''reject'']))] run_type"

section \<open>Lemmas\<close>

lemma mk_stage_simps [simp]:
  "si_seq (mk_stage m s r h b d) = s" "si_role (mk_stage m s r h b d) = r"
  "si_house (mk_stage m s r h b d) = h" "si_substrate (mk_stage m s r h b d) = b"
  "si_max_attempts (mk_stage m s r h b d) = m" "si_depends_on_seq (mk_stage m s r h b d) = d"
  by (simp_all add: mk_stage_def)

lemma chk_Inr_iff: "chk ms h = Inr u \<longleftrightarrow> (\<forall>x. h = Some x \<longrightarrow> x \<notin> set ms)"
  by (auto simp: chk_def split: option.splits)

text \<open>A chain of stages from \<open>s\<close>: consecutive numbers, each waiting for the one before it.\<close>

fun stage_chain :: "int \<Rightarrow> int option \<Rightarrow> stage_in list \<Rightarrow> bool" where
  "stage_chain s d [] = True"
| "stage_chain s d (x # xs) \<longleftrightarrow>
     si_seq x = s \<and> si_depends_on_seq x = d \<and> stage_chain (s + 1) (Some s) xs"

lemma map_int_upt_shift:
  "s # map (\<lambda>k. s + 1 + int k) [0..<n] = map (\<lambda>k. s + int k) [0..<Suc n]"
  by (subst upt_conv_Cons) (simp_all add: map_Suc_upt [symmetric] o_def algebra_simps del: upt_Suc)

lemma stage_chain_seqs:
  "stage_chain s d st \<Longrightarrow> map si_seq st = map (\<lambda>k. s + int k) [0..<length st]"
proof (induction st arbitrary: s d)
  case Nil
  then show ?case by simp
next
  case (Cons x xs)
  then have "stage_chain (s + 1) (Some s) xs" by simp
  then have "map si_seq xs = map (\<lambda>k. s + 1 + int k) [0..<length xs]" by (rule Cons.IH)
  with Cons.prems show ?case by (simp add: map_int_upt_shift [symmetric] del: upt_Suc)
qed

lemma stage_chain_append:
  "xs \<noteq> [] \<Longrightarrow> stage_chain s d (xs @ ys) \<longleftrightarrow>
     stage_chain s d xs \<and> stage_chain (s + int (length xs)) (Some (s + int (length xs) - 1)) ys"
proof (induction xs arbitrary: s d)
  case Nil
  then show ?case by simp
next
  case (Cons x xs)
  show ?case
  proof (cases "xs = []")
    case True
    then show ?thesis by simp
  next
    case False
    with Cons.IH [of "s + 1" "Some s"] show ?thesis by (simp add: algebra_simps)
  qed
qed

lemma verifier_stages_Inr:
  "verifier_stages a s vs = Inr st \<Longrightarrow>
     map si_house st = map Some vs \<and> stage_chain s (Some (s - 1)) st \<and>
     set vs \<inter> set (pa_meta_houses a) = {} \<and>
     (\<forall>x \<in> set st. si_role x = ''verifier'' \<and> si_max_attempts x = pa_max_attempts a)"
proof (induction vs arbitrary: s st)
  case Nil
  then show ?case by simp
next
  case (Cons c cs)
  from Cons.prems obtain rest where c: "c \<notin> set (pa_meta_houses a)"
    and rest: "verifier_stages a (s + 1) cs = Inr rest"
    and st: "st = mk_stage (pa_max_attempts a) s ''verifier'' (Some c) ''harness'' (Some (s - 1)) # rest"
    by (auto simp: andthen_Inr_iff chk_Inr_iff)
  from Cons.IH [OF rest] c st show ?case by simp
qed

lemma verifier_stages_team:
  "verifier_stages a s vs = Inr st \<Longrightarrow>
     map (\<lambda>x. (si_role x, si_house x, si_substrate x)) st = map (\<lambda>c. (''verifier'', Some c, ''harness'')) vs"
  by (induction vs arbitrary: s st) (auto simp: andthen_Inr_iff)

lemma lead_review_stages_Inr:
  "lead_review_stages a s cs = Inr st \<Longrightarrow>
     map si_house st = map Some cs \<and> map si_seq st = map (\<lambda>k. s + int k) [0..<length st] \<and>
     set cs \<inter> set (pa_meta_houses a) = {} \<and>
     (\<forall>x \<in> set st. si_role x = ''lead_review'' \<and> si_depends_on_seq x = None \<and>
        si_max_attempts x = pa_max_attempts a)"
proof (induction cs arbitrary: s st)
  case Nil
  then show ?case by simp
next
  case (Cons c cs)
  from Cons.prems obtain rest where c: "c \<notin> set (pa_meta_houses a)"
    and rest: "lead_review_stages a (s + 1) cs = Inr rest"
    and st: "st = mk_stage (pa_max_attempts a) s ''lead_review'' (Some c) ''api'' None # rest"
    by (auto simp: andthen_Inr_iff chk_Inr_iff)
  from Cons.IH [OF rest] c st show ?case
    by (simp add: map_int_upt_shift [symmetric] del: upt_Suc)
qed

lemma plan_initiationE:
  assumes "plan_initiation a = Inr st"
  obtains vs checker fin where
    "st = mk_stage (pa_max_attempts a) 1 ''author'' (pa_lead a) ''harness'' None # vs @ checker @ [fin]"
    and "verifier_stages a 2 (take (nat (pa_verify_count a)) (sort (pa_contributors a))) = Inr vs"
    and "\<forall>x. pa_lead a = Some x \<longrightarrow> x \<notin> set (pa_meta_houses a)"
    and "checker = (if pa_include_data_checker a
           then [mk_stage (pa_max_attempts a) (2 + int (length vs)) ''data_checker''
                  (case pa_contributors a of [] \<Rightarrow> pa_lead a | c # _ \<Rightarrow> Some c) ''harness''
                  (Some (1 + int (length vs)))] else [])"
    and "fin = mk_stage (pa_max_attempts a) (2 + int (length vs) + int (length checker)) ''finalizer''
           (pa_lead a) ''harness'' (Some (1 + int (length vs) + int (length checker)))"
proof -
  let ?V = "take (nat (pa_verify_count a)) (sort (pa_contributors a))"
  from assms obtain vs where lead: "\<forall>x. pa_lead a = Some x \<longrightarrow> x \<notin> set (pa_meta_houses a)"
    and vs: "verifier_stages a 2 ?V = Inr vs"
    and st: "st = (let s = 2 + int (length ?V);
            dc = (case pa_contributors a of [] \<Rightarrow> pa_lead a | c # _ \<Rightarrow> Some c);
            checker = (if pa_include_data_checker a
                       then [mk_stage (pa_max_attempts a) s ''data_checker'' dc ''harness'' (Some (s - 1))]
                       else []);
            s' = s + int (length checker)
        in [mk_stage (pa_max_attempts a) 1 ''author'' (pa_lead a) ''harness'' None] @ vs @ checker @
                [mk_stage (pa_max_attempts a) s' ''finalizer'' (pa_lead a) ''harness'' (Some (s' - 1))])"
    unfolding plan_initiation_def order_without_history pick_verifiers_def nat_max_zero Let_def
      andthen_Inr_iff chk_Inr_iff
    by blast
  from verifier_stages_Inr [OF vs] have len: "length ?V = length vs"
    by (metis length_map)
  show thesis
    by (rule that [OF _ vs lead refl refl]) (simp add: st len Let_def del: length_take)
qed

lemma plan_deep_reviewE:
  assumes "plan_deep_review a = Inr st"
  obtains v where "sort (pa_contributors a) = v # tl (sort (pa_contributors a))"
      "v \<notin> set (pa_meta_houses a)" "\<forall>x. pa_lead a = Some x \<longrightarrow> x \<notin> set (pa_meta_houses a)"
      "st = [mk_stage (pa_max_attempts a) 1 ''author'' (pa_lead a) ''harness'' None,
             mk_stage (pa_max_attempts a) 2 ''verifier'' (Some v) ''harness'' (Some 1)]"
    | "pa_contributors a = []" "\<forall>x. pa_lead a = Some x \<longrightarrow> x \<notin> set (pa_meta_houses a)"
      "st = [mk_stage (pa_max_attempts a) 1 ''author'' (pa_lead a) ''harness'' None]"
proof -
  show thesis
  proof (cases "sort (pa_contributors a)")
    case Nil
    then have "pa_contributors a = []" by (metis length_0_conv length_sort)
    with assms show ?thesis
      by (intro that(2)) (auto simp: plan_deep_review_def andthen_Inr_iff chk_Inr_iff
          order_without_history pick_verifiers_def Let_def)
  next
    case (Cons v vs)
    with assms show ?thesis
      by (intro that(1) [of v]) (auto simp: plan_deep_review_def andthen_Inr_iff chk_Inr_iff
          order_without_history pick_verifiers_def Let_def)
  qed
qed

lemma plan_initiation_chain:
  assumes "plan_initiation a = Inr st"
  shows "stage_chain 1 None st"
  using assms
proof (rule plan_initiationE, goal_cases)
  case (1 vs checker fin)
  from verifier_stages_Inr [OF 1(2)] have "stage_chain 2 (Some 1) vs" by simp
  then show ?case
    by (cases "vs = []"; cases "pa_include_data_checker a") (simp_all add: 1 stage_chain_append)
qed

section \<open>Properties\<close>

text \<open>
  Every plan numbers its stages 1, 2, 3, ... and, but for the parallel lead review, each stage
  waits for exactly the one before it, so the stage graph is a chain with one entry point and no
  cycle, and every stage carries the configured number of attempts.
\<close>

theorem plan_is_chain:
  assumes "plan_stages rt a = Inr st"
  shows "map si_seq st = map (\<lambda>k. 1 + int k) [0..<length st] \<and>
         (\<forall>x \<in> set st. si_max_attempts x = pa_max_attempts a) \<and>
         (rt \<noteq> ''lead_review'' \<longrightarrow> st \<noteq> [] \<and> stage_chain 1 None st) \<and>
         (rt = ''lead_review'' \<longrightarrow> (\<forall>x \<in> set st. si_depends_on_seq x = None))"
proof -
  note seqs = stage_chain_seqs [of 1 None st]
  consider (init) "rt = ''initiation''" "plan_initiation a = Inr st"
    | (deep) "rt = ''deep_review''" "plan_deep_review a = Inr st"
    | (review) "rt = ''lead_review''" "lead_review_stages a 1 (pa_contributors a) = Inr st"
    | (single) r h b where "rt \<noteq> ''lead_review''" "st = [mk_stage (pa_max_attempts a) 1 r h b None]"
    using assms by (auto simp: plan_stages_def andthen_Inr_iff split: if_splits)
  then show ?thesis
  proof cases
    case init
    note c = plan_initiation_chain [OF init(2)]
    from init(2) have "st \<noteq> [] \<and> (\<forall>x \<in> set st. si_max_attempts x = pa_max_attempts a)"
      by (rule plan_initiationE) (auto dest!: verifier_stages_Inr split: if_splits)
    with c seqs init(1) show ?thesis by simp
  next
    case deep
    from deep(2) have "stage_chain 1 None st \<and> st \<noteq> [] \<and>
        (\<forall>x \<in> set st. si_max_attempts x = pa_max_attempts a)"
      by (rule plan_deep_reviewE) auto
    with seqs deep(1) show ?thesis by simp
  next
    case review
    with lead_review_stages_Inr [OF review(2)] show ?thesis by auto
  next
    case single
    then show ?thesis by simp
  qed
qed

definition sample_plan_args :: plan_args where
  "sample_plan_args = (default_plan_args 3)\<lparr>pa_lead := Some ''gpt'',
     pa_contributors := [''qwen'', ''glm'', ''gemini''], pa_meta_houses := [''claude'']\<rparr>"

lemma sample_plan:
  "plan_stages ''initiation'' sample_plan_args = Inr
     [mk_stage 3 1 ''author'' (Some ''gpt'') ''harness'' None,
      mk_stage 3 2 ''verifier'' (Some ''gemini'') ''harness'' (Some 1),
      mk_stage 3 3 ''verifier'' (Some ''glm'') ''harness'' (Some 2),
      mk_stage 3 4 ''finalizer'' (Some ''gpt'') ''harness'' (Some 3)]"
  by code_simp

theorem plan_is_chain_witness:
  "map si_seq [mk_stage 3 1 ''author'' (Some ''gpt'') ''harness'' None,
      mk_stage 3 2 ''verifier'' (Some ''gemini'') ''harness'' (Some 1),
      mk_stage 3 3 ''verifier'' (Some ''glm'') ''harness'' (Some 2),
      mk_stage 3 4 ''finalizer'' (Some ''gpt'') ''harness'' (Some 3)] = [1, 2, 3, 4]"
  using plan_is_chain [OF sample_plan] by simp

text \<open>
  An initiation is authored first and finalised last by the lead; between them are the first
  \<open>verify_count\<close> contributors in alphabetical order and, when configured, one data checker.
\<close>

theorem initiation_shape:
  assumes "plan_stages ''initiation'' a = Inr st"
  shows "map (\<lambda>x. (si_role x, si_house x)) st =
           [(''author'', pa_lead a)] @
           map (\<lambda>c. (''verifier'', Some c)) (take (nat (pa_verify_count a)) (sort (pa_contributors a))) @
           (if pa_include_data_checker a
            then [(''data_checker'', case pa_contributors a of [] \<Rightarrow> pa_lead a | c # _ \<Rightarrow> Some c)] else []) @
           [(''finalizer'', pa_lead a)]"
proof -
  from assms have "plan_initiation a = Inr st" by (simp add: plan_stages_def)
  then show ?thesis
  proof (rule plan_initiationE, goal_cases)
    case (1 vs checker fin)
    let ?V = "take (nat (pa_verify_count a)) (sort (pa_contributors a))"
    note v = verifier_stages_Inr [OF 1(2)]
    then have "\<forall>x \<in> set vs. si_role x = ''verifier''" by blast
    then have "map (\<lambda>x. (si_role x, si_house x)) vs = map (\<lambda>h. (''verifier'', h)) (map si_house vs)"
      by (simp cong: map_cong)
    also have "\<dots> = map (\<lambda>h. (''verifier'', h)) (map Some ?V)" unfolding conjunct1 [OF v] ..
    finally show ?case using 1(1,4,5) by (simp add: o_def)
  qed
qed

theorem initiation_shape_witness:
  "map (\<lambda>x. (si_role x, si_house x))
     [mk_stage 3 1 ''author'' (Some ''gpt'') ''harness'' None,
      mk_stage 3 2 ''verifier'' (Some ''gemini'') ''harness'' (Some 1),
      mk_stage 3 3 ''verifier'' (Some ''glm'') ''harness'' (Some 2),
      mk_stage 3 4 ''finalizer'' (Some ''gpt'') ''harness'' (Some 3)] =
   [(''author'', Some ''gpt'')] @ map (\<lambda>c. (''verifier'', Some c)) (take 2 (sort [''qwen'', ''glm'', ''gemini''])) @
   [(''finalizer'', Some ''gpt'')]"
  using initiation_shape [OF sample_plan] by (simp add: sample_plan_args_def default_plan_args_def)

text \<open>
  A meta house never fills an author, verifier, finalizer, query or lead-review slot of a plan
  that is built.
\<close>

definition analyst_roles :: "string list" where
  "analyst_roles = [''author'', ''verifier'', ''finalizer'', ''pm_query'', ''lead_review'']"

theorem meta_never_analyst:
  assumes "plan_stages rt a = Inr st" and "x \<in> set st" and "si_role x \<in> set analyst_roles"
    and "si_house x = Some h"
  shows "h \<notin> set (pa_meta_houses a)"
proof -
  consider (init) "plan_initiation a = Inr st" | (deep) "plan_deep_review a = Inr st"
    | (review) "lead_review_stages a 1 (pa_contributors a) = Inr st"
    | (lead) r b where "\<forall>x. pa_lead a = Some x \<longrightarrow> x \<notin> set (pa_meta_houses a)"
        "st = [mk_stage (pa_max_attempts a) 1 r (pa_lead a) b None]"
    | (other) r where "r \<in> {''monitor'', ''distiller''}" "map si_role st = [r]"
    using assms(1)
    by (auto simp: plan_stages_def andthen_Inr_iff chk_Inr_iff split: if_splits)
  then show ?thesis
  proof cases
    case init
    then show ?thesis
    proof (rule plan_initiationE, goal_cases)
      case (1 vs checker fin)
      note v = verifier_stages_Inr [OF 1(2)]
      have "h \<notin> set (pa_meta_houses a)" if "x \<in> set vs"
      proof -
        from that assms(4) have "Some h \<in> set (map si_house vs)" by force
        then show ?thesis using v by auto
      qed
      with 1 assms(2-4) show ?case
        by (auto simp: analyst_roles_def split: if_splits)
    qed
  next
    case deep
    then show ?thesis by (rule plan_deep_reviewE) (use assms(2,4) in auto)
  next
    case review
    note v = lead_review_stages_Inr [OF review]
    from assms(2,4) have "Some h \<in> set (map si_house st)" by force
    then show ?thesis using v by auto
  next
    case lead
    with assms(2,4) show ?thesis by simp
  next
    case other
    then have "si_role x = r" using assms(2) by (cases st) auto
    with other(1) assms(3) show ?thesis by (auto simp: analyst_roles_def)
  qed
qed

theorem meta_never_analyst_witness: "''gemini'' \<notin> set (pa_meta_houses sample_plan_args)"
  by (rule meta_never_analyst [OF sample_plan, of "mk_stage 3 2 ''verifier'' (Some ''gemini'') ''harness'' (Some 1)"])
    (simp_all add: analyst_roles_def)

text \<open>
  The data checker is the exception: its house is not checked, so with no verifiers
  configured a meta house listed as a contributor is planned to do the data check.
\<close>

theorem data_checker_may_be_meta:
  "plan_stages ''initiation'' ((default_plan_args 3)\<lparr>pa_lead := Some ''gpt'',
     pa_contributors := [''claude''], pa_verify_count := 0, pa_include_data_checker := True,
     pa_meta_houses := [''claude'']\<rparr>) = Inr
     [mk_stage 3 1 ''author'' (Some ''gpt'') ''harness'' None,
      mk_stage 3 2 ''data_checker'' (Some ''claude'') ''harness'' (Some 1),
      mk_stage 3 3 ''finalizer'' (Some ''gpt'') ''harness'' (Some 2)]"
  by code_simp

end
