(* ===== verification/Schema.thy ===== *)
theory Schema
  imports Planner
begin

text \<open>
  The tables of \<open>core/db/models.py\<close> that the modelled operations read or write, as one
  record \<open>db\<close> of row lists in insertion order, with the CHECK and UNIQUE constraints those
  operations can violate.  Columns with an enum CHECK are typed by the enum.  Columns no modelled
  operation touches are left out.  \<open>next_id\<close> supplies primary keys (\<open>uuid4\<close>).

  \<open>sql_view\<close> is the session: between an in-memory mutation and the next flush a query sees
  the flushed tables, unless the session autoflushes.  The production factory of
  \<open>core/db/session.py\<close> is built with \<open>autoflush=False\<close>.

  The locale \<open>table\<close> is the interface every repository uses for a keyed table
  (\<open>session.get\<close> and attribute mutation); each table is an interpretation.
\<close>

section \<open>JSON columns\<close>

datatype json = JNull | JBool bool | JNum rat | JStr string | JArr "json list"
  | JObj "(string \<times> json) list"

type_synonym json_obj = "(string \<times> json) list"

text \<open>Python truthiness and \<open>dict.get\<close>.\<close>

fun truthy :: "json \<Rightarrow> bool" where
  "truthy JNull = False"
| "truthy (JBool b) = b"
| "truthy (JNum q) = (q \<noteq> 0)"
| "truthy (JStr s) = (s \<noteq> [])"
| "truthy (JArr xs) = (xs \<noteq> [])"
| "truthy (JObj kvs) = (kvs \<noteq> [])"

definition jget :: "json_obj \<Rightarrow> string \<Rightarrow> json" where
  "jget obj k = (case map_of obj k of None \<Rightarrow> JNull | Some v \<Rightarrow> v)"

text \<open>\<open>dict.setdefault\<close>.\<close>

definition jsetdefault :: "string \<Rightarrow> json \<Rightarrow> json_obj \<Rightarrow> json_obj" where
  "jsetdefault k v obj = (if map_of obj k = None then obj @ [(k, v)] else obj)"

text \<open>The text of an identifier.\<close>

fun digit_char :: "nat \<Rightarrow> char" where
  "digit_char n = char_of (48 + n)"

fun show_nat :: "nat \<Rightarrow> string" where
  "show_nat n = (if n < 10 then [digit_char n] else show_nat (n div 10) @ [digit_char (n mod 10)])"

declare show_nat.simps [simp del]

section \<open>Rows\<close>

record house_row =
  ho_key :: string
  ho_enabled :: bool
  ho_assignable :: bool
  ho_meta :: bool

record coverage_row =
  cov_id :: uuid
  cov_ticker :: string
  cov_exchange :: string
  cov_name :: string
  cov_currency :: string
  cov_isin :: "string option"
  cov_state :: coverage_state
  cov_lead_house :: "string option"
  cov_dossier_slug :: string
  cov_pm_notes :: "string option"
  cov_proposed_by :: "string option"
  cov_decided_at :: "time option"
  cov_exited_at :: "time option"

record contributor_row =
  cc_coverage :: uuid
  cc_house :: string

record level_row =
  lv_coverage :: uuid
  lv_kind :: string
  lv_value :: decimal
  lv_currency :: string
  lv_direction :: string
  lv_set_by :: string
  lv_run :: "uuid option"
  lv_active :: bool
  lv_superseded_at :: "time option"

record transition_row =
  tr_coverage :: uuid
  tr_from :: "coverage_state option"
  tr_to :: coverage_state
  tr_actor_type :: string
  tr_actor :: string
  tr_cause :: string
  tr_run :: "uuid option"
  tr_notes :: "string option"

record lead_history_row =
  lh_coverage :: uuid
  lh_from :: "string option"
  lh_to :: string
  lh_run :: "uuid option"
  lh_approved_by :: string
  lh_rationale :: "string option"

record run_row =
  run_id :: uuid
  run_coverage :: "uuid option"
  run_type :: run_type
  run_status :: run_status
  run_trigger :: string
  run_trigger_ref :: "string option"
  run_priority :: int
  run_mutates :: bool
  run_requested_by :: "string option"
  run_params :: json_obj
  run_budget_cap :: "decimal option"
  run_cost :: decimal
  run_summary :: "string option"
  run_error :: "string option"
  run_started_at :: "time option"
  run_finished_at :: "time option"
  run_created_at :: time

record stage_row =
  st_id :: uuid
  st_run :: uuid
  st_seq :: int
  st_role :: string
  st_house :: string
  st_substrate :: substrate
  st_status :: stage_status
  st_depends_on_seq :: "int option"
  st_available_at :: time
  st_claimed_by :: "string option"
  st_claimed_at :: "time option"
  st_lease_expires_at :: "time option"
  st_attempts :: int
  st_max_attempts :: int
  st_result :: "json_obj option"
  st_cost :: decimal
  st_tokens_in :: "int option"
  st_tokens_out :: "int option"
  st_transcript_ref :: "string option"
  st_error :: "string option"
  st_started_at :: "time option"
  st_finished_at :: "time option"

datatype attempt_status = AS_Running | AS_Succeeded | AS_Failed | AS_Killed | AS_Timeout

record attempt_row =
  at_stage :: uuid
  at_no :: int
  at_status :: attempt_status
  at_house :: string
  at_substrate :: substrate
  at_worker :: string
  at_model :: "string option"
  at_transcript_ref :: "string option"
  at_result :: "json_obj option"
  at_cost :: decimal
  at_cost_source :: "string option"
  at_tokens_in :: "int option"
  at_tokens_out :: "int option"
  at_cached_tokens_in :: "int option"
  at_exit_code :: "int option"
  at_kill_reason :: "string option"
  at_finished_at :: "time option"

record lock_row =
  lk_coverage :: uuid
  lk_run :: uuid
  lk_acquired_at :: time

datatype gate_state = GS_Open | GS_Answered | GS_Cancelled

record gate_row =
  gt_id :: uuid
  gt_run :: "uuid"
  gt_coverage :: "uuid option"
  gt_kind :: string
  gt_state :: gate_state
  gt_prompt :: string
  gt_payload :: json_obj
  gt_allowed :: "string list"
  gt_answer :: "string option"
  gt_answer_notes :: "string option"
  gt_answered_by :: "string option"
  gt_answered_at :: "time option"
  gt_idempotency_key :: "string option"

record prediction_row =
  pr_id :: uuid
  pr_coverage :: uuid
  pr_run :: uuid
  pr_stage :: uuid
  pr_house :: string
  pr_kind :: prediction_kind
  pr_value :: "decimal option"
  pr_currency :: "string option"
  pr_stance :: "string option"
  pr_scenario_label :: "string option"
  pr_scenario_prob :: "decimal option"
  pr_scenario_group :: "uuid option"
  pr_horizon :: string
  pr_confidence :: "decimal option"
  pr_rationale_ref :: "string option"
  pr_direction :: "string option"
  pr_pinned_price :: "decimal option"
  pr_key :: string
  pr_created_at :: time
  pr_status :: prediction_status
  pr_superseded_by :: "uuid option"
  pr_superseded_run :: "uuid option"
  pr_scored_at :: "time option"
  pr_realized_price :: "decimal option"
  pr_realized_return :: "decimal option"
  pr_error_pct :: "decimal option"
  pr_outcome_notes :: "string option"

record event_row =
  ev_id :: uuid
  ev_coverage :: "uuid option"
  ev_kind :: string
  ev_severity :: string
  ev_title :: string
  ev_detail :: "string option"
  ev_payload :: json_obj
  ev_action :: "string option"
  ev_detected_by :: "uuid option"
  ev_news_article :: "uuid option"
  ev_handled_by :: "uuid option"
  ev_dedupe_key :: string
  ev_occurred_at :: time
  ev_pm_rating :: "int option"
  ev_pm_rated_at :: "time option"
  ev_pm_rated_by :: "string option"

record outbox_row =
  ob_id :: uuid
  ob_kind :: string
  ob_coverage :: "uuid option"
  ob_run :: "uuid option"
  ob_payload :: json_obj
  ob_dedupe_key :: string
  ob_available_at :: time
  ob_claimed_by :: "string option"
  ob_lease_expires_at :: "time option"
  ob_attempts :: int
  ob_delivered_at :: "time option"
  ob_last_error :: "string option"

record audit_row =
  au_action :: string
  au_actor_type :: string
  au_actor :: string
  au_target :: "string option"
  au_before :: json
  au_after :: json
  au_request_id :: "string option"

record idem_row =
  ik_key :: string
  ik_route :: string
  ik_actor :: string
  ik_body :: json
  ik_body_hash :: string
  ik_status_code :: nat
  ik_expires_at :: time

record joblog_row =
  jl_job :: string
  jl_status :: string
  jl_detail :: "string option"
  jl_runs_created :: nat
  jl_scheduled_for :: "time option"
  jl_created_at :: time

record news_row =
  nw_id :: uuid
  nw_created_at :: time

record usage_row =
  us_run :: "uuid option"
  us_house :: "string option"
  us_cost :: "decimal option"

record position_row =
  po_ticker :: string
  po_net_quantity :: decimal
  po_book :: string

record dossier_row =
  di_coverage :: uuid
  di_slug :: string
  di_main_commit :: "string option"
  di_updated_by_run :: "uuid option"
  di_stance :: "string option"
  di_conviction :: "string option"
  di_as_of :: "string option"
  di_target_price :: "decimal option"
  di_tripwire_count :: int
  di_files :: "json_obj option"

record commit_row =
  dc_coverage :: uuid
  dc_run :: "uuid option"
  dc_stage :: "uuid option"
  dc_sha :: string
  dc_branch :: string
  dc_parent_sha :: "string option"
  dc_message :: string
  dc_files_changed :: "json_obj option"
  dc_merged_to_main :: bool

record db =
  t_houses :: "house_row list"
  t_coverage :: "coverage_row list"
  t_contributors :: "contributor_row list"
  t_levels :: "level_row list"
  t_transitions :: "transition_row list"
  t_lead_history :: "lead_history_row list"
  t_runs :: "run_row list"
  t_stages :: "stage_row list"
  t_attempts :: "attempt_row list"
  t_locks :: "lock_row list"
  t_gates :: "gate_row list"
  t_predictions :: "prediction_row list"
  t_events :: "event_row list"
  t_outbox :: "outbox_row list"
  t_audit :: "audit_row list"
  t_idem :: "idem_row list"
  t_joblog :: "joblog_row list"
  t_positions :: "position_row list"
  t_dossiers :: "dossier_row list"
  t_commits :: "commit_row list"
  t_news :: "news_row list"
  t_usage :: "usage_row list"
  next_id :: uuid

definition empty_db :: db where
  "empty_db = \<lparr>t_houses = [], t_coverage = [], t_contributors = [], t_levels = [],
     t_transitions = [], t_lead_history = [], t_runs = [], t_stages = [], t_attempts = [],
     t_locks = [], t_gates = [], t_predictions = [], t_events = [], t_outbox = [], t_audit = [],
     t_idem = [], t_joblog = [], t_positions = [], t_dossiers = [], t_commits = [],
     t_news = [], t_usage = [], next_id = 0\<rparr>"

section \<open>Sessions\<close>

definition sql_view :: "bool \<Rightarrow> 'a \<Rightarrow> 'a \<Rightarrow> 'a" where
  "sql_view autoflush flushed in_memory = (if autoflush then in_memory else flushed)"

definition new_id :: "db \<Rightarrow> db" where
  "new_id d = d\<lparr>next_id := Suc (next_id d)\<rparr>"

section \<open>Keyed tables\<close>

definition get_coverage :: "uuid \<Rightarrow> db \<Rightarrow> coverage_row option" where
  "get_coverage i d = get_row cov_id i (t_coverage d)"

definition upd_coverage :: "uuid \<Rightarrow> (coverage_row \<Rightarrow> coverage_row) \<Rightarrow> db \<Rightarrow> db" where
  "upd_coverage i f d = d\<lparr>t_coverage := upd_row cov_id i f (t_coverage d)\<rparr>"

definition get_run :: "uuid \<Rightarrow> db \<Rightarrow> run_row option" where
  "get_run i d = get_row run_id i (t_runs d)"

definition upd_run :: "uuid \<Rightarrow> (run_row \<Rightarrow> run_row) \<Rightarrow> db \<Rightarrow> db" where
  "upd_run i f d = d\<lparr>t_runs := upd_row run_id i f (t_runs d)\<rparr>"

definition get_stage :: "uuid \<Rightarrow> db \<Rightarrow> stage_row option" where
  "get_stage i d = get_row st_id i (t_stages d)"

definition upd_stage :: "uuid \<Rightarrow> (stage_row \<Rightarrow> stage_row) \<Rightarrow> db \<Rightarrow> db" where
  "upd_stage i f d = d\<lparr>t_stages := upd_row st_id i f (t_stages d)\<rparr>"

definition get_gate :: "uuid \<Rightarrow> db \<Rightarrow> gate_row option" where
  "get_gate i d = get_row gt_id i (t_gates d)"

definition upd_gate :: "uuid \<Rightarrow> (gate_row \<Rightarrow> gate_row) \<Rightarrow> db \<Rightarrow> db" where
  "upd_gate i f d = d\<lparr>t_gates := upd_row gt_id i f (t_gates d)\<rparr>"

definition get_prediction :: "uuid \<Rightarrow> db \<Rightarrow> prediction_row option" where
  "get_prediction i d = get_row pr_id i (t_predictions d)"

definition upd_prediction :: "uuid \<Rightarrow> (prediction_row \<Rightarrow> prediction_row) \<Rightarrow> db \<Rightarrow> db" where
  "upd_prediction i f d = d\<lparr>t_predictions := upd_row pr_id i f (t_predictions d)\<rparr>"

definition get_event :: "uuid \<Rightarrow> db \<Rightarrow> event_row option" where
  "get_event i d = get_row ev_id i (t_events d)"

definition upd_event :: "uuid \<Rightarrow> (event_row \<Rightarrow> event_row) \<Rightarrow> db \<Rightarrow> db" where
  "upd_event i f d = d\<lparr>t_events := upd_row ev_id i f (t_events d)\<rparr>"

definition get_outbox :: "uuid \<Rightarrow> db \<Rightarrow> outbox_row option" where
  "get_outbox i d = get_row ob_id i (t_outbox d)"

definition upd_outbox :: "uuid \<Rightarrow> (outbox_row \<Rightarrow> outbox_row) \<Rightarrow> db \<Rightarrow> db" where
  "upd_outbox i f d = d\<lparr>t_outbox := upd_row ob_id i f (t_outbox d)\<rparr>"

locale table =
  fixes key :: "'r \<Rightarrow> uuid"
    and rows :: "'d \<Rightarrow> 'r list"
    and fetch :: "uuid \<Rightarrow> 'd \<Rightarrow> 'r option"
    and mutate :: "uuid \<Rightarrow> ('r \<Rightarrow> 'r) \<Rightarrow> 'd \<Rightarrow> 'd"
  assumes fetch_rows: "fetch i d = get_row key i (rows d)"
    and rows_mutate: "rows (mutate i f d) = upd_row key i f (rows d)"
begin

lemma fetch_mutate_same:
  "(\<And>r. key (f r) = key r) \<Longrightarrow> fetch i (mutate i f d) = map_option f (fetch i d)"
  by (simp add: fetch_rows rows_mutate get_row_upd_same)

lemma fetch_mutate_other:
  "(\<And>r. key (f r) = key r) \<Longrightarrow> i \<noteq> j \<Longrightarrow> fetch j (mutate i f d) = fetch j d"
  by (simp add: fetch_rows rows_mutate get_row_upd_other)

lemma fetch_mutate:
  "(\<And>r. key (f r) = key r) \<Longrightarrow>
     fetch j (mutate i f d) = (if i = j then map_option f (fetch j d) else fetch j d)"
  by (simp add: fetch_mutate_same fetch_mutate_other)

lemma keys_mutate: "(\<And>r. key (f r) = key r) \<Longrightarrow> map key (rows (mutate i f d)) = map key (rows d)"
  by (simp add: rows_mutate)

lemma fetch_SomeD: "fetch i d = Some r \<Longrightarrow> r \<in> set (rows d) \<and> key r = i"
  by (simp add: fetch_rows get_row_SomeD)

lemma fetch_member: "distinct (map key (rows d)) \<Longrightarrow> r \<in> set (rows d) \<Longrightarrow> fetch (key r) d = Some r"
  by (simp add: fetch_rows get_row_distinct)

end

interpretation coverage_tab: table cov_id t_coverage get_coverage upd_coverage
  by unfold_locales (simp_all add: get_coverage_def upd_coverage_def)

interpretation run_tab: table run_id t_runs get_run upd_run
  by unfold_locales (simp_all add: get_run_def upd_run_def)

interpretation stage_tab: table st_id t_stages get_stage upd_stage
  by unfold_locales (simp_all add: get_stage_def upd_stage_def)

interpretation gate_tab: table gt_id t_gates get_gate upd_gate
  by unfold_locales (simp_all add: get_gate_def upd_gate_def)

interpretation prediction_tab: table pr_id t_predictions get_prediction upd_prediction
  by unfold_locales (simp_all add: get_prediction_def upd_prediction_def)

interpretation event_tab: table ev_id t_events get_event upd_event
  by unfold_locales (simp_all add: get_event_def upd_event_def)

interpretation outbox_tab: table ob_id t_outbox get_outbox upd_outbox
  by unfold_locales (simp_all add: get_outbox_def upd_outbox_def)

lemmas fetch_simps =
  coverage_tab.fetch_mutate run_tab.fetch_mutate stage_tab.fetch_mutate gate_tab.fetch_mutate
  prediction_tab.fetch_mutate event_tab.fetch_mutate outbox_tab.fetch_mutate

section \<open>Constraints\<close>

definition ck_coverage_lead_required_when_live :: "coverage_row \<Rightarrow> bool" where
  "ck_coverage_lead_required_when_live c \<longleftrightarrow>
     ((cov_state c \<in> {CS_Active, CS_Watch, CS_Decision_Pending}) = (cov_lead_house c \<noteq> None)) \<or>
     cov_state c \<notin> {CS_Active, CS_Watch, CS_Decision_Pending}"

definition ck_runs_coverage_required :: "run_row \<Rightarrow> bool" where
  "ck_runs_coverage_required r \<longleftrightarrow> run_coverage r \<noteq> None \<or> run_type r = RT_Distillation"

definition unit_interval :: "decimal option \<Rightarrow> bool" where
  "unit_interval q = (case q of None \<Rightarrow> True | Some x \<Rightarrow> 0 \<le> x \<and> x \<le> 1)"

definition ck_predictions :: "prediction_row \<Rightarrow> bool" where
  "ck_predictions p \<longleftrightarrow>
     unit_interval (pr_confidence p) \<and> unit_interval (pr_scenario_prob p) \<and>
     (pr_kind p \<noteq> PK_Target_Price \<or> (pr_value p \<noteq> None \<and> pr_currency p \<noteq> None))"

definition ck_coverage_levels :: "level_row \<Rightarrow> bool" where
  "ck_coverage_levels l \<longleftrightarrow>
     lv_kind l \<in> {''entry'', ''target'', ''stop'', ''review''} \<and>
     lv_direction l \<in> {''below'', ''above''} \<and> 0 < lv_value l"

definition ck_houses_meta_not_assignable :: "house_row \<Rightarrow> bool" where
  "ck_houses_meta_not_assignable h \<longleftrightarrow> \<not> (ho_assignable h \<and> ho_meta h)"

text \<open>The partial unique index on (coverage, type, trigger_ref); NULLs are distinct.\<close>

definition uq_runs_trigger_ref :: "run_row list \<Rightarrow> run_row \<Rightarrow> bool" where
  "uq_runs_trigger_ref rs r \<longleftrightarrow>
     \<not> (run_trigger_ref r \<noteq> None \<and> run_coverage r \<noteq> None \<and>
        list_ex (\<lambda>r'. run_coverage r' = run_coverage r \<and> run_type r' = run_type r \<and>
                      run_trigger_ref r' = run_trigger_ref r) rs)"

definition has_house :: "string \<Rightarrow> db \<Rightarrow> bool" where
  "has_house k d \<longleftrightarrow> list_ex (\<lambda>h. ho_key h = k) (t_houses d)"

definition get_house :: "string \<Rightarrow> db \<Rightarrow> house_row option" where
  "get_house k d = find (\<lambda>h. ho_key h = k) (t_houses d)"

section \<open>Well-formed tables\<close>

text \<open>Primary keys are distinct and below the supply.\<close>

definition keys_ok :: "('r \<Rightarrow> uuid) \<Rightarrow> 'r list \<Rightarrow> uuid \<Rightarrow> bool" where
  "keys_ok key rows n \<longleftrightarrow> distinct (map key rows) \<and> fresh_in key n rows"

lemma keys_ok_append:
  "keys_ok key rows n \<Longrightarrow> key r = n \<Longrightarrow> keys_ok key (rows @ [r]) (Suc n)"
  by (auto simp: keys_ok_def fresh_in_def less_Suc_eq)

lemma keys_ok_mono: "keys_ok key rows n \<Longrightarrow> n \<le> m \<Longrightarrow> keys_ok key rows m"
  by (auto simp: keys_ok_def fresh_in_def intro: less_le_trans)

lemma keys_ok_upd:
  assumes "\<And>r. key (f r) = key r"
  shows "keys_ok key (upd_row key i f rows) n \<longleftrightarrow> keys_ok key rows n"
proof -
  have "fresh_in key n rs \<longleftrightarrow> list_all (\<lambda>k. k < n) (map key rs)" for rs
    by (auto simp: fresh_in_def list_all_iff)
  then show ?thesis using assms by (simp add: keys_ok_def del: list.pred_map)
qed

definition wf_db :: "db \<Rightarrow> bool" where
  "wf_db d \<longleftrightarrow>
     keys_ok cov_id (t_coverage d) (next_id d) \<and> keys_ok run_id (t_runs d) (next_id d) \<and>
     keys_ok st_id (t_stages d) (next_id d) \<and> keys_ok gt_id (t_gates d) (next_id d) \<and>
     keys_ok pr_id (t_predictions d) (next_id d) \<and> keys_ok ev_id (t_events d) (next_id d) \<and>
     keys_ok ob_id (t_outbox d) (next_id d)"

lemma wf_empty_db: "wf_db empty_db"
  by (simp add: wf_db_def empty_db_def keys_ok_def fresh_in_def)

end
