(* ===== verification/Lease.thy ===== *)
theory Lease
  imports Schema
begin

text \<open>
  The contract shared by the two leased work queues of the program (stages and outbox events):
  items become ready, a consumer takes one, and while its lease runs nobody else is handed it.
  \<open>take_all\<close> is a sequence of takes at given instants.  The lemmas of the locale hold for
  both queues by interpretation.
\<close>

fun take_all :: "(time \<Rightarrow> 'd \<Rightarrow> 'd \<times> uuid option) \<Rightarrow> time list \<Rightarrow> 'd \<Rightarrow> 'd \<times> uuid list" where
  "take_all tk [] d = (d, [])"
| "take_all tk (t # ts) d =
     (let (d1, r) = tk t d; (d2, is) = take_all tk ts d1
      in (d2, (case r of None \<Rightarrow> is | Some i \<Rightarrow> i # is)))"

locale lease_queue =
  fixes inv :: "'d \<Rightarrow> bool"
    and ready :: "'d \<Rightarrow> time \<Rightarrow> uuid \<Rightarrow> bool"
    and tk :: "time \<Rightarrow> 'd \<Rightarrow> 'd \<times> uuid option"
    and lease :: rat
  assumes take_inv: "inv d \<Longrightarrow> inv (fst (tk t d))"
    and take_ready: "inv d \<Longrightarrow> tk t d = (d', Some i) \<Longrightarrow> ready d t i"
    and take_holds: "inv d \<Longrightarrow> tk t d = (d', Some i) \<Longrightarrow> u \<le> t + lease \<Longrightarrow> \<not> ready d' u i"
    and take_frame: "inv d \<Longrightarrow> tk t d = (d', r) \<Longrightarrow> r \<noteq> Some j \<Longrightarrow> ready d' u j \<Longrightarrow> ready d u j"
    and take_progress: "inv d \<Longrightarrow> ready d t i \<Longrightarrow> snd (tk t d) \<noteq> None"
begin

lemma take_all_ready:
  "inv d \<Longrightarrow> take_all tk ts d = (d', is) \<Longrightarrow> i \<in> set is \<Longrightarrow> \<exists>t \<in> set ts. ready d t i"
proof (induction ts arbitrary: d d' "is")
  case Nil
  then show ?case by simp
next
  case (Cons t ts)
  obtain d1 r where tk: "tk t d = (d1, r)" by (cases "tk t d")
  obtain d2 rest where tl: "take_all tk ts d1 = (d2, rest)" by (cases "take_all tk ts d1")
  from Cons.prems(2) tk tl have is_eq: "is = (case r of None \<Rightarrow> rest | Some i \<Rightarrow> i # rest)"
    by simp
  have inv1: "inv d1" using take_inv [OF Cons.prems(1), of t] tk by simp
  show ?case
  proof (cases "i \<in> set rest")
    case True
    then obtain u where "u \<in> set ts" "ready d1 u i"
      using Cons.IH [OF inv1 tl] by blast
    then show ?thesis
      using take_frame [OF Cons.prems(1) tk, of i u] take_ready [OF Cons.prems(1), of t d1 i] tk
      by (cases "r = Some i") auto
  next
    case False
    with Cons.prems(3) is_eq have "r = Some i" by (auto split: option.splits)
    then show ?thesis using take_ready [OF Cons.prems(1)] tk by auto
  qed
qed

lemma take_all_distinct:
  assumes "inv d" and "take_all tk ts d = (d', is)"
    and "\<And>t u. t \<in> set ts \<Longrightarrow> u \<in> set ts \<Longrightarrow> u \<le> t + lease"
  shows "distinct is"
  using assms
proof (induction ts arbitrary: d d' "is")
  case Nil
  then show ?case by simp
next
  case (Cons t ts)
  obtain d1 r where tk: "tk t d = (d1, r)" by (cases "tk t d")
  obtain d2 rest where tl: "take_all tk ts d1 = (d2, rest)" by (cases "take_all tk ts d1")
  from Cons.prems(2) tk tl have is_eq: "is = (case r of None \<Rightarrow> rest | Some i \<Rightarrow> i # rest)"
    by simp
  have inv1: "inv d1" using take_inv [OF Cons.prems(1), of t] tk by simp
  have rest: "distinct rest"
    by (rule Cons.IH [OF inv1 tl]) (use Cons.prems(3) in auto)
  have "i \<notin> set rest" if r: "r = Some i" for i
  proof
    assume "i \<in> set rest"
    then obtain u where u: "u \<in> set ts" and "ready d1 u i"
      using take_all_ready [OF inv1 tl] by blast
    moreover have "\<not> ready d1 u i"
      using take_holds [OF Cons.prems(1), of t d1 i u] tk r Cons.prems(3) [of t u] u by simp
    ultimately show False by simp
  qed
  with rest is_eq show ?case by (cases r) auto
qed

lemma take_all_inv: "inv d \<Longrightarrow> inv (fst (take_all tk ts d))"
proof (induction ts arbitrary: d)
  case Nil
  then show ?case by simp
next
  case (Cons t ts)
  have "inv (fst (tk t d))" by (rule take_inv [OF Cons.prems])
  then have "inv (fst (take_all tk ts (fst (tk t d))))" by (rule Cons.IH)
  then show ?case by (simp add: case_prod_unfold Let_def)
qed

end

end
