(* ===== verification/Queue.thy ===== *)
theory Queue
  imports Schema Run_SM Backoff
begin

text \<open>
  \<open>core/db/queue.py\<close>: the Postgres-backed stage queue.  Each operation takes the instant
  \<open>now\<close> its \<open>utc_now()\<close> calls return, and the jitter it draws.  \<open>locked\<close> is the set of
  stage rows other open transactions hold row locks on, which \<open>FOR UPDATE SKIP LOCKED\<close> skips.
  \<open>autoflush\<close> says whether the session flushes before a query; it matters for the cost
  rollup, which sums in SQL after mutating the stage in memory.
\<close>

record attempt_in =
  ai_worker_id :: string
  ai_model :: "string option"
  ai_transcript_ref :: "string option"
  ai_cost_usd :: decimal
  ai_cost_source :: string
  ai_tokens_in :: "int option"
  ai_tokens_out :: "int option"
  ai_cached_tokens_in :: "int option"
  ai_exit_code :: "int option"
  ai_kill_reason :: "string option"

definition default_attempt_in :: "string \<Rightarrow> attempt_in" where
  "default_attempt_in worker = \<lparr>ai_worker_id = worker, ai_model = None, ai_transcript_ref = None,
     ai_cost_usd = 0, ai_cost_source = ''estimated'', ai_tokens_in = None, ai_tokens_out = None,
     ai_cached_tokens_in = None, ai_exit_code = None, ai_kill_reason = None\<rparr>"

section \<open>Claiming\<close>

definition SATISFIED :: "stage_status list" where
  "SATISFIED = [SS_Succeeded, SS_Skipped]"

definition dependency_met :: "db \<Rightarrow> stage_row \<Rightarrow> bool" where
  "dependency_met d s = (case st_depends_on_seq s of
     None \<Rightarrow> True
   | Some q \<Rightarrow> list_ex (\<lambda>dep. st_run dep = st_run s \<and> st_seq dep = q \<and>
                          st_status dep \<in> set SATISFIED) (t_stages d))"

definition claimable :: "db \<Rightarrow> time \<Rightarrow> stage_row \<Rightarrow> bool" where
  "claimable d now s \<longleftrightarrow>
     st_status s = SS_Queued \<and> st_available_at s \<le> now \<and>
     (case get_run (st_run s) d of None \<Rightarrow> False | Some r \<Rightarrow> run_status r = RS_Running) \<and>
     dependency_met d s"

definition claim_order :: "db \<Rightarrow> stage_row \<Rightarrow> int \<times> time \<times> int" where
  "claim_order d s = (case get_run (st_run s) d of
     None \<Rightarrow> (0, 0, st_seq s)
   | Some r \<Rightarrow> (- run_priority r, run_created_at r, st_seq s))"

definition wanted :: "'a list option \<Rightarrow> 'a \<Rightarrow> bool" where
  "wanted flt x = (case flt of None \<Rightarrow> True | Some xs \<Rightarrow> xs = [] \<or> x \<in> set xs)"

definition claim_candidates ::
  "db \<Rightarrow> time \<Rightarrow> uuid list \<Rightarrow> substrate list option \<Rightarrow> string list option \<Rightarrow> stage_row list" where
  "claim_candidates d now locked substrates houses =
     filter (\<lambda>s. claimable d now s \<and> st_id s \<notin> set locked \<and>
                 wanted substrates (st_substrate s) \<and> wanted houses (st_house s)) (t_stages d)"

definition mark_claimed :: "time \<Rightarrow> string \<Rightarrow> rat \<Rightarrow> stage_row \<Rightarrow> stage_row" where
  "mark_claimed now worker lease s = s\<lparr>
     st_status := SS_Running, st_claimed_by := Some worker, st_claimed_at := Some now,
     st_lease_expires_at := Some (now + lease), st_attempts := st_attempts s + 1,
     st_started_at := (case st_started_at s of None \<Rightarrow> Some now | Some t \<Rightarrow> Some t)\<rparr>"

definition new_attempt :: "string \<Rightarrow> stage_row \<Rightarrow> attempt_row" where
  "new_attempt worker s = \<lparr>at_stage = st_id s, at_no = st_attempts s, at_status = AS_Running,
     at_house = st_house s, at_substrate = st_substrate s, at_worker = worker, at_model = None,
     at_transcript_ref = None, at_result = None, at_cost = 0, at_cost_source = None,
     at_tokens_in = None, at_tokens_out = None, at_cached_tokens_in = None, at_exit_code = None,
     at_kill_reason = None, at_finished_at = None\<rparr>"

definition uq_stage_attempts :: "db \<Rightarrow> attempt_row \<Rightarrow> bool" where
  "uq_stage_attempts d a \<longleftrightarrow>
     \<not> list_ex (\<lambda>b. at_stage b = at_stage a \<and> at_no b = at_no a) (t_attempts d)"

definition claim_stage ::
  "time \<Rightarrow> uuid list \<Rightarrow> string \<Rightarrow> substrate list option \<Rightarrow> string list option \<Rightarrow> rat \<Rightarrow> db \<Rightarrow>
     error + (db \<times> stage_row option)" where
  "claim_stage now locked worker_id substrates houses lease_seconds d =
     (case first_min (claim_order d) (claim_candidates d now locked substrates houses) of
        None \<Rightarrow> Inr (d, None)
      | Some s \<Rightarrow>
          let s' = mark_claimed now worker_id lease_seconds s;
              a = new_attempt worker_id s';
              d' = upd_stage (st_id s) (\<lambda>_. s') d
          in if uq_stage_attempts d a
             then Inr (d'\<lparr>t_attempts := t_attempts d @ [a]\<rparr>, Some s')
             else Inl (IntegrityError ''uq_stage_attempts_stage_no''))"

definition heartbeat :: "time \<Rightarrow> uuid \<Rightarrow> string \<Rightarrow> rat \<Rightarrow> db \<Rightarrow> db \<times> bool" where
  "heartbeat now stage_id worker_id lease_seconds d =
     (case get_stage stage_id d of
        None \<Rightarrow> (d, False)
      | Some s \<Rightarrow>
          if st_claimed_by s \<noteq> Some worker_id \<or> st_status s \<noteq> SS_Running then (d, False)
          else (upd_stage stage_id (\<lambda>s. s\<lparr>st_lease_expires_at := Some (now + lease_seconds)\<rparr>) d, True))"

section \<open>Closing an attempt\<close>

text \<open>The first running attempt of the stage is the one the query returns.\<close>

fun upd_first :: "('a \<Rightarrow> bool) \<Rightarrow> ('a \<Rightarrow> 'a) \<Rightarrow> 'a list \<Rightarrow> 'a list" where
  "upd_first P f [] = []"
| "upd_first P f (x # xs) = (if P x then f x # xs else x # upd_first P f xs)"

definition close_attempt_row ::
  "time \<Rightarrow> attempt_in \<Rightarrow> attempt_status \<Rightarrow> json_obj option \<Rightarrow> string option \<Rightarrow> attempt_row \<Rightarrow> attempt_row" where
  "close_attempt_row now attempt status result kill_reason a = a\<lparr>
     at_status := status, at_finished_at := Some now, at_cost := ai_cost_usd attempt,
     at_cost_source := Some (ai_cost_source attempt), at_tokens_in := ai_tokens_in attempt,
     at_tokens_out := ai_tokens_out attempt, at_cached_tokens_in := ai_cached_tokens_in attempt,
     at_transcript_ref := ai_transcript_ref attempt, at_model := ai_model attempt,
     at_exit_code := ai_exit_code attempt,
     at_kill_reason := (case kill_reason of None \<Rightarrow> at_kill_reason a | Some k \<Rightarrow> Some k),
     at_result := (case result of None \<Rightarrow> at_result a | Some r \<Rightarrow> Some r)\<rparr>"

definition is_running_attempt :: "uuid \<Rightarrow> attempt_row \<Rightarrow> bool" where
  "is_running_attempt i a \<longleftrightarrow> at_stage a = i \<and> at_status a = AS_Running"

definition close_attempt ::
  "time \<Rightarrow> stage_row \<Rightarrow> attempt_in \<Rightarrow> attempt_status \<Rightarrow> json_obj option \<Rightarrow> string option \<Rightarrow> db \<Rightarrow> db" where
  "close_attempt now stage attempt status result kill_reason d =
     (upd_stage (st_id stage) (\<lambda>s. s\<lparr>st_cost := st_cost s + ai_cost_usd attempt\<rparr>) d)
     \<lparr>t_attempts := upd_first (is_running_attempt (st_id stage))
                      (close_attempt_row now attempt status result kill_reason) (t_attempts d)\<rparr>"

text \<open>\<open>flushed\<close> is what SQL sees when the sum is taken.\<close>

definition stage_cost_total :: "uuid \<Rightarrow> stage_row list \<Rightarrow> decimal" where
  "stage_cost_total r stages = sum_list (map st_cost (filter (\<lambda>s. st_run s = r) stages))"

definition rollup_run :: "bool \<Rightarrow> stage_row list \<Rightarrow> uuid \<Rightarrow> db \<Rightarrow> error + db" where
  "rollup_run autoflush flushed r d =
     andthen (require AttributeError (get_run r d)) (\<lambda>_.
     Inr (upd_run r (\<lambda>x. x\<lparr>run_cost := stage_cost_total r (sql_view autoflush flushed (t_stages d))\<rparr>) d))"

definition next_available_at :: "time \<Rightarrow> rat \<Rightarrow> int \<Rightarrow> backoff_policy \<Rightarrow> time" where
  "next_available_at now jitter_factor attempts backoff =
     now + backoff_seconds attempts backoff jitter_factor"

definition release_claim :: "stage_row \<Rightarrow> stage_row" where
  "release_claim s = s\<lparr>st_claimed_by := None, st_claimed_at := None, st_lease_expires_at := None\<rparr>"

definition stage_ctx :: "stage_row \<Rightarrow> attempt_context" where
  "stage_ctx s = \<lparr>ctx_attempts = st_attempts s, ctx_max_attempts = st_max_attempts s\<rparr>"

definition complete_stage ::
  "bool \<Rightarrow> time \<Rightarrow> uuid \<Rightarrow> attempt_in \<Rightarrow> json_obj \<Rightarrow> db \<Rightarrow> error + db" where
  "complete_stage autoflush now stage_id attempt result d =
     andthen (require AttributeError (get_stage stage_id d)) (\<lambda>stage.
     let d1 = close_attempt now stage attempt AS_Succeeded (Some result) None d in
     andthen (stage_transition (st_status stage) SA_Complete (stage_ctx stage)) (\<lambda>sm.
     let d2 = upd_stage stage_id (\<lambda>s. release_claim (s\<lparr>
                st_status := stt_to sm, st_finished_at := Some now, st_result := Some result,
                st_tokens_in := ai_tokens_in attempt, st_tokens_out := ai_tokens_out attempt,
                st_transcript_ref := ai_transcript_ref attempt\<rparr>)) d1 in
     rollup_run autoflush (t_stages d) (st_run stage) d2))"

definition fail_stage ::
  "bool \<Rightarrow> time \<Rightarrow> rat \<Rightarrow> uuid \<Rightarrow> attempt_in \<Rightarrow> bool \<Rightarrow> backoff_policy \<Rightarrow> db \<Rightarrow> error + db" where
  "fail_stage autoflush now jitter_factor stage_id attempt retryable backoff d =
     andthen (require AttributeError (get_stage stage_id d)) (\<lambda>stage.
     let d1 = close_attempt now stage attempt AS_Failed None (ai_kill_reason attempt) d in
     andthen
       (if retryable \<and> st_attempts stage < st_max_attempts stage then
          andthen (stage_transition (st_status stage) SA_Fail_Retryable (stage_ctx stage)) (\<lambda>sm.
          Inr (upd_stage stage_id (\<lambda>s. s\<lparr>st_status := stt_to sm,
                 st_available_at :=
                   (if ''set_available_at_backoff'' \<in> set (stt_effects sm)
                    then next_available_at now jitter_factor (st_attempts stage) backoff else now)\<rparr>) d1))
        else
          Inr (upd_stage stage_id (\<lambda>s. s\<lparr>st_status := SS_Failed, st_finished_at := Some now\<rparr>) d1))
       (\<lambda>d2. rollup_run autoflush (t_stages d) (st_run stage) (upd_stage stage_id release_claim d2)))"

section \<open>Reaping expired leases\<close>

definition lease_expired :: "time \<Rightarrow> stage_row \<Rightarrow> bool" where
  "lease_expired now s \<longleftrightarrow> st_status s = SS_Running \<and>
     (case st_lease_expires_at s of None \<Rightarrow> False | Some t \<Rightarrow> t < now)"

definition reap_attempt :: "time \<Rightarrow> attempt_row \<Rightarrow> attempt_row" where
  "reap_attempt utcnow a = a\<lparr>at_status := AS_Failed, at_kill_reason := Some ''lease_expired'',
     at_finished_at := Some utcnow\<rparr>"

definition reap_stage :: "time \<Rightarrow> (uuid \<Rightarrow> rat) \<Rightarrow> backoff_policy \<Rightarrow> stage_row \<Rightarrow> stage_row" where
  "reap_stage utcnow jitter_factor backoff s = release_claim
     (if st_attempts s < st_max_attempts s
      then s\<lparr>st_status := SS_Queued,
             st_available_at := next_available_at utcnow (jitter_factor (st_id s)) (st_attempts s) backoff\<rparr>
      else s\<lparr>st_status := SS_Failed, st_finished_at := Some utcnow\<rparr>)"

definition reap_one ::
  "time \<Rightarrow> (uuid \<Rightarrow> rat) \<Rightarrow> backoff_policy \<Rightarrow> uuid \<Rightarrow> db \<Rightarrow> db" where
  "reap_one utcnow jitter_factor backoff i d =
     (upd_stage i (reap_stage utcnow jitter_factor backoff) d)
     \<lparr>t_attempts := upd_first (is_running_attempt i) (reap_attempt utcnow) (t_attempts d)\<rparr>"

definition reap_expired ::
  "time \<Rightarrow> time \<Rightarrow> (uuid \<Rightarrow> rat) \<Rightarrow> backoff_policy \<Rightarrow> db \<Rightarrow> db \<times> uuid list" where
  "reap_expired now utcnow jitter_factor backoff d =
     (let reaped = map st_id (filter (lease_expired now) (t_stages d))
      in (fold (reap_one utcnow jitter_factor backoff) reaped d, reaped))"

end
