(* ===== verification/Queue_Correct.thy ===== *)
theory Queue_Correct
  imports Queue Lease
begin

text \<open>
  What the stage queue promises.  \<open>queue_inv\<close> ties the stage rows to their attempt rows: the
  attempt counter is bounded, a queued stage has attempts left, a stage is running exactly when
  it is claimed under a lease and exactly one of its attempts is running, attempt numbers are
  unique and never above the counter, and the stage's cost is the sum over its attempts.  Every
  queue operation keeps it but one: a final failure is accepted for a stage that is not running, and
  charges the stage for no attempt.  \<open>queue_books\<close> is the same with the amount each stage was
  charged that way.  The claim is the \<open>lease_queue\<close> contract.
\<close>

section \<open>The invariant\<close>

definition own_attempts :: "uuid \<Rightarrow> attempt_row list \<Rightarrow> attempt_row list" where
  "own_attempts i atts = filter (\<lambda>a. at_stage a = i) atts"

definition stage_ok :: "decimal \<Rightarrow> attempt_row list \<Rightarrow> stage_row \<Rightarrow> bool" where
  "stage_ok owing own s \<longleftrightarrow>
     0 \<le> st_attempts s \<and> st_attempts s \<le> st_max_attempts s \<and>
     (st_status s = SS_Queued \<longrightarrow> st_attempts s < st_max_attempts s) \<and>
     (st_status s = SS_Running \<longleftrightarrow> st_claimed_by s \<noteq> None) \<and>
     (st_status s = SS_Running \<longleftrightarrow> st_lease_expires_at s \<noteq> None) \<and>
     length (filter (\<lambda>a. at_status a = AS_Running) own) = (if st_status s = SS_Running then 1 else 0) \<and>
     distinct (map at_no own) \<and>
     (\<forall>a \<in> set own. 1 \<le> at_no a \<and> at_no a \<le> st_attempts s) \<and>
     (\<forall>a \<in> set own. at_status a = AS_Running \<longrightarrow> at_cost a = 0) \<and>
     st_cost s = sum_list (map at_cost own) + owing"

definition queue_books :: "(uuid \<Rightarrow> decimal) \<Rightarrow> db \<Rightarrow> bool" where
  "queue_books debt d \<longleftrightarrow>
     distinct (map st_id (t_stages d)) \<and>
     (\<forall>s \<in> set (t_stages d). stage_ok (debt (st_id s)) (own_attempts (st_id s) (t_attempts d)) s)"

abbreviation queue_inv :: "db \<Rightarrow> bool" where
  "queue_inv \<equiv> queue_books (\<lambda>_. 0)"

lemma queue_inv_get:
  assumes "queue_books debt d" and "get_stage i d = Some s"
  shows "stage_ok (debt i) (own_attempts i (t_attempts d)) s" and "st_id s = i" and "s \<in> set (t_stages d)"
  using assms stage_tab.fetch_SomeD [OF assms(2)] by (auto simp: queue_books_def)

text \<open>All operations change one stage row and that stage's attempts.\<close>

lemma queue_books_step:
  assumes inv: "queue_books debt d" and get: "get_stage i d = Some s"
    and stages: "t_stages d' = upd_row st_id i f (t_stages d)"
    and keep: "\<And>s. st_id (f s) = st_id s"
    and frame: "\<And>j. j \<noteq> i \<Longrightarrow> own_attempts j (t_attempts d') = own_attempts j (t_attempts d)"
    and ok: "stage_ok (debt' i) (own_attempts i (t_attempts d')) (f s)"
    and same: "\<And>j. j \<noteq> i \<Longrightarrow> debt' j = debt j"
  shows "queue_books debt' d'"
  unfolding queue_books_def
proof (intro conjI ballI)
  show "distinct (map st_id (t_stages d'))"
    using inv keep by (simp add: queue_books_def stages)
  fix s' assume "s' \<in> set (t_stages d')"
  then consider (new) s0 where "s0 \<in> set (t_stages d)" "st_id s0 = i" "s' = f s0"
    | (old) "s' \<in> set (t_stages d)" "st_id s' \<noteq> i"
    unfolding stages by (auto dest: set_upd_rowD)
  then show "stage_ok (debt' (st_id s')) (own_attempts (st_id s') (t_attempts d')) s'"
  proof cases
    case new
    have "s0 = s"
      using inv get new(1,2) stage_tab.fetch_member [of d s0] by (simp add: queue_books_def)
    with new ok keep show ?thesis by simp
  next
    case old
    with inv frame same show ?thesis by (simp add: queue_books_def)
  qed
qed

lemma queue_inv_step:
  assumes "queue_books debt d" and "get_stage i d = Some s" and "t_stages d' = upd_row st_id i f (t_stages d)"
    and "\<And>s. st_id (f s) = st_id s"
    and "\<And>j. j \<noteq> i \<Longrightarrow> own_attempts j (t_attempts d') = own_attempts j (t_attempts d)"
    and "stage_ok (debt i) (own_attempts i (t_attempts d')) (f s)"
  shows "queue_books debt d'"
  by (rule queue_books_step [where debt' = debt, OF assms]) (assumption, rule refl)

lemma own_append [simp]:
  "own_attempts i (atts @ [a]) = own_attempts i atts @ (if at_stage a = i then [a] else [])"
  by (simp add: own_attempts_def)

lemma own_upd_first_other:
  "(\<And>a. P a \<Longrightarrow> at_stage a = i) \<Longrightarrow> (\<And>a. at_stage (f a) = at_stage a) \<Longrightarrow> j \<noteq> i \<Longrightarrow>
     own_attempts j (upd_first P f atts) = own_attempts j atts"
  by (induction atts) (auto simp: own_attempts_def)

lemma own_upd_first_same:
  "(\<And>a. at_stage (f a) = at_stage a) \<Longrightarrow>
     own_attempts i (upd_first (is_running_attempt i) f atts) =
     upd_first (\<lambda>a. at_status a = AS_Running) f (own_attempts i atts)"
  by (induction atts) (auto simp: own_attempts_def is_running_attempt_def)

lemma upd_first_none: "filter P xs = [] \<Longrightarrow> upd_first P f xs = xs"
  by (induction xs) (auto split: if_splits)

lemma upd_first_unique:
  assumes "length (filter P xs) = 1"
  obtains ys x zs where "xs = ys @ x # zs" "P x" "filter P ys = []" "filter P zs = []"
    "upd_first P f xs = ys @ f x # zs"
proof -
  have "\<exists>ys x zs. xs = ys @ x # zs \<and> P x \<and> filter P ys = [] \<and> filter P zs = [] \<and>
          upd_first P f xs = ys @ f x # zs"
    using assms
  proof (induction xs)
    case Nil
    then show ?case by simp
  next
    case (Cons a xs)
    show ?case
    proof (cases "P a")
      case True
      with Cons.prems have "filter P xs = []" by simp
      with True have "a # xs = [] @ a # xs \<and> P a \<and> filter P [] = [] \<and> filter P xs = [] \<and>
          upd_first P f (a # xs) = [] @ f a # xs" by simp
      then show ?thesis by blast
    next
      case False
      with Cons obtain ys x zs where xs: "xs = ys @ x # zs" and P: "P x" "filter P ys = []"
          "filter P zs = []" and u: "upd_first P f xs = ys @ f x # zs" by auto
      have "upd_first P f (a # xs) = (a # ys) @ f x # zs" using False u by simp
      moreover have "a # xs = (a # ys) @ x # zs" using xs by simp
      moreover have "filter P (a # ys) = []" using False P by simp
      ultimately have "a # xs = (a # ys) @ x # zs \<and> P x \<and> filter P (a # ys) = [] \<and>
          filter P zs = [] \<and> upd_first P f (a # xs) = (a # ys) @ f x # zs" using P by blast
      then show ?thesis by blast
    qed
  qed
  then show thesis using that by blast
qed

section \<open>Claiming\<close>

lemma claim_stage_Some:
  assumes "claim_stage now locked w subs hs lease d = Inr (d', Some s')"
  obtains s where "s \<in> set (t_stages d)" "claimable d now s" "st_id s \<notin> set locked"
    "wanted subs (st_substrate s)" "wanted hs (st_house s)"
    "\<forall>c \<in> set (claim_candidates d now locked subs hs). claim_order d s \<le> claim_order d c"
    "s' = mark_claimed now w lease s"
    "d' = (upd_stage (st_id s) (\<lambda>_. s') d)\<lparr>t_attempts := t_attempts d @ [new_attempt w s']\<rparr>"
  using assms
  by (auto simp: claim_stage_def Let_def claim_candidates_def split: option.splits if_splits
      dest!: first_min_SomeD)

lemma claim_stage_None_iff:
  "claim_stage now locked w subs hs lease d = Inr (d', None) \<longleftrightarrow>
     d' = d \<and> claim_candidates d now locked subs hs = []"
  by (auto simp: claim_stage_def Let_def split: option.splits)

lemma mark_claimed_id [simp]: "st_id (mark_claimed now w lease s) = st_id s"
  by (simp add: mark_claimed_def)

lemma upd_row_const:
  assumes "distinct (map key rows)" and "s \<in> set rows"
  shows "upd_row key (key s) (\<lambda>_. f s) rows = upd_row key (key s) f rows"
proof -
  have "r = s" if "r \<in> set rows" "key r = key s" for r
    using that assms by (auto simp: distinct_map inj_on_def)
  then show ?thesis by (auto simp: upd_row_def)
qed

lemma claim_stage_inv:
  assumes inv: "queue_books debt d" and claim: "claim_stage now locked w subs hs lease d = Inr (d', r)"
  shows "queue_books debt d'"
proof (cases r)
  case None
  with claim inv show ?thesis by (simp add: claim_stage_None_iff)
next
  case (Some s')
  with claim have "claim_stage now locked w subs hs lease d = Inr (d', Some s')" by simp
  then show ?thesis
  proof (rule claim_stage_Some)
    fix s
    assume s: "s \<in> set (t_stages d)" "claimable d now s" "s' = mark_claimed now w lease s"
      and d': "d' = (upd_stage (st_id s) (\<lambda>_. s') d)\<lparr>t_attempts := t_attempts d @ [new_attempt w s']\<rparr>"
    have dist: "distinct (map st_id (t_stages d))" using inv by (simp add: queue_books_def)
    have get: "get_stage (st_id s) d = Some s" by (rule stage_tab.fetch_member [OF dist s(1)])
    have ok: "stage_ok (debt (st_id s)) (own_attempts (st_id s) (t_attempts d)) s"
      using inv s(1) by (simp add: queue_books_def)
    have q: "st_status s = SS_Queued" using s(2) by (simp add: claimable_def)
    show ?thesis
    proof (rule queue_inv_step [OF inv get, where f = "mark_claimed now w lease"])
      show "t_stages d' = upd_row st_id (st_id s) (mark_claimed now w lease) (t_stages d)"
        using upd_row_const [OF dist s(1), of "mark_claimed now w lease"] s(3)
        by (simp add: d' upd_stage_def)
      show "stage_ok (debt (st_id s)) (own_attempts (st_id s) (t_attempts d')) (mark_claimed now w lease s)"
        using ok q s(3) by (auto simp: d' upd_stage_def stage_ok_def new_attempt_def mark_claimed_def)
    qed (simp_all add: d' upd_stage_def new_attempt_def s(3))
  qed
qed

lemma claim_stage_no_error:
  assumes inv: "queue_books debt d"
  shows "claim_stage now locked w subs hs lease d \<noteq> Inl e"
proof
  assume "claim_stage now locked w subs hs lease d = Inl e"
  then obtain s where s: "s \<in> set (t_stages d)"
    and dup: "\<not> uq_stage_attempts d (new_attempt w (mark_claimed now w lease s))"
    by (auto simp: claim_stage_def Let_def claim_candidates_def split: option.splits if_splits
        dest!: first_min_SomeD)
  from dup obtain b where "b \<in> set (t_attempts d)" "at_stage b = st_id s" "at_no b = st_attempts s + 1"
    by (auto simp: uq_stage_attempts_def new_attempt_def mark_claimed_def list_ex_iff)
  moreover have "stage_ok (debt (st_id s)) (own_attempts (st_id s) (t_attempts d)) s"
    using inv s by (simp add: queue_books_def)
  ultimately show False by (fastforce simp: stage_ok_def own_attempts_def)
qed

section \<open>Heartbeat, completion, failure, reaping\<close>

lemma heartbeat_inv:
  assumes inv: "queue_books debt d"
  shows "queue_books debt (fst (heartbeat now i w lease d))"
proof (cases "get_stage i d")
  case None
  then show ?thesis using inv by (simp add: heartbeat_def)
next
  case (Some s)
  show ?thesis
  proof (cases "st_claimed_by s \<noteq> Some w \<or> st_status s \<noteq> SS_Running")
    case True
    then show ?thesis using inv Some by (auto simp: heartbeat_def)
  next
    case False
    let ?f = "\<lambda>s. s\<lparr>st_lease_expires_at := Some (now + lease)\<rparr>"
    have "queue_books debt (upd_stage i ?f d)"
      by (rule queue_inv_step [OF inv Some, where f = ?f])
        (use queue_inv_get [OF inv Some] False in \<open>simp_all add: upd_stage_def stage_ok_def\<close>)
    with False Some show ?thesis by (simp add: heartbeat_def)
  qed
qed

lemma close_row_simps [simp]:
  "at_stage (close_attempt_row now a st res kr x) = at_stage x"
  "at_no (close_attempt_row now a st res kr x) = at_no x"
  "at_status (close_attempt_row now a st res kr x) = st"
  "at_cost (close_attempt_row now a st res kr x) = ai_cost_usd a"
  by (simp_all add: close_attempt_row_def)

lemma reap_row_simps [simp]:
  "at_stage (reap_attempt now x) = at_stage x" "at_no (reap_attempt now x) = at_no x"
  "at_status (reap_attempt now x) = AS_Failed" "at_cost (reap_attempt now x) = at_cost x"
  by (simp_all add: reap_attempt_def)

lemma release_claim_simps [simp]:
  "st_id (release_claim s) = st_id s" "st_run (release_claim s) = st_run s"
  "st_seq (release_claim s) = st_seq s" "st_status (release_claim s) = st_status s"
  "st_attempts (release_claim s) = st_attempts s"
  "st_max_attempts (release_claim s) = st_max_attempts s" "st_cost (release_claim s) = st_cost s"
  "st_claimed_by (release_claim s) = None" "st_lease_expires_at (release_claim s) = None"
  "st_available_at (release_claim s) = st_available_at s"
  by (simp_all add: release_claim_def)

text \<open>Closing the one running attempt of a stage that leaves \<open>running\<close>.\<close>

lemma stage_ok_close:
  assumes ok: "stage_ok x own s" and run: "st_status s = SS_Running"
    and f: "\<And>x. at_no (f x) = at_no x" "\<And>x. at_status (f x) \<noteq> AS_Running"
      "\<And>x. at_cost x = 0 \<Longrightarrow> at_cost (f x) = c"
    and s': "st_status s' \<noteq> SS_Running" "st_claimed_by s' = None" "st_lease_expires_at s' = None"
      "st_attempts s' = st_attempts s" "st_max_attempts s' = st_max_attempts s"
      "st_cost s' = st_cost s + c"
      "st_status s' = SS_Queued \<longrightarrow> st_attempts s < st_max_attempts s"
  shows "stage_ok x (upd_first (\<lambda>a. at_status a = AS_Running) f own) s'"
proof -
  from ok run have "length (filter (\<lambda>a. at_status a = AS_Running) own) = 1"
    by (simp add: stage_ok_def)
  then show ?thesis
  proof (rule upd_first_unique [where f = f])
    fix ys x zs
    assume own: "own = ys @ x # zs" "at_status x = AS_Running"
      and none: "filter (\<lambda>a. at_status a = AS_Running) ys = []"
        "filter (\<lambda>a. at_status a = AS_Running) zs = []"
      and upd: "upd_first (\<lambda>a. at_status a = AS_Running) f own = ys @ f x # zs"
    have "at_cost x = 0" using ok own by (simp add: stage_ok_def)
    then have "at_cost (f x) = c" by (rule f(3))
    then show ?thesis
      using ok own none f(1,2) s' \<open>at_cost x = 0\<close>
      unfolding upd stage_ok_def by (auto simp: filter_empty_conv)
  qed
qed

lemma queue_inv_upd_run: "queue_books debt (upd_run r f d) = queue_books debt d"
  by (simp add: queue_books_def upd_run_def)

lemma rollup_run_Inr:
  "rollup_run af fl r d = Inr d' \<longleftrightarrow>
     get_run r d \<noteq> None \<and>
     d' = upd_run r (\<lambda>x. x\<lparr>run_cost := stage_cost_total r (sql_view af fl (t_stages d))\<rparr>) d"
  by (auto simp: rollup_run_def andthen_Inr_iff)

lemma upd_row_comp:
  "(\<And>r. key (f r) = key r) \<Longrightarrow> upd_row key i g (upd_row key i f rows) = upd_row key i (g \<circ> f) rows"
  by (simp add: upd_row_def)

definition completed_stage ::
  "time \<Rightarrow> attempt_in \<Rightarrow> json_obj \<Rightarrow> stage_row \<Rightarrow> stage_row" where
  "completed_stage now a result s = release_claim (s\<lparr>st_cost := st_cost s + ai_cost_usd a,
     st_status := SS_Succeeded, st_finished_at := Some now, st_result := Some result,
     st_tokens_in := ai_tokens_in a, st_tokens_out := ai_tokens_out a,
     st_transcript_ref := ai_transcript_ref a\<rparr>)"

lemma completed_stage_simps [simp]:
  "st_id (completed_stage now a res s) = st_id s" "st_run (completed_stage now a res s) = st_run s"
  "st_seq (completed_stage now a res s) = st_seq s"
  "st_status (completed_stage now a res s) = SS_Succeeded"
  "st_cost (completed_stage now a res s) = st_cost s + ai_cost_usd a"
  "st_attempts (completed_stage now a res s) = st_attempts s"
  "st_max_attempts (completed_stage now a res s) = st_max_attempts s"
  "st_claimed_by (completed_stage now a res s) = None"
  "st_lease_expires_at (completed_stage now a res s) = None"
  by (simp_all add: completed_stage_def)

lemma complete_stageE:
  assumes "complete_stage af now i a result d = Inr d'"
  obtains s where "get_stage i d = Some s" "st_status s = SS_Running" "get_run (st_run s) d \<noteq> None"
    "t_stages d' = upd_row st_id i (completed_stage now a result) (t_stages d)"
    "t_attempts d' = upd_first (is_running_attempt i)
       (close_attempt_row now a AS_Succeeded (Some result) None) (t_attempts d)"
    "t_runs d' = upd_row run_id (st_run s) (\<lambda>x. x\<lparr>run_cost :=
       stage_cost_total (st_run s) (sql_view af (t_stages d) (t_stages d'))\<rparr>) (t_runs d)"
proof -
  from assms obtain s where get: "get_stage i d = Some s"
    by (auto simp: complete_stage_def andthen_Inr_iff)
  then have id: "st_id s = i" by (simp add: stage_tab.fetch_SomeD)
  from assms get obtain sm where
    sm: "stage_transition (st_status s) SA_Complete (stage_ctx s) = Inr sm"
    and roll: "rollup_run af (t_stages d) (st_run s)
      (upd_stage i (\<lambda>s. release_claim (s\<lparr>
                st_status := stt_to sm, st_finished_at := Some now, st_result := Some result,
                st_tokens_in := ai_tokens_in a, st_tokens_out := ai_tokens_out a,
                st_transcript_ref := ai_transcript_ref a\<rparr>))
         (close_attempt now s a AS_Succeeded (Some result) None d)) = Inr d'"
    by (auto simp: complete_stage_def andthen_Inr_iff Let_def)
  from sm have run: "st_status s = SS_Running" and to: "stt_to sm = SS_Succeeded"
    by (auto simp: stage_complete_iff)
  from roll have ex: "get_run (st_run s) d \<noteq> None"
    by (auto simp: rollup_run_Inr get_run_def upd_stage_def close_attempt_def)
  from roll have st: "t_stages d' = upd_row st_id i (completed_stage now a result) (t_stages d)"
    and at: "t_attempts d' = upd_first (is_running_attempt i)
       (close_attempt_row now a AS_Succeeded (Some result) None) (t_attempts d)"
    by (simp_all add: rollup_run_Inr upd_run_def upd_stage_def close_attempt_def id to upd_row_comp
        o_def completed_stage_def [abs_def])
  have "t_runs d' = upd_row run_id (st_run s) (\<lambda>x. x\<lparr>run_cost :=
       stage_cost_total (st_run s) (sql_view af (t_stages d) (t_stages d'))\<rparr>) (t_runs d)"
    using roll by (simp add: rollup_run_Inr upd_run_def upd_stage_def close_attempt_def)
  with get run ex st at show thesis by (rule that)
qed

lemma complete_stage_inv:
  assumes inv: "queue_books debt d" and "complete_stage af now i a result d = Inr d'"
  shows "queue_books debt d'"
  using assms(2)
proof (rule complete_stageE)
  fix s
  assume get: "get_stage i d = Some s" and run: "st_status s = SS_Running"
    and st: "t_stages d' = upd_row st_id i (completed_stage now a result) (t_stages d)"
    and at: "t_attempts d' = upd_first (is_running_attempt i)
       (close_attempt_row now a AS_Succeeded (Some result) None) (t_attempts d)"
  show ?thesis
  proof (rule queue_inv_step [OF inv get st])
    show "own_attempts j (t_attempts d') = own_attempts j (t_attempts d)" if "j \<noteq> i" for j
      unfolding at using that by (intro own_upd_first_other) (auto simp: is_running_attempt_def)
    show "stage_ok (debt i) (own_attempts i (t_attempts d')) (completed_stage now a result s)"
      unfolding at own_upd_first_same [where f = "close_attempt_row now a AS_Succeeded (Some result) None", OF close_row_simps(1)]
      by (rule stage_ok_close [OF queue_inv_get(1) [OF inv get] run, where c = "ai_cost_usd a"]) simp_all
  qed simp
qed

definition failed_stage ::
  "time \<Rightarrow> rat \<Rightarrow> attempt_in \<Rightarrow> bool \<Rightarrow> backoff_policy \<Rightarrow> int \<Rightarrow> stage_row \<Rightarrow> stage_row" where
  "failed_stage now jf a retry backoff n s = release_claim
     (if retry then s\<lparr>st_cost := st_cost s + ai_cost_usd a, st_status := SS_Queued,
                       st_available_at := next_available_at now jf n backoff\<rparr>
      else s\<lparr>st_cost := st_cost s + ai_cost_usd a, st_status := SS_Failed,
             st_finished_at := Some now\<rparr>)"

lemma failed_stage_simps [simp]:
  "st_id (failed_stage now jf a re b n s) = st_id s" "st_run (failed_stage now jf a re b n s) = st_run s"
  "st_seq (failed_stage now jf a re b n s) = st_seq s"
  "st_status (failed_stage now jf a re b n s) = (if re then SS_Queued else SS_Failed)"
  "st_cost (failed_stage now jf a re b n s) = st_cost s + ai_cost_usd a"
  "st_attempts (failed_stage now jf a re b n s) = st_attempts s"
  "st_max_attempts (failed_stage now jf a re b n s) = st_max_attempts s"
  "st_claimed_by (failed_stage now jf a re b n s) = None"
  "st_lease_expires_at (failed_stage now jf a re b n s) = None"
  by (simp_all add: failed_stage_def)

lemma fail_stageE:
  assumes "fail_stage af now jf i a retryable backoff d = Inr d'"
  obtains s re where "get_stage i d = Some s" "get_run (st_run s) d \<noteq> None"
    "re \<longleftrightarrow> retryable \<and> st_attempts s < st_max_attempts s"
    "re \<longrightarrow> st_status s = SS_Running"
    "t_stages d' = upd_row st_id i (failed_stage now jf a re backoff (st_attempts s)) (t_stages d)"
    "t_attempts d' = upd_first (is_running_attempt i)
       (close_attempt_row now a AS_Failed None (ai_kill_reason a)) (t_attempts d)"
    "t_runs d' = upd_row run_id (st_run s) (\<lambda>x. x\<lparr>run_cost :=
       stage_cost_total (st_run s) (sql_view af (t_stages d) (t_stages d'))\<rparr>) (t_runs d)"
proof -
  from assms obtain s where get: "get_stage i d = Some s"
    by (auto simp: fail_stage_def andthen_Inr_iff)
  then have id: "st_id s = i" by (simp add: stage_tab.fetch_SomeD)
  let ?re = "retryable \<and> st_attempts s < st_max_attempts s"
  let ?close = "close_attempt now s a AS_Failed None (ai_kill_reason a) d"
  define d2 where "d2 = (if ?re
      then upd_stage i (\<lambda>s'. s'\<lparr>st_status := SS_Queued,
             st_available_at := next_available_at now jf (st_attempts s) backoff\<rparr>) ?close
      else upd_stage i (\<lambda>s. s\<lparr>st_status := SS_Failed, st_finished_at := Some now\<rparr>) ?close)"
  from assms get have roll: "rollup_run af (t_stages d) (st_run s) (upd_stage i release_claim d2) = Inr d'"
    and run: "?re \<longrightarrow> st_status s = SS_Running"
    by (auto simp: fail_stage_def andthen_Inr_iff Let_def stage_retry_iff d2_def split: if_splits)
  from roll have ex: "get_run (st_run s) d \<noteq> None"
    by (auto simp: rollup_run_Inr get_run_def upd_stage_def close_attempt_def d2_def split: if_splits)
  have st2: "t_stages (upd_stage i release_claim d2) =
      upd_row st_id i (failed_stage now jf a ?re backoff (st_attempts s)) (t_stages d)"
    by (auto simp: d2_def upd_stage_def close_attempt_def id upd_row_comp o_def failed_stage_def [abs_def])
  have at2: "t_attempts (upd_stage i release_claim d2) = upd_first (is_running_attempt i)
       (close_attempt_row now a AS_Failed None (ai_kill_reason a)) (t_attempts d)"
    and rn2: "t_runs (upd_stage i release_claim d2) = t_runs d"
    by (simp_all add: d2_def upd_stage_def close_attempt_def id)
  from roll have d': "d' = upd_run (st_run s) (\<lambda>x. x\<lparr>run_cost :=
       stage_cost_total (st_run s) (sql_view af (t_stages d) (t_stages (upd_stage i release_claim d2)))\<rparr>)
       (upd_stage i release_claim d2)" by (simp add: rollup_run_Inr)
  have keep: "t_stages (upd_run r g e) = t_stages e" "t_attempts (upd_run r g e) = t_attempts e"
    "t_runs (upd_run r g e) = upd_row run_id r g (t_runs e)" for r g e
    by (simp_all add: upd_run_def)
  show thesis
    by (rule that [OF get ex refl run]) (simp_all only: d' keep st2 at2 rn2)
qed

lemma fail_stage_inv:
  assumes inv: "queue_books debt d" and fl: "fail_stage af now jf i a retryable backoff d = Inr d'"
    and running: "\<exists>s. get_stage i d = Some s \<and> st_status s = SS_Running"
  shows "queue_books debt d'"
  using fl
proof (rule fail_stageE)
  fix s re
  assume get: "get_stage i d = Some s" and re: "re \<longleftrightarrow> retryable \<and> st_attempts s < st_max_attempts s"
    and st: "t_stages d' = upd_row st_id i (failed_stage now jf a re backoff (st_attempts s)) (t_stages d)"
    and at: "t_attempts d' = upd_first (is_running_attempt i)
       (close_attempt_row now a AS_Failed None (ai_kill_reason a)) (t_attempts d)"
  from running get have run: "st_status s = SS_Running" by simp
  show ?thesis
  proof (rule queue_inv_step [OF inv get st])
    show "own_attempts j (t_attempts d') = own_attempts j (t_attempts d)" if "j \<noteq> i" for j
      unfolding at using that by (intro own_upd_first_other) (auto simp: is_running_attempt_def)
    show "stage_ok (debt i) (own_attempts i (t_attempts d')) (failed_stage now jf a re backoff (st_attempts s) s)"
      unfolding at own_upd_first_same [where f = "close_attempt_row now a AS_Failed None (ai_kill_reason a)",
          OF close_row_simps(1)]
      by (rule stage_ok_close [OF queue_inv_get(1) [OF inv get] run, where c = "ai_cost_usd a"])
        (use re in auto)
  qed simp
qed

text \<open>A final failure of a stage that is not running: no attempt is closed, the amount is owed.\<close>

lemma late_failure_inv:
  assumes inv: "queue_books debt d" and fl: "fail_stage af now jf i a retryable backoff d = Inr d'"
    and late: "get_stage i d = Some s" "st_status s \<noteq> SS_Running"
  shows "queue_books (debt(i := debt i + ai_cost_usd a)) d'"
  using fl
proof (rule fail_stageE)
  fix s0 re
  assume get: "get_stage i d = Some s0" and run: "re \<longrightarrow> st_status s0 = SS_Running"
    and st: "t_stages d' = upd_row st_id i (failed_stage now jf a re backoff (st_attempts s0)) (t_stages d)"
    and at: "t_attempts d' = upd_first (is_running_attempt i)
       (close_attempt_row now a AS_Failed None (ai_kill_reason a)) (t_attempts d)"
  from late get run have s0: "s0 = s" and re: "\<not> re" by auto
  have ok: "stage_ok (debt i) (own_attempts i (t_attempts d)) s" by (rule queue_inv_get(1) [OF inv late(1)])
  have none: "upd_first (\<lambda>a. at_status a = AS_Running) f (own_attempts i (t_attempts d)) = own_attempts i (t_attempts d)" for f
    using ok late(2) by (intro upd_first_none) (simp add: stage_ok_def)
  show ?thesis
  proof (rule queue_books_step [OF inv late(1) st [unfolded s0]])
    show "own_attempts j (t_attempts d') = own_attempts j (t_attempts d)" if "j \<noteq> i" for j
      unfolding at using that by (intro own_upd_first_other) (auto simp: is_running_attempt_def)
    show "stage_ok ((debt(i := debt i + ai_cost_usd a)) i) (own_attempts i (t_attempts d'))
        (failed_stage now jf a re backoff (st_attempts s) s)"
      unfolding at own_upd_first_same [where f = "close_attempt_row now a AS_Failed None (ai_kill_reason a)",
          OF close_row_simps(1)] none
      using ok late(2) re by (auto simp: stage_ok_def)
  qed simp_all
qed

lemma reap_stage_simps [simp]:
  "st_id (reap_stage u jf b s) = st_id s" "st_run (reap_stage u jf b s) = st_run s"
  "st_cost (reap_stage u jf b s) = st_cost s" "st_attempts (reap_stage u jf b s) = st_attempts s"
  "st_max_attempts (reap_stage u jf b s) = st_max_attempts s"
  "st_claimed_by (reap_stage u jf b s) = None" "st_lease_expires_at (reap_stage u jf b s) = None"
  "st_status (reap_stage u jf b s) =
     (if st_attempts s < st_max_attempts s then SS_Queued else SS_Failed)"
  by (simp_all add: reap_stage_def)

lemma reap_one_inv:
  assumes inv: "queue_books debt d" and get: "get_stage i d = Some s" and run: "st_status s = SS_Running"
  shows "queue_books debt (reap_one u jf b i d)"
proof (rule queue_inv_step [OF inv get])
  have at: "t_attempts (reap_one u jf b i d) = upd_first (is_running_attempt i) (reap_attempt u) (t_attempts d)"
    by (simp add: reap_one_def upd_stage_def)
  show "t_stages (reap_one u jf b i d) = upd_row st_id i (reap_stage u jf b) (t_stages d)"
    by (simp add: reap_one_def upd_stage_def)
  show "own_attempts j (t_attempts (reap_one u jf b i d)) = own_attempts j (t_attempts d)" if "j \<noteq> i" for j
    unfolding at using that by (intro own_upd_first_other) (auto simp: is_running_attempt_def)
  show "stage_ok (debt i) (own_attempts i (t_attempts (reap_one u jf b i d))) (reap_stage u jf b s)"
    unfolding at own_upd_first_same [where f = "reap_attempt u", OF reap_row_simps(1)]
    by (rule stage_ok_close [OF queue_inv_get(1) [OF inv get] run, where c = 0]) simp_all
qed simp

lemma get_stage_reap_other:
  "i \<noteq> j \<Longrightarrow> get_stage j (reap_one u jf b i d) = get_stage j d"
  by (simp add: reap_one_def upd_stage_def get_stage_def get_row_upd_other)

lemma reap_fold_inv:
  assumes "queue_books debt d" and "distinct is"
    and "\<And>i. i \<in> set is \<Longrightarrow> \<exists>s. get_stage i d = Some s \<and> st_status s = SS_Running"
  shows "queue_books debt (fold (reap_one u jf b) is d)"
  using assms
proof (induction "is" arbitrary: d)
  case Nil
  then show ?case by simp
next
  case (Cons i "is")
  then obtain s where "get_stage i d = Some s" "st_status s = SS_Running" by fastforce
  then have inv1: "queue_books debt (reap_one u jf b i d)" using Cons.prems(1) by (rule reap_one_inv [rotated])
  have rest: "\<exists>s. get_stage j (reap_one u jf b i d) = Some s \<and> st_status s = SS_Running"
    if "j \<in> set is" for j
  proof -
    from Cons.prems(2) that have "i \<noteq> j" by auto
    then show ?thesis using Cons.prems(3) [of j] that by (simp add: get_stage_reap_other)
  qed
  have "queue_books debt (fold (reap_one u jf b) is (reap_one u jf b i d))"
    by (rule Cons.IH [OF inv1 _ rest]) (use Cons.prems(2) in auto)
  then show ?case by simp
qed

lemma distinct_map_filter_key: "distinct (map f xs) \<Longrightarrow> distinct (map f (filter P xs))"
  by (rule distinct_map_filter)

lemma reap_expired_inv:
  assumes inv: "queue_books debt d"
  shows "queue_books debt (fst (reap_expired now u jf b d))"
proof -
  have dist: "distinct (map st_id (t_stages d))" using inv by (simp add: queue_books_def)
  have "queue_books debt (fold (reap_one u jf b) (map st_id (filter (lease_expired now) (t_stages d))) d)"
  proof (rule reap_fold_inv [OF inv])
    show "distinct (map st_id (filter (lease_expired now) (t_stages d)))"
      using dist by (rule distinct_map_filter_key)
    fix i assume "i \<in> set (map st_id (filter (lease_expired now) (t_stages d)))"
    then obtain s where "s \<in> set (t_stages d)" "st_id s = i" "lease_expired now s" by auto
    then show "\<exists>s. get_stage i d = Some s \<and> st_status s = SS_Running"
      using stage_tab.fetch_member [OF dist] by (auto simp: lease_expired_def)
  qed
  then show ?thesis by (simp add: reap_expired_def Let_def)
qed

section \<open>The lease contract\<close>

definition stage_ready :: "db \<Rightarrow> time \<Rightarrow> uuid \<Rightarrow> bool" where
  "stage_ready d now i \<longleftrightarrow> (\<exists>s. get_stage i d = Some s \<and> claimable d now s)"

definition claim_one :: "string \<Rightarrow> rat \<Rightarrow> time \<Rightarrow> db \<Rightarrow> db \<times> uuid option" where
  "claim_one worker lease now d =
     (case claim_stage now [] worker None None lease d of
        Inl e \<Rightarrow> (d, None) | Inr (d', r) \<Rightarrow> (d', map_option st_id r))"

lemma claim_one_Some:
  assumes inv: "queue_inv d" and tk: "claim_one w lease now d = (d', Some i)"
  obtains s where "get_stage i d = Some s" "claimable d now s"
    "t_stages d' = upd_row st_id i (\<lambda>_. mark_claimed now w lease s) (t_stages d)"
    "t_runs d' = t_runs d"
proof -
  from tk obtain s' where c: "claim_stage now [] w None None lease d = Inr (d', Some s')"
    and i: "i = st_id s'"
    by (auto simp: claim_one_def split: sum.splits)
  from c show thesis
  proof (rule claim_stage_Some)
    fix s
    assume s: "s \<in> set (t_stages d)" "claimable d now s" "s' = mark_claimed now w lease s"
      and d': "d' = (upd_stage (st_id s) (\<lambda>_. s') d)\<lparr>t_attempts := t_attempts d @ [new_attempt w s']\<rparr>"
    from s i have id: "i = st_id s" by simp
    have "get_stage (st_id s) d = Some s"
      using inv s(1) by (intro stage_tab.fetch_member) (auto simp: queue_books_def)
    then show thesis
      by (intro that [of s]) (simp_all add: s d' id upd_stage_def)
  qed
qed

lemma dependency_met_claimed:
  assumes "t_stages d' = upd_row st_id i (\<lambda>_. c) (t_stages d)" and "st_status c = SS_Running"
    and "dependency_met d' s"
  shows "dependency_met d s"
proof (cases "st_depends_on_seq s")
  case None
  then show ?thesis by (simp add: dependency_met_def)
next
  case (Some q)
  with assms(3) obtain dep where dep: "dep \<in> set (t_stages d')" "st_run dep = st_run s"
    "st_seq dep = q" "st_status dep \<in> set SATISFIED"
    by (auto simp: dependency_met_def list_ex_iff)
  have "dep \<noteq> c" using dep(4) assms(2) by (auto simp: SATISFIED_def)
  with dep(1) have "dep \<in> set (t_stages d)" unfolding assms(1) by (auto dest: set_upd_rowD)
  with dep Some show ?thesis by (auto simp: dependency_met_def list_ex_iff)
qed

lemma claim_one_inv: "queue_inv d \<Longrightarrow> queue_inv (fst (claim_one w lease t d))"
  by (cases "claim_stage t [] w None None lease d")
    (auto simp: claim_one_def dest: claim_stage_inv)

lemma claim_one_holds:
  assumes inv: "queue_inv d" and tk: "claim_one w lease t d = (d', Some i)"
  shows "\<not> stage_ready d' u i"
  using assms
proof (rule claim_one_Some)
  fix s
  assume get: "get_stage i d = Some s"
    and st: "t_stages d' = upd_row st_id i (\<lambda>_. mark_claimed t w lease s) (t_stages d)"
  from get have id: "st_id s = i" by (simp add: stage_tab.fetch_SomeD)
  show ?thesis
  proof
    assume "stage_ready d' u i"
    then obtain r where "get_stage i d' = Some r" and q: "claimable d' u r"
      by (auto simp: stage_ready_def)
    then have "r \<in> set (t_stages d')" "st_id r = i" by (simp_all add: stage_tab.fetch_SomeD)
    then have "r = mark_claimed t w lease s" unfolding st using id by (auto dest!: set_upd_rowD)
    then show False using q by (simp add: claimable_def mark_claimed_def)
  qed
qed

lemma claim_one_frame:
  assumes inv: "queue_inv d" and tk: "claim_one w lease t d = (d', r)" and rd: "stage_ready d' u j"
  shows "stage_ready d u j"
proof (cases r)
  case None
  then have "d' = d"
    using tk by (cases "claim_stage t [] w None None lease d")
      (auto simp: claim_one_def claim_stage_None_iff)
  with rd show ?thesis by simp
next
  case (Some i)
  with tk have "claim_one w lease t d = (d', Some i)" by simp
  with inv show ?thesis
  proof (rule claim_one_Some)
    fix s
    assume st: "t_stages d' = upd_row st_id i (\<lambda>_. mark_claimed t w lease s) (t_stages d)"
      and rn: "t_runs d' = t_runs d"
    from rd obtain c where c: "get_stage j d' = Some c" "claimable d' u c"
      by (auto simp: stage_ready_def)
    then have mem: "c \<in> set (t_stages d')" and q: "st_status c = SS_Queued" and id: "st_id c = j"
      by (simp_all add: claimable_def stage_tab.fetch_SomeD)
    have "c \<noteq> mark_claimed t w lease s" using q by (auto simp: mark_claimed_def)
    with mem have old: "c \<in> set (t_stages d)" unfolding st by (auto dest: set_upd_rowD)
    have "get_stage j d = Some c"
      using inv id old stage_tab.fetch_member [of d c] by (simp add: queue_books_def)
    moreover have "dependency_met d c"
      by (rule dependency_met_claimed [OF st]) (use c(2) in \<open>simp_all add: mark_claimed_def claimable_def\<close>)
    with c(2) have "claimable d u c" by (simp add: claimable_def get_run_def rn)
    ultimately show ?thesis by (auto simp: stage_ready_def)
  qed
qed

lemma claim_one_progress:
  assumes inv: "queue_inv d" and rd: "stage_ready d t i"
  shows "snd (claim_one w lease t d) \<noteq> None"
proof -
  from rd obtain s where "get_stage i d = Some s" "claimable d t s"
    by (auto simp: stage_ready_def)
  then have "s \<in> set (t_stages d)" "claimable d t s"
    by (simp_all add: stage_tab.fetch_SomeD)
  then have "s \<in> set (claim_candidates d t [] None None)"
    by (simp add: claim_candidates_def wanted_def)
  then have ne: "claim_candidates d t [] None None \<noteq> []" by (metis empty_iff empty_set)
  show ?thesis
  proof (cases "claim_stage t [] w None None lease d")
    case (Inl e)
    with claim_stage_no_error [OF inv] show ?thesis by blast
  next
    case (Inr p)
    then obtain d' r where c: "claim_stage t [] w None None lease d = Inr (d', r)"
      by (cases p) simp
    have "r \<noteq> None"
    proof
      assume "r = None"
      with c have "claim_stage t [] w None None lease d = Inr (d', None)" by simp
      with ne show False by (simp add: claim_stage_None_iff)
    qed
    with c show ?thesis by (simp add: claim_one_def)
  qed
qed

lemma claim_one_ready:
  assumes "queue_inv d" and "claim_one w lease t d = (d', Some i)"
  shows "stage_ready d t i"
  using assms by (rule claim_one_Some) (auto simp: stage_ready_def)

interpretation stage_queue: lease_queue queue_inv stage_ready "claim_one w lease" lease
  for w :: string and lease :: rat
  by (unfold_locales)
    (blast intro: claim_one_inv claim_one_ready claim_one_frame claim_one_holds claim_one_progress
      dest: claim_one_holds claim_one_progress)+

section \<open>A sample queue\<close>

definition sample_run :: run_row where
  "sample_run = \<lparr>run_id = 1, run_coverage = Some 0, run_type = RT_Initiation,
     run_status = RS_Running, run_trigger = ''pm'', run_trigger_ref = None, run_priority = 100,
     run_mutates = True, run_requested_by = None, run_params = [], run_budget_cap = Some 40,
     run_cost = 0, run_summary = None, run_error = None, run_started_at = Some 0,
     run_finished_at = None, run_created_at = 0\<rparr>"

definition sample_stage :: "uuid \<Rightarrow> int \<Rightarrow> string \<Rightarrow> int option \<Rightarrow> stage_row" where
  "sample_stage i sq role dep = \<lparr>st_id = i, st_run = 1, st_seq = sq, st_role = role,
     st_house = ''gpt'', st_substrate = Sub_Harness, st_status = SS_Queued,
     st_depends_on_seq = dep, st_available_at = 0, st_claimed_by = None, st_claimed_at = None,
     st_lease_expires_at = None, st_attempts = 0, st_max_attempts = 2, st_result = None,
     st_cost = 0, st_tokens_in = None, st_tokens_out = None, st_transcript_ref = None,
     st_error = None, st_started_at = None, st_finished_at = None\<rparr>"

definition sample_db :: db where
  "sample_db = empty_db\<lparr>t_runs := [sample_run],
     t_stages := [sample_stage 2 1 ''author'' None, sample_stage 3 2 ''verifier'' (Some 1),
                  sample_stage 4 3 ''monitor'' None],
     next_id := 5\<rparr>"

lemma sample_queue_inv: "queue_inv sample_db"
  by (simp add: queue_books_def sample_db_def sample_stage_def empty_db_def stage_ok_def own_attempts_def)

lemmas sample_simps = sample_db_def sample_stage_def sample_run_def empty_db_def

lemma sample_claim:
  "claim_stage 10 [] ''w1'' None None 300 sample_db =
     (let s' = mark_claimed 10 ''w1'' 300 (sample_stage 2 1 ''author'' None)
      in Inr ((upd_stage 2 (\<lambda>_. s') sample_db)\<lparr>t_attempts := [new_attempt ''w1'' s']\<rparr>, Some s'))"
  by (simp add: sample_simps claim_stage_def claim_candidates_def claimable_def get_run_def
      dependency_met_def SATISFIED_def wanted_def claim_order_def mark_claimed_def
      uq_stage_attempts_def Let_def)

definition sample_running :: db where
  "sample_running = (let s' = mark_claimed 10 ''w1'' 300 (sample_stage 2 1 ''author'' None)
      in (upd_stage 2 (\<lambda>_. s') sample_db)\<lparr>t_attempts := [new_attempt ''w1'' s']\<rparr>)"

lemma sample_running_claim:
  "\<exists>s'. claim_stage 10 [] ''w1'' None None 300 sample_db = Inr (sample_running, Some s')"
  by (simp add: sample_claim sample_running_def Let_def)

lemma sample_running_inv: "queue_inv sample_running"
  using sample_running_claim claim_stage_inv [OF sample_queue_inv] by blast

end
