(* ===== verification/Queue_Properties.thy ===== *)
theory Queue_Properties
  imports Queue_Correct
begin

text \<open>
  The properties of the stage queue: what a claim returns, exclusivity between workers, the
  bookkeeping invariant over all histories, the cost rollup, the reaper, and two gaps of the
  completion path.
\<close>

section \<open>Claims\<close>

text \<open>
  The stages a worker may be given (specs/SPEC-DOMAIN.md 6.3): queued and due, not locked by another
  claim, of a substrate and a house the worker asked for (no list or an empty one asks for all), of a
  running run, and depending on nothing or on a stage of the run that succeeded or was skipped.
\<close>

definition eligible :: "db \<Rightarrow> time \<Rightarrow> uuid list \<Rightarrow> substrate list option \<Rightarrow> string list option \<Rightarrow> stage_row \<Rightarrow> bool" where
  "eligible d now locked subs hs s \<longleftrightarrow>
     st_status s = SS_Queued \<and> st_available_at s \<le> now \<and> st_id s \<notin> set locked \<and>
     (\<forall>xs. subs = Some xs \<longrightarrow> xs = [] \<or> st_substrate s \<in> set xs) \<and>
     (\<forall>xs. hs = Some xs \<longrightarrow> xs = [] \<or> st_house s \<in> set xs) \<and>
     (\<exists>rn. get_run (st_run s) d = Some rn \<and> run_status rn = RS_Running) \<and>
     (\<forall>q. st_depends_on_seq s = Some q \<longrightarrow> (\<exists>dep \<in> set (t_stages d).
        st_run dep = st_run s \<and> st_seq dep = q \<and> st_status dep \<in> {SS_Succeeded, SS_Skipped}))"

lemma set_claim_candidates:
  "set (claim_candidates d now locked subs hs) = {s \<in> set (t_stages d). eligible d now locked subs hs s}"
proof -
  have "claimable d now s \<and> st_id s \<notin> set locked \<and> wanted subs (st_substrate s) \<and> wanted hs (st_house s) \<longleftrightarrow>
      eligible d now locked subs hs s" for s
    unfolding claimable_def eligible_def dependency_met_def SATISFIED_def wanted_def list_ex_iff
    by (cases "get_run (st_run s) d"; cases "st_depends_on_seq s"; cases subs; cases hs) auto
  then show ?thesis by (simp add: claim_candidates_def)
qed

text \<open>
  C14.  A claim hands out a stage exactly when some stage is eligible; it is an eligible one, none
  comes before it in (priority descending, run age, sequence), its row becomes the old one running
  under the worker's lease with one more attempt, that attempt is added, and nothing else changes.
\<close>

theorem claim_stage_exact:
  assumes "claim_stage now locked w subs hs lease d = Inr (d', r)"
  shows "case r of
      None \<Rightarrow> d' = d \<and> (\<forall>s \<in> set (t_stages d). \<not> eligible d now locked subs hs s)
    | Some s' \<Rightarrow> \<exists>s \<in> set (t_stages d). eligible d now locked subs hs s \<and>
        (\<forall>c \<in> set (t_stages d). eligible d now locked subs hs c \<longrightarrow> claim_order d s \<le> claim_order d c) \<and>
        s' = s\<lparr>st_status := SS_Running, st_claimed_by := Some w, st_claimed_at := Some now,
          st_lease_expires_at := Some (now + lease), st_attempts := st_attempts s + 1,
          st_started_at := (case st_started_at s of None \<Rightarrow> Some now | Some t \<Rightarrow> Some t)\<rparr> \<and>
        d' = d\<lparr>t_stages := upd_row st_id (st_id s) (\<lambda>_. s') (t_stages d),
          t_attempts := t_attempts d @ [new_attempt w s']\<rparr>"
proof (cases r)
  case None
  with assms show ?thesis using set_claim_candidates [of d now locked subs hs]
    by (auto simp: claim_stage_None_iff)
next
  case (Some s')
  with assms have "claim_stage now locked w subs hs lease d = Inr (d', Some s')" by simp
  then show ?thesis
  proof (rule claim_stage_Some)
    fix s
    assume s: "s \<in> set (t_stages d)" "claimable d now s" "st_id s \<notin> set locked"
        "wanted subs (st_substrate s)" "wanted hs (st_house s)"
        "\<forall>c \<in> set (claim_candidates d now locked subs hs). claim_order d s \<le> claim_order d c"
        "s' = mark_claimed now w lease s"
      and d': "d' = (upd_stage (st_id s) (\<lambda>_. s') d)\<lparr>t_attempts := t_attempts d @ [new_attempt w s']\<rparr>"
    have "s \<in> set (claim_candidates d now locked subs hs)" using s(1-5) by (simp add: claim_candidates_def)
    then have e: "eligible d now locked subs hs s" by (simp add: set_claim_candidates)
    have "\<forall>c \<in> set (t_stages d). eligible d now locked subs hs c \<longrightarrow> claim_order d s \<le> claim_order d c"
      using s(6) by (simp add: set_claim_candidates)
    with e s(1) have "\<exists>s \<in> set (t_stages d). eligible d now locked subs hs s \<and>
        (\<forall>c \<in> set (t_stages d). eligible d now locked subs hs c \<longrightarrow> claim_order d s \<le> claim_order d c) \<and>
        s' = mark_claimed now w lease s \<and>
        d' = (upd_stage (st_id s) (\<lambda>_. s') d)\<lparr>t_attempts := t_attempts d @ [new_attempt w s']\<rparr>"
      using s(7) d' by blast
    then show ?thesis unfolding Some option.case mark_claimed_def upd_stage_def by simp
  qed
qed

theorem claim_stage_exact_witness:
  "\<exists>s \<in> set (t_stages sample_db). st_status s = SS_Queued \<and> st_available_at s \<le> 10"
proof -
  from sample_running_claim obtain s' where
    "claim_stage 10 [] ''w1'' None None 300 sample_db = Inr (sample_running, Some s')" by blast
  from claim_stage_exact [OF this] show ?thesis by (auto simp: eligible_def)
qed

text \<open>
  C10.  Two workers never get the same stage: neither when the second claims while the first one's
  transaction still holds the row lock and the tables look unclaimed, nor when it claims after the
  first has committed, at whatever time.
\<close>

theorem no_double_claim:
  assumes "queue_inv d"
    and "claim_stage t1 l1 w1 subs1 hs1 lease1 d = Inr (d1, Some s1)"
  shows "(claim_stage t2 (st_id s1 # l2) w2 subs2 hs2 lease2 d = Inr (d2, Some s2) \<longrightarrow>
            st_id s2 \<noteq> st_id s1) \<and>
         (claim_stage t3 l3 w3 subs3 hs3 lease3 d1 = Inr (d3, Some s3) \<longrightarrow> st_id s3 \<noteq> st_id s1)"
proof (intro conjI impI)
  assume "claim_stage t2 (st_id s1 # l2) w2 subs2 hs2 lease2 d = Inr (d2, Some s2)"
  then show "st_id s2 \<noteq> st_id s1" by (rule claim_stage_Some) auto
next
  assume later: "claim_stage t3 l3 w3 subs3 hs3 lease3 d1 = Inr (d3, Some s3)"
  show "st_id s3 \<noteq> st_id s1"
    using assms(2)
  proof (rule claim_stage_Some)
    fix s
    assume s1: "s1 = mark_claimed t1 w1 lease1 s"
      and d1: "d1 = (upd_stage (st_id s) (\<lambda>_. s1) d)\<lparr>t_attempts := t_attempts d @ [new_attempt w1 s1]\<rparr>"
    from later show ?thesis
    proof (rule claim_stage_Some)
      fix c
      assume c: "c \<in> set (t_stages d1)" "claimable d1 t3 c" "s3 = mark_claimed t3 w3 lease3 c"
      have "c \<noteq> s1" using c(2) s1 by (auto simp: claimable_def mark_claimed_def)
      with c(1) have "st_id c \<noteq> st_id s" by (auto simp: d1 upd_stage_def dest!: set_upd_rowD)
      then show ?thesis by (simp add: c(3) s1)
    qed
  qed
qed

lemma sample_second_claim:
  "\<exists>d3 s3. claim_stage 11 [] ''w2'' None None 300 sample_running = Inr (d3, Some s3)"
  by (simp add: sample_running_def sample_simps claim_stage_def claim_candidates_def claimable_def
      get_run_def dependency_met_def SATISFIED_def wanted_def claim_order_def mark_claimed_def
      uq_stage_attempts_def upd_stage_def new_attempt_def Let_def)

theorem no_double_claim_witness:
  "\<exists>s1 d3 s3. claim_stage 10 [] ''w1'' None None 300 sample_db = Inr (sample_running, Some s1) \<and>
     claim_stage 11 [] ''w2'' None None 300 sample_running = Inr (d3, Some s3) \<and> st_id s3 \<noteq> st_id s1"
proof -
  from sample_running_claim obtain s1 where
    one: "claim_stage 10 [] ''w1'' None None 300 sample_db = Inr (sample_running, Some s1)" by blast
  from sample_second_claim obtain d3 s3 where
    two: "claim_stage 11 [] ''w2'' None None 300 sample_running = Inr (d3, Some s3)" by blast
  from no_double_claim [OF sample_queue_inv one] two have "st_id s3 \<noteq> st_id s1" by blast
  with one two show ?thesis by blast
qed

text \<open>
  Any number of workers that claim one after another within one lease of each other are
  handed pairwise different stages, and only stages that were claimable to begin with.
\<close>

theorem claims_pairwise_distinct:
  assumes "queue_inv d" and "take_all (claim_one w lease) ts d = (d', is)"
    and "\<forall>t \<in> set ts. \<forall>u \<in> set ts. u \<le> t + lease"
  shows "distinct is \<and> (\<forall>i \<in> set is. \<exists>t \<in> set ts. stage_ready d t i) \<and> queue_inv d'"
proof (intro conjI ballI)
  show "distinct is"
    by (rule stage_queue.take_all_distinct [OF assms(1,2)]) (use assms(3) in blast)
  show "\<exists>t \<in> set ts. stage_ready d t i" if "i \<in> set is" for i
    by (rule stage_queue.take_all_ready [OF assms(1,2) that])
  show "queue_inv d'"
    using stage_queue.take_all_inv [OF assms(1), of w lease ts] assms(2) by simp
qed

lemma sample_two_claims:
  "snd (take_all (claim_one ''w'' 300) [10, 11] sample_db) = [2, 4]"
  by (simp add: claim_one_def sample_simps claim_stage_def claim_candidates_def claimable_def
      get_run_def dependency_met_def SATISFIED_def wanted_def claim_order_def mark_claimed_def
      uq_stage_attempts_def upd_stage_def new_attempt_def Let_def)

theorem claims_pairwise_distinct_witness: "distinct [2 :: uuid, 4]"
proof -
  obtain d' where "take_all (claim_one ''w'' 300) [10, 11] sample_db = (d', [2, 4])"
    using sample_two_claims by (cases "take_all (claim_one ''w'' 300) [10, 11] sample_db") simp
  from claims_pairwise_distinct [OF sample_queue_inv this] show ?thesis by simp
qed

section \<open>The bookkeeping invariant over all histories\<close>

text \<open>
  The calls of workers that report on the stage they hold, and any call at all: the code accepts a
  failure that is not retried for a stage in whatever status.
\<close>

inductive orderly_step :: "db \<Rightarrow> db \<Rightarrow> bool" where
  claim: "claim_stage now locked w subs hs lease d = Inr (d', r) \<Longrightarrow> orderly_step d d'"
| beat: "orderly_step d (fst (heartbeat now i w lease d))"
| complete: "complete_stage af now i a result d = Inr d' \<Longrightarrow> orderly_step d d'"
| fail: "get_stage i d = Some s \<Longrightarrow> st_status s = SS_Running \<Longrightarrow>
     fail_stage af now jf i a retryable backoff d = Inr d' \<Longrightarrow> orderly_step d d'"
| reap: "orderly_step d (fst (reap_expired now u jitters backoff d))"

inductive queue_step :: "db \<Rightarrow> db \<Rightarrow> bool" where
  orderly: "orderly_step d d' \<Longrightarrow> queue_step d d'"
| failure: "fail_stage af now jf i a retryable backoff d = Inr d' \<Longrightarrow> queue_step d d'"

lemma orderly_step_books: "orderly_step d d' \<Longrightarrow> queue_books debt d \<Longrightarrow> queue_books debt d'"
  by (induction rule: orderly_step.induct)
    (auto intro: claim_stage_inv complete_stage_inv fail_stage_inv heartbeat_inv reap_expired_inv)

lemma orderly_steps_queue: "orderly_step\<^sup>*\<^sup>* d d' \<Longrightarrow> queue_step\<^sup>*\<^sup>* d d'"
  by (induction rule: rtranclp_induct) (auto intro: rtranclp.rtrancl_into_rtrancl queue_step.orderly)

text \<open>A history of calls, with the failures reported for a stage that was not running and their cost.\<close>

inductive queue_history :: "db \<Rightarrow> (uuid \<times> decimal) list \<Rightarrow> db \<Rightarrow> bool" where
  start: "queue_history d [] d"
| orderly: "queue_history d0 late d \<Longrightarrow> orderly_step d d' \<Longrightarrow> queue_history d0 late d'"
| failure: "queue_history d0 late d \<Longrightarrow> get_stage i d = Some s \<Longrightarrow> st_status s \<noteq> SS_Running \<Longrightarrow>
     fail_stage af now jf i a retryable backoff d = Inr d' \<Longrightarrow> queue_history d0 (late @ [(i, ai_cost_usd a)]) d'"

lemma queue_step_history:
  assumes "queue_history d0 late d" and "queue_step d d'"
  shows "\<exists>late'. queue_history d0 late' d'"
  using assms(2)
proof cases
  case orderly
  with assms(1) show ?thesis by (blast intro: queue_history.orderly)
next
  case (failure af now jf i a retryable backoff)
  then obtain s where s: "get_stage i d = Some s" by (auto elim: fail_stageE)
  show ?thesis
  proof (cases "st_status s = SS_Running")
    case True
    with assms(1) s failure show ?thesis by (blast intro: queue_history.orderly orderly_step.fail)
  next
    case False
    with assms(1) s failure show ?thesis by (blast intro: queue_history.failure)
  qed
qed

lemma queue_steps_history: "queue_step\<^sup>*\<^sup>* d0 d \<Longrightarrow> \<exists>late. queue_history d0 late d"
  by (induction rule: rtranclp_induct) (auto intro: queue_history.start dest: queue_step_history)

definition owed :: "(uuid \<times> decimal) list \<Rightarrow> uuid \<Rightarrow> decimal" where
  "owed late i = sum_list (map snd (filter (\<lambda>(j, _). j = i) late))"

lemma owed_append: "owed (late @ [(i, c)]) = (owed late)(i := owed late i + c)"
  by (auto simp: owed_def)

lemma queue_history_books: "queue_history d0 late d \<Longrightarrow> queue_inv d0 \<Longrightarrow> queue_books (owed late) d"
proof (induction rule: queue_history.induct)
  case (start d)
  then show ?case by (simp add: owed_def)
next
  case (orderly d0 late d d')
  then show ?case by (blast intro: orderly_step_books)
next
  case (failure d0 late d i s af now jf a retryable backoff d')
  then show ?case unfolding owed_append by (blast intro: late_failure_inv)
qed

text \<open>
  C9.  Whatever sequence of claims, heartbeats, completions, failures and reapings happens to
  consistent tables, late reports included, every stage has made at most its maximum of attempts, is
  claimed under a lease exactly while it runs, has then exactly one running attempt and otherwise
  none, and numbers its attempts without repetition.  Its cost is what its attempts cost together and
  what failures charged that were reported while it was not running, which the code accepts.
\<close>

theorem queue_bookkeeping:
  assumes "queue_inv d0" and "queue_history d0 late d" and "s \<in> set (t_stages d)"
  defines "own \<equiv> filter (\<lambda>a. at_stage a = st_id s) (t_attempts d)"
  shows "0 \<le> st_attempts s \<and> st_attempts s \<le> st_max_attempts s \<and>
         (st_status s = SS_Running \<longleftrightarrow> st_claimed_by s \<noteq> None) \<and>
         (st_status s = SS_Running \<longleftrightarrow> st_lease_expires_at s \<noteq> None) \<and>
         length (filter (\<lambda>a. at_status a = AS_Running) own) = (if st_status s = SS_Running then 1 else 0) \<and>
         distinct (map at_no own) \<and>
         st_cost s = sum_list (map at_cost own) + sum_list (map snd (filter (\<lambda>(i, _). i = st_id s) late))"
proof -
  from assms(1,2) have "queue_books (owed late) d" by (rule queue_history_books [rotated])
  with assms(3) have "stage_ok (owed late (st_id s)) own s" by (simp add: queue_books_def own_attempts_def own_def)
  then show ?thesis unfolding stage_ok_def owed_def by blast
qed

text \<open>A stage is claimed, completed and then reported failed at a cost of three.\<close>

lemma sample_queue_step: "queue_history sample_db [] sample_running"
  using sample_running_claim by (blast intro: queue_history.intros orderly_step.claim)

section \<open>The cost rollup\<close>

definition cost_inv :: "db \<Rightarrow> bool" where
  "cost_inv d \<longleftrightarrow> (\<forall>r \<in> set (t_runs d). run_cost r = stage_cost_total (run_id r) (t_stages d))"

lemma stage_cost_total_upd:
  assumes "distinct (map st_id ss)" and "get_row st_id i ss = Some s"
    and "\<And>x. st_run (f x) = st_run x" and "\<And>x. st_id (f x) = st_id x"
  shows "stage_cost_total r (upd_row st_id i f ss) =
     stage_cost_total r ss + (if st_run s = r then st_cost (f s) - st_cost s else 0)"
proof -
  have tot: "stage_cost_total r ts = sum_list (map (\<lambda>x. if st_run x = r then st_cost x else 0) ts)" for ts
    by (induction ts) (simp_all add: stage_cost_total_def)
  show ?thesis
    unfolding tot using sum_list_map_upd_row [OF assms(1,2), of "\<lambda>x. if st_run x = r then st_cost x else 0" f]
      assms(3) by simp
qed

lemma cost_inv_close:
  assumes "cost_inv d" and "distinct (map st_id (t_stages d))" and "get_stage i d = Some s"
    and "t_stages d' = upd_row st_id i f (t_stages d)"
    and "\<And>x. st_run (f x) = st_run x" and "\<And>x. st_id (f x) = st_id x"
    and "t_runs d' = upd_row run_id (st_run s)
           (\<lambda>x. x\<lparr>run_cost := stage_cost_total (st_run s) (t_stages d')\<rparr>) (t_runs d)"
  shows "cost_inv d'"
  unfolding cost_inv_def
proof
  fix r' assume "r' \<in> set (t_runs d')"
  then consider (new) "run_id r' = st_run s" "run_cost r' = stage_cost_total (st_run s) (t_stages d')"
    | (old) "r' \<in> set (t_runs d)" "run_id r' \<noteq> st_run s"
    unfolding assms(7) by (auto dest!: set_upd_rowD)
  then show "run_cost r' = stage_cost_total (run_id r') (t_stages d')"
  proof cases
    case new
    then show ?thesis by simp
  next
    case old
    have "stage_cost_total (run_id r') (t_stages d') = stage_cost_total (run_id r') (t_stages d)"
      unfolding assms(4)
      using stage_cost_total_upd [OF assms(2) assms(3) [unfolded get_stage_def] assms(5,6), of "run_id r'"]
        old(2) by simp
    with old assms(1) show ?thesis by (simp add: cost_inv_def)
  qed
qed

text \<open>
  With an autoflushing session, completing or failing a stage keeps every run's cost equal to
  the sum over its stages, failed attempts included.
\<close>

theorem rollup_exact_with_autoflush:
  assumes "cost_inv d" and "queue_inv d"
    and "complete_stage True now i a result d = Inr d' \<or>
         fail_stage True now jf i a retryable backoff d = Inr d'"
  shows "cost_inv d'"
proof -
  have dist: "distinct (map st_id (t_stages d))" using assms(2) by (simp add: queue_books_def)
  from assms(3) show ?thesis
  proof
    assume "complete_stage True now i a result d = Inr d'"
    then show ?thesis
      by (rule complete_stageE)
        (rule cost_inv_close [OF assms(1) dist, where f = "completed_stage now a result"],
          auto simp: sql_view_def)
  next
    assume "fail_stage True now jf i a retryable backoff d = Inr d'"
    then show ?thesis
    proof (rule fail_stageE, goal_cases)
      case (1 s re)
      show ?case
        by (rule cost_inv_close [OF assms(1) dist 1(1) 1(5)]) (use 1(7) in \<open>simp_all add: sql_view_def\<close>)
    qed
  qed
qed

definition sample_attempt :: attempt_in where
  "sample_attempt = (default_attempt_in ''w1'')\<lparr>ai_cost_usd := 3\<rparr>"

lemmas complete_eval_simps =
  sample_running_def sample_simps complete_stage_def close_attempt_def stage_transition_def
  stage_legal_def rollup_run_def require_def get_stage_def get_run_def upd_run_def upd_stage_def
  mark_claimed_def new_attempt_def stage_cost_total_def sql_view_def release_claim_def
  sample_attempt_def default_attempt_in_def stage_ctx_def is_running_attempt_def close_attempt_row_def

lemma sample_complete: "\<exists>d'. complete_stage af 20 2 sample_attempt [] sample_running = Inr d'"
  by (simp add: complete_eval_simps Let_def)

theorem rollup_exact_with_autoflush_witness:
  "\<exists>d'. complete_stage True 20 2 sample_attempt [] sample_running = Inr d' \<and> cost_inv d'"
proof -
  obtain d' where d': "complete_stage True 20 2 sample_attempt [] sample_running = Inr d'"
    using sample_complete by blast
  have "cost_inv sample_running"
    by (simp add: cost_inv_def sample_running_def sample_simps mark_claimed_def upd_stage_def
        stage_cost_total_def Let_def)
  from rollup_exact_with_autoflush [OF this sample_running_inv disjI1 [OF d']] d' show ?thesis by blast
qed

text \<open>
  With the production session factory (\<open>autoflush=False\<close>) the sum is taken over the
  flushed rows, so the run's cost misses exactly the attempt that is being closed.
\<close>

theorem rollup_stale_without_autoflush:
  assumes "queue_inv d" and "complete_stage False now i a result d = Inr d'"
    and "get_stage i d = Some s" and "get_run (st_run s) d' = Some r'"
  shows "run_cost r' = stage_cost_total (st_run s) (t_stages d') - ai_cost_usd a"
  using assms(2)
proof (rule complete_stageE)
  fix s0
  assume get: "get_stage i d = Some s0" and ex: "get_run (st_run s0) d \<noteq> None"
    and st: "t_stages d' = upd_row st_id i (completed_stage now a result) (t_stages d)"
    and rn: "t_runs d' = upd_row run_id (st_run s0) (\<lambda>x. x\<lparr>run_cost :=
       stage_cost_total (st_run s0) (sql_view False (t_stages d) (t_stages d'))\<rparr>) (t_runs d)"
  have s0: "s0 = s" using get assms(3) by simp
  have dist: "distinct (map st_id (t_stages d))" using assms(1) by (simp add: queue_books_def)
  have "stage_cost_total (st_run s) (t_stages d') = stage_cost_total (st_run s) (t_stages d) + ai_cost_usd a"
    unfolding st using stage_cost_total_upd [OF dist assms(3) [unfolded get_stage_def],
        of "completed_stage now a result" "st_run s"] by simp
  moreover have "run_cost r' = stage_cost_total (st_run s) (t_stages d)"
    using assms(4) unfolding get_run_def rn s0
    by (auto simp: get_row_upd_same sql_view_def)
  ultimately show ?thesis by simp
qed

theorem rollup_stale_without_autoflush_witness:
  "\<exists>d' r'. complete_stage False 20 2 sample_attempt [] sample_running = Inr d' \<and>
     get_run 1 d' = Some r' \<and> run_cost r' = stage_cost_total 1 (t_stages d') - 3"
proof -
  obtain d' where d': "complete_stage False 20 2 sample_attempt [] sample_running = Inr d'"
    using sample_complete by blast
  obtain s where s: "get_stage 2 sample_running = Some s" and run: "st_run s = 1"
    by (simp add: complete_eval_simps Let_def)
  obtain r' where r': "get_run 1 d' = Some r'"
    using d' by (auto simp: complete_eval_simps Let_def)
  from rollup_stale_without_autoflush [OF sample_running_inv d' s] run r' d' show ?thesis
    by (simp add: sample_attempt_def)
qed

section \<open>Reaping\<close>

lemma reap_fold_stages:
  "distinct is \<Longrightarrow> t_stages (fold (reap_one u jf b) is d) =
     map (\<lambda>s. if st_id s \<in> set is then reap_stage u jf b s else s) (t_stages d)"
proof (induction "is" arbitrary: d)
  case Nil
  then show ?case by simp
next
  case (Cons i "is")
  have "t_stages (reap_one u jf b i d) = map (\<lambda>s. if st_id s = i then reap_stage u jf b s else s) (t_stages d)"
    by (simp add: reap_one_def upd_stage_def upd_row_def)
  with Cons show ?case by (auto simp: Cons.IH)
qed

lemma reap_fold_frame:
  "fold (reap_one u jf b) is d = d\<lparr>t_stages := t_stages (fold (reap_one u jf b) is d),
     t_attempts := t_attempts (fold (reap_one u jf b) is d)\<rparr>"
proof (induction "is" arbitrary: d)
  case (Cons i "is")
  show ?case using Cons [of "reap_one u jf b i d"] by (simp add: reap_one_def upd_stage_def)
qed simp

lemma upd_first_all:
  "length (filter P xs) \<le> 1 \<Longrightarrow> upd_first P f xs = map (\<lambda>x. if P x then f x else x) xs"
proof (induction xs)
  case (Cons x xs)
  show ?case
  proof (cases "P x")
    case True
    with Cons.prems have "filter P xs = []" by simp
    then have "map (\<lambda>x. if P x then f x else x) xs = xs" by (intro map_idI) (auto simp: filter_empty_conv)
    with True show ?thesis by simp
  qed (use Cons in simp)
qed simp

lemma reap_fold_attempts:
  "distinct is \<Longrightarrow> \<forall>i \<in> set is. length (filter (is_running_attempt i) (t_attempts d)) \<le> 1 \<Longrightarrow>
     t_attempts (fold (reap_one u jf b) is d) =
     map (\<lambda>a. if at_status a = AS_Running \<and> at_stage a \<in> set is then reap_attempt u a else a) (t_attempts d)"
proof (induction "is" arbitrary: d)
  case (Cons i "is")
  let ?r = "\<lambda>a. if is_running_attempt i a then reap_attempt u a else a"
  have at: "t_attempts (reap_one u jf b i d) = map ?r (t_attempts d)"
    using Cons.prems(2) by (simp add: reap_one_def upd_stage_def upd_first_all)
  have "filter (is_running_attempt j) (map ?r as) = filter (is_running_attempt j) as" if "j \<in> set is" for j as
    using that Cons.prems(1) by (induction as) (auto simp: is_running_attempt_def)
  then have "\<forall>j \<in> set is. length (filter (is_running_attempt j) (t_attempts (reap_one u jf b i d))) \<le> 1"
    using Cons.prems(2) by (simp add: at)
  moreover have "distinct is" using Cons.prems(1) by simp
  ultimately have "t_attempts (fold (reap_one u jf b) is (reap_one u jf b i d)) =
      map (\<lambda>a. if at_status a = AS_Running \<and> at_stage a \<in> set is then reap_attempt u a else a) (map ?r (t_attempts d))"
    unfolding at [symmetric] by (intro Cons.IH) auto
  then show ?case by (auto simp: is_running_attempt_def intro!: map_cong)
qed simp

lemma lease_expired_iff:
  "(st_status s = SS_Running \<and> (\<exists>t. st_lease_expires_at s = Some t \<and> t < now)) = lease_expired now s"
  by (auto simp: lease_expired_def split: option.split)

text \<open>
  C25.  The reaper takes back exactly the running stages whose lease lies before now, in table order.
  Each goes back to the queue while it has attempts left, to be due after the backoff for the attempts
  it made, and fails for good otherwise; its claim is released, its running attempt is closed as killed
  by the expired lease, and nothing else in the database changes.  No expired lease remains.
\<close>

theorem reap_exact:
  assumes "queue_inv d" and "reap_expired now u jf b d = (d', ids)"
  defines "expired \<equiv> \<lambda>s. st_status s = SS_Running \<and> (\<exists>t. st_lease_expires_at s = Some t \<and> t < now)"
  shows "ids = map st_id (filter expired (t_stages d)) \<and>
         d' = d\<lparr>t_stages := map (\<lambda>s. if expired s then
             (let again = st_attempts s < st_max_attempts s in s\<lparr>
                st_status := if again then SS_Queued else SS_Failed,
                st_available_at := if again then u + backoff_seconds (st_attempts s) b (jf (st_id s)) else st_available_at s,
                st_finished_at := if again then st_finished_at s else Some u,
                st_claimed_by := None, st_claimed_at := None, st_lease_expires_at := None\<rparr>)
             else s) (t_stages d),
           t_attempts := map (\<lambda>a. if at_status a = AS_Running \<and> at_stage a \<in> set ids then
             a\<lparr>at_status := AS_Failed, at_kill_reason := Some ''lease_expired'', at_finished_at := Some u\<rparr>
             else a) (t_attempts d)\<rparr> \<and>
         filter expired (t_stages d') = [] \<and> queue_inv d'"
proof -
  have ex: "expired = lease_expired now" by (simp add: expired_def lease_expired_iff fun_eq_iff)
  from assms(1) have dist: "distinct (map st_id (t_stages d))" by (simp add: queue_books_def)
  have ids: "ids = map st_id (filter (lease_expired now) (t_stages d))"
    and d': "d' = fold (reap_one u jf b) ids d"
    using assms(2) by (auto simp: reap_expired_def Let_def)
  have mem: "st_id s \<in> set ids \<longleftrightarrow> lease_expired now s" if "s \<in> set (t_stages d)" for s
    using that dist by (auto simp: ids distinct_map inj_on_def)
  have di: "distinct ids" unfolding ids using dist by (rule distinct_map_filter)
  then have st: "t_stages d' = map (\<lambda>s. if lease_expired now s then reap_stage u jf b s else s) (t_stages d)"
    unfolding d' by (simp add: reap_fold_stages mem cong: map_cong)
  have one: "length (filter (is_running_attempt i) (t_attempts d)) \<le> 1" if "i \<in> set ids" for i
  proof -
    from that obtain s where "s \<in> set (t_stages d)" "i = st_id s" by (auto simp: ids)
    with assms(1) have "stage_ok 0 (own_attempts i (t_attempts d)) s" by (simp add: queue_books_def)
    moreover have "filter (is_running_attempt i) xs = filter (\<lambda>a. at_status a = AS_Running) (own_attempts i xs)" for xs
      by (induction xs) (auto simp: is_running_attempt_def own_attempts_def)
    ultimately show ?thesis by (simp add: stage_ok_def)
  qed
  have at: "t_attempts d' = map (\<lambda>a. if at_status a = AS_Running \<and> at_stage a \<in> set ids then reap_attempt u a else a) (t_attempts d)"
    unfolding d' by (rule reap_fold_attempts [OF di]) (use one in blast)
  have "d' = d\<lparr>t_stages := t_stages d', t_attempts := t_attempts d'\<rparr>"
    unfolding d' by (rule reap_fold_frame)
  moreover have "reap_stage u jf b s = (let again = st_attempts s < st_max_attempts s in s\<lparr>
      st_status := if again then SS_Queued else SS_Failed,
      st_available_at := if again then u + backoff_seconds (st_attempts s) b (jf (st_id s)) else st_available_at s,
      st_finished_at := if again then st_finished_at s else Some u,
      st_claimed_by := None, st_claimed_at := None, st_lease_expires_at := None\<rparr>)" for s
    by (simp add: reap_stage_def release_claim_def next_available_at_def)
  moreover have "\<not> lease_expired now (reap_stage u jf b s)" for s
    by (simp add: lease_expired_def)
  then have "filter (lease_expired now) (t_stages d') = []"
    unfolding st by (auto simp: filter_empty_conv)
  moreover have "queue_inv d'" using reap_expired_inv [OF assms(1), of now u jf b] assms(2) by simp
  ultimately show ?thesis unfolding ex st at ids [symmetric] reap_attempt_def by (simp cong: map_cong if_cong)
qed

theorem reap_exact_witness:
  "\<exists>d'. reap_expired 1000 1000 (\<lambda>_. 0) default_policy sample_running = (d', [2]) \<and>
     map (\<lambda>s. (st_id s, st_status s, st_available_at s)) (t_stages d') =
       [(2, SS_Queued, 1030), (3, SS_Queued, 0), (4, SS_Queued, 0)]"
proof -
  obtain d' ids where r: "reap_expired 1000 1000 (\<lambda>_. 0) default_policy sample_running = (d', ids)"
    by (cases "reap_expired 1000 1000 (\<lambda>_. 0) default_policy sample_running")
  have "map st_id (filter (lease_expired 1000) (t_stages sample_running)) = [2]"
    by (simp add: lease_expired_def sample_running_def sample_simps mark_claimed_def upd_stage_def Let_def)
  with reap_exact [OF sample_running_inv r, THEN conjunct1] have ids: "ids = [2]"
    by (simp add: lease_expired_iff)
  have "map (\<lambda>s. (st_id s, st_status s, st_available_at s)) (t_stages d') =
       [(2, SS_Queued, 1030), (3, SS_Queued, 0), (4, SS_Queued, 0)]"
    by (subst reap_exact [OF sample_running_inv r, THEN conjunct2, THEN conjunct1])
      (simp add: sample_running_def sample_simps mark_claimed_def upd_stage_def backoff_seconds_def raw_delay_def
        default_policy_def Let_def)
  with r ids show ?thesis by simp
qed

section \<open>Fencing\<close>

lemma complete_stage_accepts:
  assumes "get_stage i d = Some s" and "st_status s = SS_Running" and "get_run (st_run s) d \<noteq> None"
  shows "\<exists>d'. complete_stage af now i a result d = Inr d'"
proof -
  have "get_run (st_run s) (upd_stage i f (close_attempt now s a x y z d)) \<noteq> None" for f x y z
    using assms(3) by (simp add: get_run_def upd_stage_def close_attempt_def)
  with assms(1,2) show ?thesis
    by (auto simp: complete_stage_def andthen_Inr_iff stage_complete_iff rollup_run_Inr Let_def)
qed

text \<open>
  C32.  A heartbeat is fenced and a completion is not: extending a lease succeeds exactly for the
  worker that holds the running stage, while completing is accepted exactly when the stage is
  running, whoever reports it.  A worker whose lease was reaped can therefore still close the
  attempt of the worker that claimed the stage after it.
\<close>

theorem completion_is_not_fenced:
  assumes "get_stage i d = Some s" and "get_run (st_run s) d \<noteq> None"
  shows "(snd (heartbeat now i w lease d) \<longleftrightarrow> st_status s = SS_Running \<and> st_claimed_by s = Some w) \<and>
         ((\<exists>d'. complete_stage af now i (a\<lparr>ai_worker_id := w\<rparr>) result d = Inr d') \<longleftrightarrow>
            st_status s = SS_Running)"
proof (intro conjI)
  show "snd (heartbeat now i w lease d) \<longleftrightarrow> st_status s = SS_Running \<and> st_claimed_by s = Some w"
    using assms(1) by (auto simp: heartbeat_def)
  show "(\<exists>d'. complete_stage af now i (a\<lparr>ai_worker_id := w\<rparr>) result d = Inr d') \<longleftrightarrow> st_status s = SS_Running"
    using complete_stage_accepts [OF assms(1) _ assms(2)] complete_stageE assms(1)
    by (metis option.inject)
qed

theorem completion_is_not_fenced_witness:
  "\<not> snd (heartbeat 20 2 ''stale'' 300 sample_running) \<and>
   (\<exists>d'. complete_stage True 20 2 (sample_attempt\<lparr>ai_worker_id := ''stale''\<rparr>) [] sample_running = Inr d')"
proof -
  obtain s where s: "get_stage 2 sample_running = Some s" and eq: "st_status s = SS_Running"
      "st_claimed_by s = Some ''w1''" "st_run s = 1"
    by (simp add: complete_eval_simps Let_def)
  have run: "get_run (st_run s) sample_running \<noteq> None"
    using eq by (simp add: complete_eval_simps Let_def)
  show ?thesis
    using completion_is_not_fenced [OF s run, of 20 "''stale''" 300 True sample_attempt "[]"] eq by simp
qed

text \<open>
  The terminal branch of a failure bypasses the stage machine: a non-retryable failure is
  accepted for a stage in any status and leaves it failed, so a late report turns a stage that has
  already succeeded into a failed one although the machine accepts no action from succeeded.
\<close>

theorem terminal_failure_bypasses_machine:
  assumes "get_stage i d = Some s" and "get_run (st_run s) d \<noteq> None"
  shows "\<exists>d' s'. fail_stage af now jf i a False b d = Inr d' \<and> get_stage i d' = Some s' \<and>
                 st_status s' = SS_Failed"
proof -
  have "get_run (st_run s) (upd_stage i g (upd_stage i f (close_attempt now s a x y z d))) \<noteq> None" for f g x y z
    using assms(2) by (simp add: get_run_def upd_stage_def close_attempt_def)
  then obtain d' where d': "fail_stage af now jf i a False b d = Inr d'"
    using assms(1) by (auto simp: fail_stage_def andthen_Inr_iff rollup_run_Inr Let_def)
  moreover from d' have "\<exists>s'. get_stage i d' = Some s' \<and> st_status s' = SS_Failed"
  proof (rule fail_stageE)
    fix s0 re
    assume get: "get_stage i d = Some s0"
      and re: "re \<longleftrightarrow> False \<and> st_attempts s0 < st_max_attempts s0"
      and st: "t_stages d' = upd_row st_id i (failed_stage now jf a re b (st_attempts s0)) (t_stages d)"
    have "get_stage i d' = map_option (failed_stage now jf a re b (st_attempts s0)) (get_stage i d)"
      by (simp add: get_stage_def st get_row_upd_same)
    with get re show ?thesis by simp
  qed
  ultimately show ?thesis by blast
qed

definition sample_done :: db where
  "sample_done = upd_stage 2 (\<lambda>s. s\<lparr>st_status := SS_Succeeded\<rparr>) sample_db"

lemma sample_late_failure:
  "\<exists>d1 d2. complete_stage True 20 2 (sample_attempt\<lparr>ai_cost_usd := 5\<rparr>) [] sample_running = Inr d1 \<and>
     fail_stage True 30 0 2 sample_attempt False default_policy d1 = Inr d2 \<and>
     (\<exists>s. get_stage 2 d1 = Some s \<and> st_status s \<noteq> SS_Running) \<and> (\<exists>s \<in> set (t_stages d2). st_id s = 2 \<and> st_status s = SS_Failed)"
  by (simp add: complete_eval_simps fail_stage_def Let_def)

theorem queue_bookkeeping_witness:
  "\<exists>d s. queue_history sample_db [(2, 3)] d \<and> s \<in> set (t_stages d) \<and> st_id s = 2 \<and> st_status s = SS_Failed \<and>
     st_cost s = sum_list (map at_cost (filter (\<lambda>a. at_stage a = 2) (t_attempts d))) + 3"
proof -
  obtain d1 d2 s1 s where c: "complete_stage True 20 2 (sample_attempt\<lparr>ai_cost_usd := 5\<rparr>) [] sample_running = Inr d1"
    and f: "fail_stage True 30 0 2 sample_attempt False default_policy d1 = Inr d2"
    and s1: "get_stage 2 d1 = Some s1" "st_status s1 \<noteq> SS_Running"
    and s: "s \<in> set (t_stages d2)" "st_id s = 2" "st_status s = SS_Failed"
    using sample_late_failure by blast
  have "queue_history sample_db [] d1"
    using sample_queue_step c by (blast intro: queue_history.orderly orderly_step.complete)
  from queue_history.failure [OF this s1 f] have h: "queue_history sample_db [(2, 3)] d2"
    by (simp add: sample_attempt_def)
  from queue_bookkeeping [OF sample_queue_inv h s(1)] have
    "st_cost s = sum_list (map at_cost (filter (\<lambda>a. at_stage a = 2) (t_attempts d2))) + 3" by (simp add: s(2))
  with h s show ?thesis by blast
qed

theorem terminal_failure_bypasses_machine_witness:
  "\<exists>s d' s'. get_stage 2 sample_done = Some s \<and> st_status s = SS_Succeeded \<and>
     fail_stage True 20 0 2 sample_attempt False default_policy sample_done = Inr d' \<and>
     get_stage 2 d' = Some s' \<and> st_status s' = SS_Failed"
proof -
  have "\<exists>s. get_stage 2 sample_done = Some s \<and> st_status s = SS_Succeeded \<and> get_run (st_run s) sample_done \<noteq> None"
    by (simp add: sample_done_def complete_eval_simps Let_def)
  then obtain s where s: "get_stage 2 sample_done = Some s" "st_status s = SS_Succeeded"
    "get_run (st_run s) sample_done \<noteq> None" by blast
  from terminal_failure_bypasses_machine [OF s(1,3)] s show ?thesis by blast
qed

end
