(* ===== verification/Keyed_Log.thy ===== *)
theory Keyed_Log
  imports Schema
begin

text \<open>
  The contract of the append-only tables with a unique idempotency key (outbox events, monitor
  events, predictions): inserting under a key that is present changes nothing, inserting under a
  new key appends one row with that key.  It follows that the keys stay unique, that no row is lost
  or changed, and that replaying any sequence of inserts adds nothing.
\<close>

locale keyed_log =
  fixes inv :: "'d \<Rightarrow> bool"
    and rows :: "'d \<Rightarrow> 'r list"
    and row_key :: "'r \<Rightarrow> string"
    and ins :: "'a \<Rightarrow> 'd \<Rightarrow> 'd"
    and arg_key :: "'a \<Rightarrow> string"
  assumes ins_inv: "inv d \<Longrightarrow> inv (ins a d)"
    and ins_present: "inv d \<Longrightarrow> arg_key a \<in> row_key ` set (rows d) \<Longrightarrow> ins a d = d"
    and ins_absent: "inv d \<Longrightarrow> arg_key a \<notin> row_key ` set (rows d) \<Longrightarrow>
      \<exists>r. row_key r = arg_key a \<and> rows (ins a d) = rows d @ [r]"
begin

lemma ins_keys: "inv d \<Longrightarrow> row_key ` set (rows (ins a d)) = insert (arg_key a) (row_key ` set (rows d))"
proof (cases "arg_key a \<in> row_key ` set (rows d)")
  case True
  moreover assume "inv d"
  ultimately show ?thesis using ins_present [of d a] by auto
next
  case False
  moreover assume "inv d"
  ultimately obtain r where "row_key r = arg_key a" "rows (ins a d) = rows d @ [r]"
    using ins_absent by blast
  then show ?thesis by auto
qed

lemma fold_inv: "inv d \<Longrightarrow> inv (fold ins as d)"
  by (induction as arbitrary: d) (simp_all add: ins_inv)

lemma fold_keys: "inv d \<Longrightarrow> row_key ` set (rows (fold ins as d)) = arg_key ` set as \<union> row_key ` set (rows d)"
  by (induction as arbitrary: d) (auto simp: ins_keys ins_inv)

lemma fold_distinct:
  "inv d \<Longrightarrow> distinct (map row_key (rows d)) \<Longrightarrow> distinct (map row_key (rows (fold ins as d)))"
proof (induction as arbitrary: d)
  case Nil
  then show ?case by simp
next
  case (Cons a as)
  have "distinct (map row_key (rows (ins a d)))"
  proof (cases "arg_key a \<in> row_key ` set (rows d)")
    case True
    with Cons.prems show ?thesis by (simp add: ins_present)
  next
    case False
    with Cons.prems(1) obtain r where "row_key r = arg_key a" "rows (ins a d) = rows d @ [r]"
      using ins_absent by blast
    with False Cons.prems(2) show ?thesis by auto
  qed
  with Cons show ?case by (simp add: ins_inv)
qed

lemma fold_extends: "inv d \<Longrightarrow> \<exists>new. rows (fold ins as d) = rows d @ new"
proof (induction as arbitrary: d)
  case Nil
  then show ?case by simp
next
  case (Cons a as)
  from Cons.prems have "\<exists>new. rows (ins a d) = rows d @ new"
    using ins_present [of d a] ins_absent [of d a] by (cases "arg_key a \<in> row_key ` set (rows d)") auto
  moreover have "\<exists>new. rows (fold ins as (ins a d)) = rows (ins a d) @ new"
    by (rule Cons.IH) (simp add: ins_inv Cons.prems)
  ultimately show ?case by auto
qed

lemma fold_all_present:
  "inv d \<Longrightarrow> arg_key ` set as \<subseteq> row_key ` set (rows d) \<Longrightarrow> fold ins as d = d"
  by (induction as) (simp_all add: ins_present)

lemma replay: "inv d \<Longrightarrow> fold ins as (fold ins as d) = fold ins as d"
  by (rule fold_all_present) (auto simp: fold_inv fold_keys)

end

end
