(* ===== verification/Outbox.thy ===== *)
theory Outbox
  imports Keyed_Log Lease "HOL-Library.Multiset"
begin

text \<open>
  \<open>core/db/repo/outbox.py\<close>: the transactional outbox.  \<open>publish\<close> is idempotent in its
  dedupe key, \<open>consume\<close> leases a batch of due events, \<open>ack\<close> delivers and \<open>nack\<close> puts an
  event back with a delay.  \<open>locked\<close> are the rows other transactions hold locks on.
  \<open>outbox_inv\<close> is the table's invariant; publishing is the \<open>keyed_log\<close> contract and consuming
  one event at a time the \<open>lease_queue\<close> contract.
\<close>

section \<open>Operations\<close>

definition has_outbox_key :: "string \<Rightarrow> db \<Rightarrow> bool" where
  "has_outbox_key k d \<longleftrightarrow> list_ex (\<lambda>r. ob_dedupe_key r = k) (t_outbox d)"

definition publish ::
  "time \<Rightarrow> string \<Rightarrow> json_obj \<Rightarrow> uuid option \<Rightarrow> uuid option \<Rightarrow> string \<Rightarrow> db \<Rightarrow> db" where
  "publish now kind payload coverage_id run dedupe_key d =
     (if has_outbox_key dedupe_key d then d
      else (new_id d)\<lparr>t_outbox := t_outbox d @ [\<lparr>ob_id = next_id d, ob_kind = kind,
             ob_coverage = coverage_id, ob_run = run, ob_payload = payload,
             ob_dedupe_key = dedupe_key, ob_available_at = now, ob_claimed_by = None,
             ob_lease_expires_at = None, ob_attempts = 0, ob_delivered_at = None,
             ob_last_error = None\<rparr>]\<rparr>)"

definition consumable :: "time \<Rightarrow> outbox_row \<Rightarrow> bool" where
  "consumable now r \<longleftrightarrow> ob_delivered_at r = None \<and> ob_available_at r \<le> now \<and>
     (case ob_lease_expires_at r of None \<Rightarrow> True | Some t \<Rightarrow> t < now)"

definition lease_event :: "time \<Rightarrow> string \<Rightarrow> rat \<Rightarrow> outbox_row \<Rightarrow> outbox_row" where
  "lease_event now worker_id lease_seconds r = r\<lparr>ob_claimed_by := Some worker_id,
     ob_lease_expires_at := Some (now + lease_seconds), ob_attempts := ob_attempts r + 1\<rparr>"

definition consume_batch :: "time \<Rightarrow> uuid list \<Rightarrow> nat \<Rightarrow> db \<Rightarrow> outbox_row list" where
  "consume_batch now locked limit d =
     take limit (sort_key ob_available_at
       (filter (\<lambda>r. consumable now r \<and> ob_id r \<notin> set locked) (t_outbox d)))"

definition consume ::
  "time \<Rightarrow> uuid list \<Rightarrow> string \<Rightarrow> nat \<Rightarrow> rat \<Rightarrow> db \<Rightarrow> db \<times> outbox_row list" where
  "consume now locked worker_id limit lease_seconds d =
     (let rows = consume_batch now locked limit d
      in (fold (\<lambda>i. upd_outbox i (lease_event now worker_id lease_seconds)) (map ob_id rows) d,
          map (lease_event now worker_id lease_seconds) rows))"

definition ack :: "time \<Rightarrow> uuid \<Rightarrow> db \<Rightarrow> error + db" where
  "ack now event_id d =
     andthen (require AttributeError (get_outbox event_id d)) (\<lambda>_.
     Inr (upd_outbox event_id (\<lambda>e. e\<lparr>ob_delivered_at := Some now, ob_claimed_by := None,
            ob_lease_expires_at := None\<rparr>) d))"

definition nack :: "time \<Rightarrow> uuid \<Rightarrow> string \<Rightarrow> rat \<Rightarrow> db \<Rightarrow> error + db" where
  "nack now event_id err delay d =
     andthen (require AttributeError (get_outbox event_id d)) (\<lambda>_.
     Inr (upd_outbox event_id (\<lambda>e. e\<lparr>ob_last_error := Some err, ob_available_at := now + delay,
            ob_claimed_by := None, ob_lease_expires_at := None\<rparr>) d))"

definition pending_exists :: "db \<Rightarrow> bool" where
  "pending_exists d \<longleftrightarrow> list_ex (\<lambda>r. ob_delivered_at r = None) (t_outbox d)"

section \<open>The invariant\<close>

definition outbox_row_ok :: "outbox_row \<Rightarrow> bool" where
  "outbox_row_ok r \<longleftrightarrow> (ob_claimed_by r \<noteq> None \<longleftrightarrow> ob_lease_expires_at r \<noteq> None) \<and>
     (ob_delivered_at r \<noteq> None \<longrightarrow> ob_lease_expires_at r = None) \<and> 0 \<le> ob_attempts r"

definition outbox_inv :: "db \<Rightarrow> bool" where
  "outbox_inv d \<longleftrightarrow> keys_ok ob_id (t_outbox d) (next_id d) \<and>
     distinct (map ob_dedupe_key (t_outbox d)) \<and> list_all outbox_row_ok (t_outbox d)"

lemma lease_event_simps [simp]:
  "ob_id (lease_event t w l r) = ob_id r" "ob_dedupe_key (lease_event t w l r) = ob_dedupe_key r"
  "ob_lease_expires_at (lease_event t w l r) = Some (t + l)"
  "ob_claimed_by (lease_event t w l r) = Some w" "ob_attempts (lease_event t w l r) = ob_attempts r + 1"
  "ob_delivered_at (lease_event t w l r) = ob_delivered_at r"
  "ob_available_at (lease_event t w l r) = ob_available_at r"
  "ob_kind (lease_event t w l r) = ob_kind r" "ob_payload (lease_event t w l r) = ob_payload r"
  by (simp_all add: lease_event_def)

lemma outbox_inv_upd:
  assumes "outbox_inv d" and "\<And>r. ob_id (f r) = ob_id r" and "\<And>r. ob_dedupe_key (f r) = ob_dedupe_key r"
    and "\<And>r. outbox_row_ok r \<Longrightarrow> ob_id r = i \<Longrightarrow> r \<in> set (t_outbox d) \<Longrightarrow> outbox_row_ok (f r)"
  shows "outbox_inv (upd_outbox i f d)"
  using assms(1,4)
  by (auto simp: outbox_inv_def upd_outbox_def keys_ok_upd assms(2,3) map_upd_row_frame list_all_iff
      set_upd_row)

lemma publish_inv: "outbox_inv d \<Longrightarrow> outbox_inv (publish t k p c r key d)"
  by (auto simp: outbox_inv_def publish_def new_id_def has_outbox_key_def list_ex_iff keys_ok_append
      outbox_row_ok_def)

lemma ack_inv: "outbox_inv d \<Longrightarrow> ack t i d = Inr d' \<Longrightarrow> outbox_inv d'"
  by (auto simp: ack_def andthen_Inr_iff outbox_row_ok_def intro!: outbox_inv_upd)

lemma nack_inv: "outbox_inv d \<Longrightarrow> nack t i e b d = Inr d' \<Longrightarrow> outbox_inv d'"
  by (auto simp: nack_def andthen_Inr_iff outbox_row_ok_def intro!: outbox_inv_upd)

text \<open>What \<open>consume\<close> does to the table.\<close>

lemma set_consume_batch:
  "set (consume_batch t locked n d) \<subseteq>
     {r \<in> set (t_outbox d). consumable t r \<and> ob_id r \<notin> set locked}"
  unfolding consume_batch_def by (auto dest: in_set_takeD)

lemma distinct_consume_batch:
  assumes "distinct (map ob_id (t_outbox d))"
  shows "distinct (map ob_id (consume_batch t locked n d))"
proof -
  let ?c = "filter (\<lambda>r. consumable t r \<and> ob_id r \<notin> set locked) (t_outbox d)"
  have "distinct (map ob_id ?c)" using assms by (rule distinct_map_filter)
  moreover have "mset (map ob_id (sort_key ob_available_at ?c)) = mset (map ob_id ?c)" by simp
  ultimately have "distinct (map ob_id (sort_key ob_available_at ?c))"
    using mset_eq_imp_distinct_iff by blast
  then show ?thesis by (simp add: consume_batch_def take_map [symmetric] distinct_take)
qed

lemma fold_upd_outbox:
  "fold (\<lambda>i. upd_outbox i f) is d = d\<lparr>t_outbox := fold (\<lambda>i. upd_row ob_id i f) is (t_outbox d)\<rparr>"
  by (induction "is" arbitrary: d) (simp_all add: upd_outbox_def)

lemma consume_rows:
  assumes "distinct (map ob_id (t_outbox d))" and "consume t locked w n lease d = (d', rs)"
  shows "d' = d\<lparr>t_outbox := map (\<lambda>r. if r \<in> set (consume_batch t locked n d)
           then lease_event t w lease r else r) (t_outbox d)\<rparr>"
proof -
  let ?b = "consume_batch t locked n d"
  have "ob_id r \<in> ob_id ` set ?b \<longleftrightarrow> r \<in> set ?b" if "r \<in> set (t_outbox d)" for r
  proof
    assume "ob_id r \<in> ob_id ` set ?b"
    then obtain b where b: "b \<in> set ?b" "ob_id b = ob_id r" by auto
    then have "b \<in> set (t_outbox d)" using set_consume_batch by fastforce
    with b that assms(1) have "b = r" by (metis outbox_tab.fetch_member option.inject)
    with b show "r \<in> set ?b" by simp
  qed simp
  then have "map (\<lambda>r. if ob_id r \<in> set (map ob_id ?b) then lease_event t w lease r else r) (t_outbox d) =
      map (\<lambda>r. if r \<in> set ?b then lease_event t w lease r else r) (t_outbox d)"
    by (intro map_cong) auto
  with assms(2) show ?thesis
    using fold_upd_row [OF distinct_consume_batch [OF assms(1)], of ob_id "lease_event t w lease" t locked n]
    by (auto simp: consume_def Let_def fold_upd_outbox)
qed

lemma consume_inv:
  assumes "outbox_inv d"
  shows "outbox_inv (fst (consume t locked w n lease d))"
proof -
  obtain d' rs where c: "consume t locked w n lease d = (d', rs)"
    by (cases "consume t locked w n lease d")
  have "distinct (map ob_id (t_outbox d))" using assms by (simp add: outbox_inv_def keys_ok_def)
  note d' = consume_rows [OF this c]
  have ids: "map ob_id (t_outbox d') = map ob_id (t_outbox d)"
    and keys: "map ob_dedupe_key (t_outbox d') = map ob_dedupe_key (t_outbox d)"
    by (simp_all add: d')
  have "fresh_in ob_id k (t_outbox d') \<longleftrightarrow> fresh_in ob_id k (t_outbox d)" for k
  proof -
    have "fresh_in ob_id k rs \<longleftrightarrow> (\<forall>i \<in> set (map ob_id rs). i < k)" for rs :: "outbox_row list"
      by (simp add: fresh_in_def)
    then show ?thesis by (simp only: ids)
  qed
  moreover have "list_all outbox_row_ok (t_outbox d')"
  proof -
    have "outbox_row_ok (lease_event t w lease r)" if "r \<in> set (consume_batch t locked n d)" for r
    proof -
      from that set_consume_batch have "r \<in> set (t_outbox d)" "consumable t r" by fastforce+
      with assms show ?thesis by (auto simp: outbox_inv_def outbox_row_ok_def list_all_iff consumable_def)
    qed
    with assms show ?thesis by (auto simp: d' outbox_inv_def list_all_iff)
  qed
  ultimately have "outbox_inv d'"
    using assms unfolding outbox_inv_def keys_ok_def ids keys by (simp add: d')
  with c show ?thesis by simp
qed

section \<open>The contracts\<close>

definition outbox_ready :: "db \<Rightarrow> time \<Rightarrow> uuid \<Rightarrow> bool" where
  "outbox_ready d now i \<longleftrightarrow> (\<exists>r. get_outbox i d = Some r \<and> consumable now r)"

definition consume_one :: "string \<Rightarrow> rat \<Rightarrow> time \<Rightarrow> db \<Rightarrow> db \<times> uuid option" where
  "consume_one worker lease now d =
     (case consume now [] worker 1 lease d of (d', rs) \<Rightarrow>
        (d', (case rs of [] \<Rightarrow> None | r # _ \<Rightarrow> Some (ob_id r))))"

lemma outbox_ready_iff:
  "outbox_inv d \<Longrightarrow> outbox_ready d t i \<longleftrightarrow> (\<exists>r \<in> set (t_outbox d). ob_id r = i \<and> consumable t r)"
  using outbox_tab.fetch_member [of d] outbox_tab.fetch_SomeD [of i d]
  by (fastforce simp: outbox_ready_def outbox_inv_def keys_ok_def)

lemma consume_oneE:
  assumes "outbox_inv d" and "consume_one w lease t d = (d', r)"
  obtains (none) "r = None" "d' = d" "\<forall>x \<in> set (t_outbox d). \<not> consumable t x"
  | (some) x where "r = Some (ob_id x)" "x \<in> set (t_outbox d)" "consumable t x"
      "t_outbox d' = map (\<lambda>y. if y = x then lease_event t w lease y else y) (t_outbox d)"
proof -
  have dist: "distinct (map ob_id (t_outbox d))" using assms(1) by (simp add: outbox_inv_def keys_ok_def)
  obtain d1 rs where c: "consume t [] w 1 lease d = (d1, rs)" by (cases "consume t [] w 1 lease d")
  with assms(2) have d1: "d1 = d'" and r: "r = (case rs of [] \<Rightarrow> None | x # _ \<Rightarrow> Some (ob_id x))"
    by (auto simp: consume_one_def)
  let ?b = "consume_batch t [] 1 d"
  let ?due = "sort_key ob_available_at (filter (consumable t) (t_outbox d))"
  from c have rs: "rs = map (lease_event t w lease) ?b" by (auto simp: consume_def Let_def)
  have b: "?b = take 1 ?due" by (simp add: consume_batch_def)
  note st = consume_rows [OF dist c]
  show thesis
  proof (cases "?due")
    case Nil
    then have "filter (consumable t) (t_outbox d) = []" by (metis set_empty set_sort)
    with Nil st rs r d1 b show thesis by (intro none) (auto simp: filter_empty_conv)
  next
    case (Cons x xs)
    then have bx: "?b = [x]" using b by simp
    then have "x \<in> set (t_outbox d)" "consumable t x" using set_consume_batch [of t "[]" 1 d] by auto
    with bx st rs r d1 show thesis by (intro some [of x]) auto
  qed
qed

lemma consume_one_inv: "outbox_inv d \<Longrightarrow> outbox_inv (fst (consume_one w lease t d))"
  using consume_inv [of d t "[]" w 1 lease] by (simp add: consume_one_def case_prod_unfold)

lemma consume_one_ready:
  assumes "outbox_inv d" and "consume_one w lease t d = (d', Some i)"
  shows "outbox_ready d t i"
  using assms by (cases rule: consume_oneE) (auto simp: outbox_ready_iff [OF assms(1)])

lemma consume_one_holds:
  assumes inv: "outbox_inv d" and c: "consume_one w lease t d = (d', Some i)" and u: "u \<le> t + lease"
  shows "\<not> outbox_ready d' u i"
  using inv c
proof (cases rule: consume_oneE)
  case none
  then show ?thesis by simp
next
  case (some x)
  have "outbox_inv d'" using consume_one_inv [OF inv, of w lease t] c by simp
  moreover have "y = x" if "y \<in> set (t_outbox d)" "ob_id y = ob_id x" for y
    using that some inv by (metis outbox_inv_def keys_ok_def outbox_tab.fetch_member option.inject)
  ultimately show ?thesis
    using some u by (auto simp: outbox_ready_iff consumable_def)
qed

lemma consume_one_frame:
  assumes inv: "outbox_inv d" and c: "consume_one w lease t d = (d', r)" and "r \<noteq> Some j"
    and "outbox_ready d' u j"
  shows "outbox_ready d u j"
  using inv c
proof (cases rule: consume_oneE)
  case none
  with assms show ?thesis by simp
next
  case (some x)
  have "outbox_inv d'" using consume_one_inv [OF inv, of w lease t] c by simp
  with assms(3,4) some inv show ?thesis by (auto simp: outbox_ready_iff split: if_splits)
qed

lemma consume_one_progress:
  assumes inv: "outbox_inv d" and "outbox_ready d t i"
  shows "snd (consume_one w lease t d) \<noteq> None"
proof -
  obtain d' r where c: "consume_one w lease t d = (d', r)" by (cases "consume_one w lease t d")
  from inv c assms(2) show ?thesis
    by (cases rule: consume_oneE) (auto simp: outbox_ready_iff [OF inv] c)
qed

interpretation outbox_queue: lease_queue outbox_inv outbox_ready "consume_one w lease" lease
  for w :: string and lease :: rat
  by unfold_locales
    (blast intro: consume_one_inv consume_one_ready consume_one_frame
      dest: consume_one_holds consume_one_progress)+

type_synonym outbox_msg = "time \<times> string \<times> json_obj \<times> uuid option \<times> uuid option \<times> string"

definition publish_msg :: "outbox_msg \<Rightarrow> db \<Rightarrow> db" where
  "publish_msg = (\<lambda>(now, kind, payload, c, r, key). publish now kind payload c r key)"

definition msg_key :: "outbox_msg \<Rightarrow> string" where
  "msg_key = (\<lambda>(_, _, _, _, _, key). key)"

lemma publish_msg_inv: "outbox_inv d \<Longrightarrow> outbox_inv (publish_msg m d)"
  by (simp add: publish_msg_def publish_inv split: prod.splits)

interpretation outbox_log: keyed_log outbox_inv t_outbox ob_dedupe_key publish_msg msg_key
  by (unfold_locales, erule publish_msg_inv)
    (auto simp: publish_msg_def msg_key_def publish_def has_outbox_key_def list_ex_iff
      new_id_def split: prod.splits)

section \<open>Properties\<close>

definition sample_msg :: "string \<Rightarrow> outbox_msg" where
  "sample_msg k = (5, ''run.started'', [], None, None, k)"

definition sample_outbox :: db where
  "sample_outbox = fold publish_msg [sample_msg ''a'', sample_msg ''b'', sample_msg ''a''] empty_db"

lemma empty_outbox_inv: "outbox_inv empty_db"
  by (simp add: outbox_inv_def empty_db_def keys_ok_def fresh_in_def)

lemma sample_outbox_inv: "outbox_inv sample_outbox"
  unfolding sample_outbox_def by (rule outbox_log.fold_inv [OF empty_outbox_inv])

lemmas outbox_eval_simps =
  sample_outbox_def sample_msg_def publish_msg_def publish_def has_outbox_key_def new_id_def empty_db_def
  consume_def consume_batch_def consumable_def upd_outbox_def lease_event_def Let_def

text \<open>
  C18.  Publishing is exactly-once per dedupe key: after any sequence of publishes the old rows are
  there unchanged, the keys are exactly the old ones and the published ones, each on one row, and
  publishing the whole sequence again changes nothing.
\<close>

theorem publish_exactly_once:
  assumes "outbox_inv d"
  shows "(\<exists>new. t_outbox (fold publish_msg ms d) = t_outbox d @ new) \<and>
         ob_dedupe_key ` set (t_outbox (fold publish_msg ms d)) =
           msg_key ` set ms \<union> ob_dedupe_key ` set (t_outbox d) \<and>
         distinct (map ob_dedupe_key (t_outbox (fold publish_msg ms d))) \<and>
         fold publish_msg ms (fold publish_msg ms d) = fold publish_msg ms d"
  using assms outbox_log.fold_extends outbox_log.fold_keys outbox_log.fold_distinct outbox_log.replay
  by (auto simp: outbox_inv_def)

theorem publish_exactly_once_witness:
  "map ob_dedupe_key (t_outbox sample_outbox) = [''a'', ''b''] \<and>
   fold publish_msg [sample_msg ''a'', sample_msg ''b'', sample_msg ''a''] sample_outbox = sample_outbox"
  using publish_exactly_once [OF empty_outbox_inv, of "[sample_msg ''a'', sample_msg ''b'', sample_msg ''a'']"]
  by (simp add: sample_outbox_def) (simp add: outbox_eval_simps)

text \<open>
  C26.  A consumer gets at most its limit, each event once, each of them due; a second consumer gets
  none of them, neither while the first one's transaction is open (its rows are locked) nor until
  the lease has run out; and events published earlier in availability come first.
\<close>

theorem outbox_batches_disjoint:
  assumes "outbox_inv d" and "consume t1 l1 w1 n1 lease1 d = (d1, rs1)"
  shows "length rs1 \<le> n1 \<and> distinct (map ob_id rs1) \<and> sorted (map ob_available_at rs1) \<and>
         (\<forall>r \<in> set rs1. outbox_ready d t1 (ob_id r) \<and> ob_claimed_by r = Some w1) \<and>
         (set (map ob_id rs1) \<subseteq> set l2 \<longrightarrow>
            set (map ob_id rs1) \<inter> set (map ob_id (snd (consume t2 l2 w2 n2 lease2 d))) = {}) \<and>
         (t3 \<le> t1 + lease1 \<longrightarrow>
            set (map ob_id rs1) \<inter> set (map ob_id (snd (consume t3 l3 w3 n3 lease3 d1))) = {})"
proof -
  have dist: "distinct (map ob_id (t_outbox d))" using assms(1) by (simp add: outbox_inv_def keys_ok_def)
  let ?b = "consume_batch t1 l1 n1 d"
  have rs1: "rs1 = map (lease_event t1 w1 lease1) ?b" using assms(2) by (auto simp: consume_def Let_def)
  have snd_ids: "map ob_id (snd (consume t l w n le e)) = map ob_id (consume_batch t l n e)" for t l w n le e
    by (simp add: consume_def Let_def)
  have "length rs1 \<le> n1" by (simp add: rs1 consume_batch_def)
  moreover have "distinct (map ob_id rs1)"
    using distinct_consume_batch [OF dist, of t1 l1 n1] by (simp add: rs1 o_def)
  moreover have "sorted (map ob_available_at rs1)"
    by (simp add: rs1 o_def consume_batch_def take_map [symmetric] sorted_wrt_take)
  moreover have "outbox_ready d t1 (ob_id r) \<and> ob_claimed_by r = Some w1" if "r \<in> set rs1" for r
    using that set_consume_batch [of t1 l1 n1 d] by (auto simp: rs1 outbox_ready_iff [OF assms(1)])
  moreover have "set (map ob_id rs1) \<inter> set (map ob_id (snd (consume t2 l2 w2 n2 lease2 d))) = {}"
    if "set (map ob_id rs1) \<subseteq> set l2"
    using that set_consume_batch [of t2 l2 n2 d] unfolding snd_ids by fastforce
  moreover have "set (map ob_id rs1) \<inter> set (map ob_id (snd (consume t3 l3 w3 n3 lease3 d1))) = {}"
    if le: "t3 \<le> t1 + lease1"
  proof -
    have "ob_id x \<noteq> ob_id y" if x: "x \<in> set ?b" and y: "y \<in> set (consume_batch t3 l3 n3 d1)" for x y
    proof
      assume same: "ob_id x = ob_id y"
      from y set_consume_batch have "y \<in> set (t_outbox d1)" and c: "consumable t3 y" by fastforce+
      then obtain z where z: "z \<in> set (t_outbox d)"
          "y = (if z \<in> set ?b then lease_event t1 w1 lease1 z else z)"
        using consume_rows [OF dist assms(2)] by auto
      have "z = x"
        using z same x dist set_consume_batch [of t1 l1 n1 d]
        by (auto split: if_splits simp: distinct_map inj_on_def)
      with z(2) x c le show False by (simp add: consumable_def)
    qed
    then show ?thesis unfolding snd_ids rs1 by auto
  qed
  ultimately show ?thesis by blast
qed

theorem outbox_batches_disjoint_witness:
  "\<exists>d1 rs1. consume 10 [] ''x'' 1 300 sample_outbox = (d1, rs1) \<and> map ob_id rs1 = [0] \<and>
     0 \<notin> set (map ob_id (snd (consume 20 [] ''y'' 5 300 d1)))"
proof -
  obtain d1 rs1 where c: "consume 10 [] ''x'' 1 300 sample_outbox = (d1, rs1)"
    by (cases "consume 10 [] ''x'' 1 300 sample_outbox")
  then have "map ob_id rs1 = [0]" by (auto simp: outbox_eval_simps)
  with outbox_batches_disjoint [OF sample_outbox_inv c, where ?t3.0 = 20 and ?l3.0 = "[]"
      and ?w3.0 = "''y''" and ?n3.0 = 5 and ?lease3.0 = 300] c
  show ?thesis by auto
qed

text \<open>One step of the outbox other than acknowledging the event \<open>i\<close>.\<close>

inductive unacked_step :: "uuid \<Rightarrow> db \<Rightarrow> db \<Rightarrow> bool" for i where
  publish: "unacked_step i d (publish now kind payload c r key d)"
| consume: "unacked_step i d (fst (consume now locked w n lease d))"
| nack: "nack now j e delay d = Inr d' \<Longrightarrow> unacked_step i d d'"
| ack: "j \<noteq> i \<Longrightarrow> ack now j d = Inr d' \<Longrightarrow> unacked_step i d d'"

definition still_pending :: "outbox_row \<Rightarrow> db \<Rightarrow> bool" where
  "still_pending r d \<longleftrightarrow> (\<exists>r' \<in> set (t_outbox d). ob_id r' = ob_id r \<and> ob_kind r' = ob_kind r \<and>
     ob_coverage r' = ob_coverage r \<and> ob_run r' = ob_run r \<and>
     ob_payload r' = ob_payload r \<and> ob_dedupe_key r' = ob_dedupe_key r \<and>
     ob_delivered_at r' = None \<and> ob_attempts r \<le> ob_attempts r')"

lemma still_pending_map:
  assumes "still_pending r d" and "t_outbox d' = map f (t_outbox d)"
    and "\<And>x. ob_id x = ob_id r \<Longrightarrow> ob_id (f x) = ob_id x \<and> ob_kind (f x) = ob_kind x \<and>
      ob_coverage (f x) = ob_coverage x \<and> ob_run (f x) = ob_run x \<and>
      ob_payload (f x) = ob_payload x \<and> ob_dedupe_key (f x) = ob_dedupe_key x \<and>
      ob_delivered_at (f x) = ob_delivered_at x \<and> ob_attempts x \<le> ob_attempts (f x)"
  shows "still_pending r d'"
proof -
  from assms(1) obtain x where "x \<in> set (t_outbox d)" "ob_id x = ob_id r" "ob_kind x = ob_kind r"
    "ob_coverage x = ob_coverage r" "ob_run x = ob_run r"
    "ob_payload x = ob_payload r" "ob_dedupe_key x = ob_dedupe_key r" "ob_delivered_at x = None"
    "ob_attempts r \<le> ob_attempts x"
    by (auto simp: still_pending_def)
  then show ?thesis
    using assms(3) [of x] unfolding still_pending_def assms(2)
    by (intro bexI [of _ "f x"]) auto
qed

lemma unacked_step_pending:
  assumes "unacked_step (ob_id r) d d'" and "outbox_inv d" and "still_pending r d"
  shows "outbox_inv d' \<and> still_pending r d'"
  using assms
proof cases
  case (publish now kind payload c rn key)
  with assms(2,3) show ?thesis
    by (auto simp: publish_inv) (auto simp: publish_def new_id_def still_pending_def)
next
  case (consume now locked w n lease)
  have dist: "distinct (map ob_id (t_outbox d))" using assms(2) by (simp add: outbox_inv_def keys_ok_def)
  from consume obtain rs where c: "consume now locked w n lease d = (d', rs)"
    by (cases "consume now locked w n lease d") simp
  have "still_pending r d'"
    by (rule still_pending_map [OF assms(3), where f = "\<lambda>x. if x \<in> set (consume_batch now locked n d)
         then lease_event now w lease x else x"])
      (auto simp: consume_rows [OF dist c] lease_event_def)
  with consume consume_inv [OF assms(2)] show ?thesis by simp
next
  case (nack now j e delay)
  then have "still_pending r d'"
    by (intro still_pending_map [OF assms(3), where f = "\<lambda>x. if ob_id x = j
          then x\<lparr>ob_last_error := Some e, ob_available_at := now + delay, ob_claimed_by := None,
                 ob_lease_expires_at := None\<rparr> else x"])
      (auto simp: nack_def andthen_Inr_iff upd_outbox_def upd_row_def)
  with nack assms(2) show ?thesis by (blast intro: nack_inv)
next
  case (ack j now)
  then have "still_pending r d'"
    by (intro still_pending_map [OF assms(3), where f = "\<lambda>x. if ob_id x = j
          then x\<lparr>ob_delivered_at := Some now, ob_claimed_by := None, ob_lease_expires_at := None\<rparr> else x"])
      (auto simp: ack_def andthen_Inr_iff upd_outbox_def upd_row_def)
  with ack assms(2) show ?thesis by (blast intro: ack_inv)
qed

lemma unacked_steps_pending:
  "(unacked_step (ob_id r))\<^sup>*\<^sup>* d d' \<Longrightarrow> outbox_inv d \<Longrightarrow> still_pending r d \<Longrightarrow>
     outbox_inv d' \<and> still_pending r d'"
  by (induction rule: rtranclp_induct) (auto dest: unacked_step_pending)

text \<open>One step of the outbox in which nobody is handed, puts back or acknowledges the event \<open>i\<close>.\<close>

inductive elsewhere_step :: "uuid \<Rightarrow> db \<Rightarrow> db \<Rightarrow> bool" for i where
  publish: "elsewhere_step i d (publish now kind payload c r key d)"
| consume: "consume now locked w n lease d = (d', rs) \<Longrightarrow> i \<notin> set (map ob_id rs) \<Longrightarrow> elsewhere_step i d d'"
| nack: "j \<noteq> i \<Longrightarrow> nack now j e delay d = Inr d' \<Longrightarrow> elsewhere_step i d d'"
| ack: "j \<noteq> i \<Longrightarrow> ack now j d = Inr d' \<Longrightarrow> elsewhere_step i d d'"

lemma elsewhere_step_row:
  assumes "elsewhere_step (ob_id r) d d'" and "outbox_inv d" and "r \<in> set (t_outbox d)"
  shows "outbox_inv d' \<and> r \<in> set (t_outbox d')"
  using assms
proof cases
  case (publish now kind payload c rn key)
  with assms(2,3) show ?thesis by (auto simp: publish_inv) (auto simp: publish_def new_id_def)
next
  case (consume now locked w n lease rs)
  have dist: "distinct (map ob_id (t_outbox d))" using assms(2) by (simp add: outbox_inv_def keys_ok_def)
  have "rs = map (lease_event now w lease) (consume_batch now locked n d)"
    using consume(1) by (auto simp: consume_def Let_def)
  with consume(2) have "r \<notin> set (consume_batch now locked n d)" by (auto simp: image_iff)
  with assms(3) have "r \<in> set (t_outbox d')" by (force simp: consume_rows [OF dist consume(1)])
  with consume_inv [OF assms(2), of now locked w n lease] consume(1) show ?thesis by simp
next
  case (nack j now e delay)
  then have "r \<in> set (t_outbox d')" using assms(3)
    by (force simp: nack_def andthen_Inr_iff upd_outbox_def upd_row_def)
  with nack assms(2) show ?thesis by (blast intro: nack_inv)
next
  case (ack j now)
  then have "r \<in> set (t_outbox d')" using assms(3)
    by (force simp: ack_def andthen_Inr_iff upd_outbox_def upd_row_def)
  with ack assms(2) show ?thesis by (blast intro: ack_inv)
qed

lemma elsewhere_steps_row:
  "(elsewhere_step (ob_id r))\<^sup>*\<^sup>* d d' \<Longrightarrow> outbox_inv d \<Longrightarrow> r \<in> set (t_outbox d) \<Longrightarrow>
     outbox_inv d' \<and> r \<in> set (t_outbox d')"
  by (induction rule: rtranclp_induct) (auto dest: elsewhere_step_row)

text \<open>A consumer whose limit the whole table fits in is handed every due event that is not locked.\<close>

lemma consume_all:
  assumes "outbox_inv d" and "r \<in> set (t_outbox d)" and "consumable t r" and "ob_id r \<notin> set locked"
    and "length (t_outbox d) \<le> n"
  shows "ob_id r \<in> set (map ob_id (snd (consume t locked w n lease d)))"
proof -
  let ?c = "filter (\<lambda>r. consumable t r \<and> ob_id r \<notin> set locked) (t_outbox d)"
  have "length (sort_key ob_available_at ?c) \<le> n" using assms(5) by (simp add: le_trans [OF length_filter_le])
  then have "consume_batch t locked n d = sort_key ob_available_at ?c" by (simp add: consume_batch_def)
  then have "r \<in> set (consume_batch t locked n d)" using assms(2-4) by simp
  then show ?thesis by (force simp: consume_def Let_def)
qed

text \<open>
  C27.  Delivery is at least once.  Whatever publishers and consumers do, an undelivered event that
  nobody acknowledges stays in the table with its kind, ticker, run, payload and key, undelivered and
  with at least the attempts it had; its lease, availability and last error may change.  After any such
  history there is a moment from which on it is due and stays due through whatever happens to the other
  events, until it is handed out: a consumer is handed something whenever it asks, and one whose limit
  the table fits in is handed this very event.
\<close>

theorem delivery_at_least_once:
  assumes "outbox_inv d" and "r \<in> set (t_outbox d)" and "ob_delivered_at r = None"
    and "(unacked_step (ob_id r))\<^sup>*\<^sup>* d d'"
  shows "(\<exists>r' \<in> set (t_outbox d'). ob_id r' = ob_id r \<and> ob_kind r' = ob_kind r \<and>
            ob_coverage r' = ob_coverage r \<and> ob_run r' = ob_run r \<and>
            ob_payload r' = ob_payload r \<and> ob_dedupe_key r' = ob_dedupe_key r \<and>
            ob_delivered_at r' = None \<and> ob_attempts r \<le> ob_attempts r') \<and>
         (\<exists>t0. \<forall>e t. (elsewhere_step (ob_id r))\<^sup>*\<^sup>* d' e \<longrightarrow> t0 \<le> t \<longrightarrow>
            outbox_ready e t (ob_id r) \<and> snd (consume_one w lease t e) \<noteq> None \<and>
            (\<forall>locked n. ob_id r \<notin> set locked \<longrightarrow> length (t_outbox e) \<le> n \<longrightarrow>
               ob_id r \<in> set (map ob_id (snd (consume t locked w n lease e)))))"
proof -
  have "still_pending r d" using assms(2,3) by (auto simp: still_pending_def)
  with assms(1,4) have inv: "outbox_inv d'" and p: "still_pending r d'"
    by (blast dest: unacked_steps_pending)+
  then obtain r' where r': "r' \<in> set (t_outbox d')" "ob_id r' = ob_id r" "ob_delivered_at r' = None"
    by (auto simp: still_pending_def)
  let ?t0 = "max (ob_available_at r') (case ob_lease_expires_at r' of None \<Rightarrow> 0 | Some e \<Rightarrow> e + 1)"
  have "outbox_ready e t (ob_id r) \<and> snd (consume_one w lease t e) \<noteq> None \<and>
      (\<forall>locked n. ob_id r \<notin> set locked \<longrightarrow> length (t_outbox e) \<le> n \<longrightarrow>
         ob_id r \<in> set (map ob_id (snd (consume t locked w n lease e))))"
    if e: "(elsewhere_step (ob_id r))\<^sup>*\<^sup>* d' e" and t: "?t0 \<le> t" for e t
  proof -
    from e have "(elsewhere_step (ob_id r'))\<^sup>*\<^sup>* d' e" by (simp add: r'(2))
    then have inv': "outbox_inv e" and row: "r' \<in> set (t_outbox e)"
      using elsewhere_steps_row [OF _ inv r'(1)] by blast+
    have due: "consumable t r'" using r'(3) t by (auto simp: consumable_def split: option.splits)
    with inv' row r'(2) have "outbox_ready e t (ob_id r)" by (auto simp: outbox_ready_iff)
    with consume_one_progress [OF inv'] consume_all [OF inv' row due] show ?thesis by (simp add: r'(2))
  qed
  with p show ?thesis unfolding still_pending_def by blast
qed

theorem delivery_at_least_once_witness:
  "\<exists>d' rs (t0 :: time). consume 10 [] ''x'' 1 300 sample_outbox = (d', rs) \<and> map ob_id rs = [0] \<and>
     (\<forall>u \<ge> t0. outbox_ready d' u 0 \<and> 0 \<in> set (map ob_id (snd (consume u [] ''y'' 2 60 d'))))"
proof -
  obtain d' rs where c: "consume 10 [] ''x'' 1 300 sample_outbox = (d', rs)"
    by (cases "consume 10 [] ''x'' 1 300 sample_outbox")
  then have ids: "map ob_id rs = [0]" and len: "length (t_outbox d') \<le> 2" by (auto simp: outbox_eval_simps)
  have "\<exists>r \<in> set (t_outbox sample_outbox). ob_id r = 0 \<and> ob_delivered_at r = None"
    by (simp add: outbox_eval_simps)
  then obtain r where r: "r \<in> set (t_outbox sample_outbox)" "ob_id r = 0" "ob_delivered_at r = None" by blast
  have "(unacked_step (ob_id r))\<^sup>*\<^sup>* sample_outbox d'"
    using unacked_step.consume [of "ob_id r" sample_outbox 10 "[]" "''x''" 1 300] c by simp
  from delivery_at_least_once [OF sample_outbox_inv r(1,3) this, where w = "''y''" and lease = 60, THEN conjunct2]
  obtain t0 where t0: "\<forall>e t. (elsewhere_step (ob_id r))\<^sup>*\<^sup>* d' e \<longrightarrow> t0 \<le> t \<longrightarrow>
            outbox_ready e t (ob_id r) \<and> snd (consume_one ''y'' 60 t e) \<noteq> None \<and>
            (\<forall>locked n. ob_id r \<notin> set locked \<longrightarrow> length (t_outbox e) \<le> n \<longrightarrow>
               ob_id r \<in> set (map ob_id (snd (consume t locked ''y'' n 60 e))))" by blast
  have "\<forall>u \<ge> t0. outbox_ready d' u 0 \<and> 0 \<in> set (map ob_id (snd (consume u [] ''y'' 2 60 d')))"
    using t0 [rule_format, OF rtranclp.rtrancl_refl] len r(2) by simp
  with c ids show ?thesis by (intro exI [of _ d'] exI [of _ rs] exI [of _ t0] conjI)
qed

end
