(* ===== verification/Events_Repo.thy ===== *)
theory Events_Repo
  imports Keyed_Log
begin

text \<open>
  \<open>core/db/repo/events.py\<close> and \<open>core/db/repo/dossier.py\<close>: recorded monitor events,
  idempotent in their dedupe key, and the dossier index and commit rows.  Recording an event is an
  instance of the \<open>keyed_log\<close> contract.
\<close>

section \<open>Events\<close>

record event_in =
  ei_coverage :: "uuid option"
  ei_kind :: string
  ei_severity :: string
  ei_title :: string
  ei_dedupe_key :: string
  ei_payload :: json_obj
  ei_occurred_at :: time
  ei_action :: "string option"
  ei_detail :: "string option"
  ei_detected_by :: "uuid option"
  ei_news_article :: "uuid option"

definition record_event :: "event_in \<Rightarrow> db \<Rightarrow> db \<times> event_row option" where
  "record_event e d =
     (if list_ex (\<lambda>x. ev_dedupe_key x = ei_dedupe_key e) (t_events d) then (d, None)
      else let ev = \<lparr>ev_id = next_id d, ev_coverage = ei_coverage e, ev_kind = ei_kind e,
                     ev_severity = ei_severity e, ev_title = ei_title e, ev_detail = ei_detail e,
                     ev_payload = ei_payload e, ev_action = ei_action e,
                     ev_detected_by = ei_detected_by e, ev_news_article = ei_news_article e,
                     ev_handled_by = None, ev_dedupe_key = ei_dedupe_key e,
                     ev_occurred_at = ei_occurred_at e, ev_pm_rating = None, ev_pm_rated_at = None,
                     ev_pm_rated_by = None\<rparr>
           in ((new_id d)\<lparr>t_events := t_events d @ [ev]\<rparr>, Some ev))"

definition mark_handled :: "uuid \<Rightarrow> uuid \<Rightarrow> db \<Rightarrow> error + db" where
  "mark_handled event_id r d =
     andthen (require AttributeError (get_event event_id d)) (\<lambda>_.
     Inr (upd_event event_id (\<lambda>e. e\<lparr>ev_handled_by := Some r\<rparr>) d))"

definition events_inv :: "db \<Rightarrow> bool" where
  "events_inv d \<longleftrightarrow> keys_ok ev_id (t_events d) (next_id d) \<and> distinct (map ev_dedupe_key (t_events d))"

definition record_event_db :: "event_in \<Rightarrow> db \<Rightarrow> db" where
  "record_event_db e d = fst (record_event e d)"

lemma record_event_inv: "events_inv d \<Longrightarrow> events_inv (record_event_db e d)"
  by (auto simp: events_inv_def record_event_db_def record_event_def new_id_def Let_def list_ex_iff
      keys_ok_append)

interpretation event_log: keyed_log events_inv t_events ev_dedupe_key record_event_db ei_dedupe_key
  by (unfold_locales, erule record_event_inv)
    (auto simp: record_event_db_def record_event_def new_id_def Let_def list_ex_iff image_iff)

lemma mark_handled_inv: "events_inv d \<Longrightarrow> mark_handled i r d = Inr d' \<Longrightarrow> events_inv d'"
  by (auto simp: mark_handled_def andthen_Inr_iff events_inv_def upd_event_def keys_ok_upd
      map_upd_row_frame)

text \<open>
  A monitor tick may record its events again: an event is reported as new exactly when its
  dedupe key has not been recorded, and after any sequence of recordings, interleaved with nothing
  else, every key has exactly one row and the rows recorded first are still there unchanged.
\<close>

theorem events_recorded_once:
  assumes "events_inv d"
  shows "(snd (record_event e (fold record_event_db es d)) = None \<longleftrightarrow>
            ei_dedupe_key e \<in> ei_dedupe_key ` set es \<or> ei_dedupe_key e \<in> ev_dedupe_key ` set (t_events d)) \<and>
         distinct (map ev_dedupe_key (t_events (fold record_event_db es d))) \<and>
         (\<exists>new. t_events (fold record_event_db es d) = t_events d @ new) \<and>
         fold record_event_db es (fold record_event_db es d) = fold record_event_db es d"
proof -
  have "snd (record_event e x) = None \<longleftrightarrow> ei_dedupe_key e \<in> ev_dedupe_key ` set (t_events x)" for x
    by (force simp: record_event_def Let_def list_ex_iff image_iff)
  with assms show ?thesis
    using event_log.fold_keys event_log.fold_distinct event_log.fold_extends event_log.replay
    by (simp add: events_inv_def)
qed

definition sample_event :: "string \<Rightarrow> event_in" where
  "sample_event k = \<lparr>ei_coverage = Some 0, ei_kind = ''price'', ei_severity = ''material'',
     ei_title = ''t'', ei_dedupe_key = k, ei_payload = [], ei_occurred_at = 0, ei_action = None,
     ei_detail = None, ei_detected_by = None, ei_news_article = None\<rparr>"

theorem events_recorded_once_witness:
  "snd (record_event (sample_event ''k'') (fold record_event_db [sample_event ''k''] empty_db)) = None"
proof -
  have "events_inv empty_db" by (simp add: events_inv_def empty_db_def keys_ok_def fresh_in_def)
  from events_recorded_once [OF this, of "sample_event ''k''" "[sample_event ''k'']"] show ?thesis by simp
qed

section \<open>Dossier index\<close>

definition get_dossier :: "uuid \<Rightarrow> db \<Rightarrow> dossier_row option" where
  "get_dossier c d = get_row di_coverage c (t_dossiers d)"

definition get_dossier_by_slug :: "string \<Rightarrow> db \<Rightarrow> dossier_row option" where
  "get_dossier_by_slug slug d = find (\<lambda>r. di_slug r = slug) (t_dossiers d)"

record dossier_in =
  dn_main_commit :: "string option"
  dn_updated_by_run :: "uuid option"
  dn_stance :: "string option"
  dn_conviction :: "string option"
  dn_as_of :: "string option"
  dn_target_price :: "decimal option"
  dn_tripwire_count :: "int option"
  dn_files :: "json_obj option"

text \<open>\<open>setattr\<close> for the arguments that are not \<open>None\<close>.\<close>

definition given :: "'a option \<Rightarrow> 'a option \<Rightarrow> 'a option" where
  "given arg old = (case arg of None \<Rightarrow> old | Some v \<Rightarrow> Some v)"

definition apply_dossier :: "dossier_in \<Rightarrow> dossier_row \<Rightarrow> dossier_row" where
  "apply_dossier a r = r\<lparr>
     di_main_commit := given (dn_main_commit a) (di_main_commit r),
     di_updated_by_run := given (dn_updated_by_run a) (di_updated_by_run r),
     di_stance := given (dn_stance a) (di_stance r),
     di_conviction := given (dn_conviction a) (di_conviction r),
     di_as_of := given (dn_as_of a) (di_as_of r),
     di_target_price := given (dn_target_price a) (di_target_price r),
     di_tripwire_count := (case dn_tripwire_count a of None \<Rightarrow> di_tripwire_count r | Some n \<Rightarrow> n),
     di_files := given (dn_files a) (di_files r)\<rparr>"

definition new_dossier :: "uuid \<Rightarrow> string \<Rightarrow> dossier_row" where
  "new_dossier c slug = \<lparr>di_coverage = c, di_slug = slug, di_main_commit = None,
     di_updated_by_run = None, di_stance = None, di_conviction = None, di_as_of = None,
     di_target_price = None, di_tripwire_count = 0, di_files = None\<rparr>"

definition upsert_index :: "uuid \<Rightarrow> string \<Rightarrow> dossier_in \<Rightarrow> db \<Rightarrow> error + db" where
  "upsert_index c slug a d =
     (case get_dossier c d of
        Some _ \<Rightarrow> Inr (d\<lparr>t_dossiers := upd_row di_coverage c (apply_dossier a) (t_dossiers d)\<rparr>)
      | None \<Rightarrow>
          if list_ex (\<lambda>r. di_slug r = slug) (t_dossiers d)
          then Inl (IntegrityError ''dossier_index.slug'')
          else Inr (d\<lparr>t_dossiers := t_dossiers d @ [apply_dossier a (new_dossier c slug)]\<rparr>))"

definition record_commit :: "commit_row \<Rightarrow> db \<Rightarrow> error + db" where
  "record_commit row d =
     (if list_ex (\<lambda>r. dc_sha r = dc_sha row) (t_commits d)
      then Inl (IntegrityError ''uq_dossier_commits_sha'')
      else Inr (d\<lparr>t_commits := t_commits d @ [row]\<rparr>))"

lemma given_simps [simp]: "given None x = x" "given (Some v) x = Some v" "given a (given a x) = given a x"
  by (simp_all add: given_def split: option.splits)

lemma apply_dossier_simps [simp]:
  "di_coverage (apply_dossier a r) = di_coverage r" "di_slug (apply_dossier a r) = di_slug r"
  "apply_dossier a (apply_dossier a r) = apply_dossier a r"
  by (simp_all add: apply_dossier_def split: option.splits)

definition dossier_inv :: "db \<Rightarrow> bool" where
  "dossier_inv d \<longleftrightarrow> distinct (map di_coverage (t_dossiers d)) \<and> distinct (map di_slug (t_dossiers d))"

lemma upsert_index_inv: "dossier_inv d \<Longrightarrow> upsert_index c slug a d = Inr d' \<Longrightarrow> dossier_inv d'"
  by (auto simp: dossier_inv_def upsert_index_def get_dossier_def get_row_None_iff list_ex_iff
      map_upd_row_frame new_dossier_def split: option.splits if_splits)

text \<open>
  \<open>upsert_index\<close> is an idempotent merge: it leaves one index row per coverage and per slug,
  the coverage's row is its old row (or a blank one) with exactly the given fields replaced and its
  first slug kept, other rows are untouched, and doing it again changes nothing.
\<close>

theorem upsert_index_merges:
  assumes "dossier_inv d" and "upsert_index c slug a d = Inr d'"
  shows "get_dossier c d' = Some (apply_dossier a
            (case get_dossier c d of None \<Rightarrow> new_dossier c slug | Some r \<Rightarrow> r)) \<and>
         (\<forall>x. x \<noteq> c \<longrightarrow> get_dossier x d' = get_dossier x d) \<and> dossier_inv d' \<and>
         upsert_index c slug' a d' = Inr d'"
proof -
  have inv: "dossier_inv d'" using assms by (rule upsert_index_inv)
  have cov [simp]: "di_coverage (new_dossier c slug) = c" by (simp add: new_dossier_def)
  show ?thesis
  proof (cases "get_dossier c d")
    case None
    with assms(2) have "d' = d\<lparr>t_dossiers := t_dossiers d @ [apply_dossier a (new_dossier c slug)]\<rparr>"
      by (auto simp: upsert_index_def split: if_splits)
    moreover have "upd_row di_coverage c (apply_dossier a) (t_dossiers d) = t_dossiers d"
      using None by (auto simp: get_dossier_def get_row_None_iff upd_row_def intro: map_idI)
    ultimately show ?thesis
      using None inv
      by (auto simp: get_dossier_def get_row_append upsert_index_def upd_row_def split: option.splits)
  next
    case (Some r)
    with assms(2) have d': "d' = d\<lparr>t_dossiers := upd_row di_coverage c (apply_dossier a) (t_dossiers d)\<rparr>"
      by (simp add: upsert_index_def)
    have get: "get_dossier x d' = (if x = c then Some (apply_dossier a r) else get_dossier x d)" for x
      using Some by (simp add: d' get_dossier_def get_row_upd_same get_row_upd_other)
    have "upd_row di_coverage c (apply_dossier a) (t_dossiers d') = t_dossiers d'"
      by (auto simp: d' upd_row_def)
    with get Some inv show ?thesis by (simp add: upsert_index_def d')
  qed
qed

definition blank_dossier_in :: dossier_in where
  "blank_dossier_in = \<lparr>dn_main_commit = None, dn_updated_by_run = None, dn_stance = None,
     dn_conviction = None, dn_as_of = None, dn_target_price = None, dn_tripwire_count = None, dn_files = None\<rparr>"

theorem upsert_index_merges_witness:
  "\<exists>d' r. upsert_index 7 ''us_a'' (blank_dossier_in\<lparr>dn_stance := Some ''buy''\<rparr>) empty_db = Inr d' \<and>
     get_dossier 7 d' = Some r \<and> di_stance r = Some ''buy'' \<and> di_slug r = ''us_a''"
proof -
  let ?a = "blank_dossier_in\<lparr>dn_stance := Some ''buy''\<rparr>"
  obtain d' where d': "upsert_index 7 ''us_a'' ?a empty_db = Inr d'"
    by (simp add: upsert_index_def get_dossier_def empty_db_def)
  have "dossier_inv empty_db" by (simp add: dossier_inv_def empty_db_def)
  from upsert_index_merges [OF this d'] have "get_dossier 7 d' = Some (apply_dossier ?a (new_dossier 7 ''us_a''))"
    by (simp add: get_dossier_def empty_db_def)
  with d' show ?thesis by (simp add: apply_dossier_def new_dossier_def blank_dossier_in_def)
qed

end
