(* ===== verification/Runs_Repo.thy ===== *)
theory Runs_Repo
  imports Queue_Correct Outbox
begin

text \<open>
  \<open>core/db/repo/runs.py\<close>: creation of runs and stages, the per-ticker lock, finishing and
  requeueing, and the PM gates.  The lock table is keyed by coverage; \<open>start_run\<close> inserts with
  ON CONFLICT DO NOTHING and looks who owns the row.  \<open>uuid_hex\<close> is the text of the
  \<open>uuid4\<close> a message key ends with; keys ending with one are taken to be unused.
\<close>

section \<open>Operations\<close>

definition NON_MUTATING :: "run_type list" where
  "NON_MUTATING = [RT_Monitor_Tick, RT_PM_Query]"

definition FINISH_ACTION :: "(string \<times> run_action) list" where
  "FINISH_ACTION = [(''succeeded'', RA_Succeed), (''failed'', RA_Fail), (''cancelled'', RA_Cancel)]"

record run_in =
  ri_coverage :: "uuid option"
  ri_type :: string
  ri_trigger :: string
  ri_params :: json_obj
  ri_priority :: int
  ri_budget_cap :: "decimal option"
  ri_requested_by :: "string option"
  ri_trigger_ref :: "string option"

definition create_run_row :: "time \<Rightarrow> run_in \<Rightarrow> db \<Rightarrow> error + (db \<times> run_row)" where
  "create_run_row now a d =
     (case run_type_of (ri_type a) of
        None \<Rightarrow> Inl (IntegrityError ''ck_runs_type'')
      | Some ty \<Rightarrow>
          let r = \<lparr>run_id = next_id d, run_coverage = ri_coverage a, run_type = ty,
                   run_status = RS_Queued, run_trigger = ri_trigger a,
                   run_trigger_ref = ri_trigger_ref a, run_priority = ri_priority a,
                   run_mutates = (ty \<notin> set NON_MUTATING), run_requested_by = ri_requested_by a,
                   run_params = ri_params a, run_budget_cap = ri_budget_cap a, run_cost = 0,
                   run_summary = None, run_error = None, run_started_at = None,
                   run_finished_at = None, run_created_at = now\<rparr>
          in if \<not> ck_runs_coverage_required r then Inl (IntegrityError ''ck_runs_coverage_required'')
             else if \<not> uq_runs_trigger_ref (t_runs d) r then Inl (IntegrityError ''uq_runs_trigger_ref'')
             else Inr ((new_id d)\<lparr>t_runs := t_runs d @ [r]\<rparr>, r))"

definition add_stage :: "time \<Rightarrow> uuid \<Rightarrow> stage_in \<Rightarrow> db \<Rightarrow> error + db" where
  "add_stage now r s d =
     andthen (require (IntegrityError ''run_stages.house'') (si_house s)) (\<lambda>house.
     andthen (ensure (IntegrityError ''fk_run_stages_house'') (has_house house d)) (\<lambda>_.
     andthen (require (IntegrityError ''ck_run_stages_substrate'') (substrate_of (si_substrate s))) (\<lambda>sub.
     andthen (ensure (IntegrityError ''uq_run_stages_run_seq'')
                (\<not> list_ex (\<lambda>x. st_run x = r \<and> st_seq x = si_seq s) (t_stages d))) (\<lambda>_.
     Inr ((new_id d)\<lparr>t_stages := t_stages d @ [\<lparr>st_id = next_id d, st_run = r,
            st_seq = si_seq s, st_role = si_role s, st_house = house, st_substrate = sub,
            st_status = SS_Queued, st_depends_on_seq = si_depends_on_seq s, st_available_at = now,
            st_claimed_by = None, st_claimed_at = None, st_lease_expires_at = None, st_attempts = 0,
            st_max_attempts = si_max_attempts s, st_result = None, st_cost = 0,
            st_tokens_in = None, st_tokens_out = None, st_transcript_ref = None, st_error = None,
            st_started_at = None, st_finished_at = None\<rparr>]\<rparr>)))))"

definition add_stages :: "time \<Rightarrow> uuid \<Rightarrow> stage_in list \<Rightarrow> db \<Rightarrow> error + db" where
  "add_stages now r stages d = fold_err (add_stage now r) stages d"

definition lock_owner :: "uuid \<Rightarrow> db \<Rightarrow> uuid option" where
  "lock_owner c d = map_option lk_run (find (\<lambda>l. lk_coverage l = c) (t_locks d))"

definition insert_lock :: "time \<Rightarrow> uuid \<Rightarrow> uuid \<Rightarrow> db \<Rightarrow> db" where
  "insert_lock now c r d =
     (if list_ex (\<lambda>l. lk_coverage l = c) (t_locks d) then d
      else d\<lparr>t_locks := t_locks d @ [\<lparr>lk_coverage = c, lk_run = r, lk_acquired_at = now\<rparr>]\<rparr>)"

definition mark_started :: "time \<Rightarrow> run_row \<Rightarrow> run_row" where
  "mark_started now r = r\<lparr>run_status := RS_Running,
     run_started_at := (case run_started_at r of None \<Rightarrow> Some now | Some t \<Rightarrow> Some t)\<rparr>"

definition start_run :: "time \<Rightarrow> uuid \<Rightarrow> db \<Rightarrow> error + (db \<times> bool)" where
  "start_run now i d =
     andthen (require AttributeError (get_run i d)) (\<lambda>r.
     case (if run_mutates r then run_coverage r else None) of
       Some c \<Rightarrow>
         let d1 = insert_lock now c i d in
         if lock_owner c d1 \<noteq> Some i then Inr (d1, False)
         else Inr (upd_run i (mark_started now) d1, True)
     | None \<Rightarrow> Inr (upd_run i (mark_started now) d, True))"

definition requeue_run :: "uuid \<Rightarrow> string \<Rightarrow> db \<Rightarrow> error + db" where
  "requeue_run i reason d =
     andthen (require AttributeError (get_run i d)) (\<lambda>r.
     andthen (run_transition (run_status r) RA_Requeue \<lparr>ctx_attempts = 0, ctx_max_attempts = 1\<rparr>) (\<lambda>sm.
     Inr (upd_run i (\<lambda>r. r\<lparr>run_status := rt_to sm, run_error := Some reason\<rparr>) d)))"

definition release_lock :: "uuid \<Rightarrow> db \<Rightarrow> db" where
  "release_lock i d = d\<lparr>t_locks := filter (\<lambda>l. lk_run l \<noteq> i) (t_locks d)\<rparr>"

definition emit ::
  "time \<Rightarrow> string \<Rightarrow> uuid option \<Rightarrow> uuid option \<Rightarrow> json_obj \<Rightarrow> string \<Rightarrow> db \<Rightarrow> db" where
  "emit now kind c r payload key d = (new_id d)\<lparr>t_outbox := t_outbox d @ [\<lparr>ob_id = next_id d,
     ob_kind = kind, ob_coverage = c, ob_run = r, ob_payload = payload, ob_dedupe_key = key,
     ob_available_at = now, ob_claimed_by = None, ob_lease_expires_at = None, ob_attempts = 0,
     ob_delivered_at = None, ob_last_error = None\<rparr>]\<rparr>"

definition uuid_hex :: "db \<Rightarrow> string" where
  "uuid_hex d = show_nat (next_id d)"

definition finish_effect :: "time \<Rightarrow> uuid \<Rightarrow> string \<Rightarrow> run_row \<Rightarrow> string \<Rightarrow> db \<Rightarrow> db" where
  "finish_effect now i status r eff d =
     (if eff = ''release_lock'' then release_lock i d
      else if eff = ''outbox:run.finished'' then
        emit now ''run.finished'' (run_coverage r) (Some i)
          [(''status'', JStr status), (''run_id'', JStr (show_nat i))]
          (''run.finished:'' @ show_nat i @ '':'' @ uuid_hex d) d
      else d)"

definition mark_finished ::
  "time \<Rightarrow> run_status \<Rightarrow> string option \<Rightarrow> string option \<Rightarrow> run_row \<Rightarrow> run_row" where
  "mark_finished now st summary err r = r\<lparr>run_status := st, run_finished_at := Some now,
     run_summary := (case summary of None \<Rightarrow> run_summary r | Some s \<Rightarrow> Some s),
     run_error := (case err of None \<Rightarrow> run_error r | Some e \<Rightarrow> Some e)\<rparr>"

definition finish_run ::
  "time \<Rightarrow> uuid \<Rightarrow> string \<Rightarrow> string option \<Rightarrow> string option \<Rightarrow> db \<Rightarrow> error + db" where
  "finish_run now i status summary err d =
     andthen (require AttributeError (get_run i d)) (\<lambda>r.
     andthen (require (KeyError status) (map_of FINISH_ACTION status)) (\<lambda>a.
     andthen (run_transition (run_status r) a \<lparr>ctx_attempts = 0, ctx_max_attempts = 1\<rparr>) (\<lambda>sm.
     Inr (fold (finish_effect now i status r) (rt_effects sm)
            (upd_run i (mark_finished now (rt_to sm) summary err) d)))))"

definition open_gate ::
  "uuid \<Rightarrow> string \<Rightarrow> string \<Rightarrow> json_obj \<Rightarrow> string list \<Rightarrow> db \<Rightarrow> error + (db \<times> gate_row)" where
  "open_gate i kind prompt payload allowed d =
     andthen (require AttributeError (get_run i d)) (\<lambda>r.
     let g = \<lparr>gt_id = next_id d, gt_run = i, gt_coverage = run_coverage r, gt_kind = kind,
              gt_state = GS_Open, gt_prompt = prompt, gt_payload = payload, gt_allowed = allowed,
              gt_answer = None, gt_answer_notes = None, gt_answered_by = None,
              gt_answered_at = None, gt_idempotency_key = None\<rparr>
     in Inr ((new_id d)\<lparr>t_gates := t_gates d @ [g]\<rparr>, g))"

definition mark_answered ::
  "time \<Rightarrow> string \<Rightarrow> string \<Rightarrow> string option \<Rightarrow> string \<Rightarrow> gate_row \<Rightarrow> gate_row" where
  "mark_answered now answer actor notes key g = g\<lparr>gt_state := GS_Answered, gt_answer := Some answer,
     gt_answered_by := Some actor, gt_answer_notes := notes, gt_answered_at := Some now,
     gt_idempotency_key := Some key\<rparr>"

definition answer_gate ::
  "time \<Rightarrow> uuid \<Rightarrow> string \<Rightarrow> string \<Rightarrow> string option \<Rightarrow> string \<Rightarrow> db \<Rightarrow> error + (db \<times> gate_row)" where
  "answer_gate now i answer actor notes key d =
     andthen (require AttributeError (get_gate i d)) (\<lambda>g.
     if gt_state g = GS_Answered \<and> gt_idempotency_key g = Some key then Inr (d, g)
     else if list_ex (\<lambda>h. gt_id h \<noteq> i \<and> gt_idempotency_key h = Some key) (t_gates d)
     then Inl (IntegrityError ''pm_gates.idempotency_key'')
     else Inr (upd_gate i (mark_answered now answer actor notes key) d,
               mark_answered now answer actor notes key g))"

definition list_open_for_coverage :: "uuid \<Rightarrow> db \<Rightarrow> run_row list" where
  "list_open_for_coverage c d =
     filter (\<lambda>r. run_coverage r = Some c \<and>
       run_status r \<in> set [RS_Queued, RS_Running, RS_Waiting_PM]) (t_runs d)"

section \<open>The lock invariant\<close>

definition holds_ticker :: "run_row \<Rightarrow> uuid option" where
  "holds_ticker r = (if run_mutates r \<and> run_status r \<in> {RS_Running, RS_Waiting_PM}
     then run_coverage r else None)"

definition lock_inv :: "db \<Rightarrow> bool" where
  "lock_inv d \<longleftrightarrow> keys_ok run_id (t_runs d) (next_id d) \<and> distinct (map lk_coverage (t_locks d)) \<and>
     (\<forall>r \<in> set (t_runs d). \<forall>c. holds_ticker r = Some c \<longrightarrow> lock_owner c d = Some (run_id r))"

lemma lock_invD: "lock_inv d \<Longrightarrow> r \<in> set (t_runs d) \<Longrightarrow> holds_ticker r = Some c \<Longrightarrow> lock_owner c d = Some (run_id r)"
  by (simp add: lock_inv_def)

lemma find_append: "find P (xs @ ys) = (case find P xs of Some x \<Rightarrow> Some x | None \<Rightarrow> find P ys)"
  by (induction xs) auto

lemma list_ex_find: "list_ex P xs \<longleftrightarrow> find P xs \<noteq> None"
  by (induction xs) auto

lemma find_SomeD: "find P xs = Some x \<Longrightarrow> x \<in> set xs \<and> P x"
  by (induction xs) (auto split: if_splits)

lemma lock_owner_insert:
  "lock_owner c (insert_lock now c' r d) =
     (case lock_owner c d of Some x \<Rightarrow> Some x | None \<Rightarrow> if c = c' then Some r else None)"
  by (auto simp: lock_owner_def insert_lock_def find_append list_ex_find split: option.splits)

lemma distinct_insert_lock:
  "distinct (map lk_coverage (t_locks d)) \<Longrightarrow> distinct (map lk_coverage (t_locks (insert_lock now c r d)))"
  by (auto simp: insert_lock_def list_ex_iff)

lemma insert_lock_frame [simp]:
  "t_runs (insert_lock now c r d) = t_runs d" "next_id (insert_lock now c r d) = next_id d"
  "t_stages (insert_lock now c r d) = t_stages d" "t_gates (insert_lock now c r d) = t_gates d"
  "t_coverage (insert_lock now c r d) = t_coverage d" "t_outbox (insert_lock now c r d) = t_outbox d"
  by (simp_all add: insert_lock_def)

lemma lock_owner_release:
  assumes "distinct (map lk_coverage (t_locks d))"
  shows "lock_owner c (release_lock i d) = (if lock_owner c d = Some i then None else lock_owner c d)"
proof -
  have "find (\<lambda>l. lk_coverage l = c) (filter (\<lambda>l. lk_run l \<noteq> i) ls) =
      (case find (\<lambda>l. lk_coverage l = c) ls of Some l \<Rightarrow> if lk_run l = i then None else Some l | None \<Rightarrow> None)"
    if "distinct (map lk_coverage ls)" for ls :: "lock_row list"
    using that by (induction ls) (auto 4 4 simp: image_iff split: option.splits dest: find_SomeD)
  with assms show ?thesis by (auto simp: lock_owner_def release_lock_def split: option.splits)
qed

text \<open>Runs change through \<open>upd_run\<close> only; what matters is who holds the ticker afterwards.\<close>

lemma lock_inv_upd_run:
  assumes "lock_inv d" and "\<And>r. run_id (f r) = run_id r"
    and "t_runs d' = upd_row run_id i f (t_runs d)" and "next_id d \<le> next_id d'"
    and "distinct (map lk_coverage (t_locks d'))"
    and "\<And>r c. r \<in> set (t_runs d) \<Longrightarrow> run_id r = i \<Longrightarrow> holds_ticker (f r) = Some c \<Longrightarrow> lock_owner c d' = Some i"
    and "\<And>r c. r \<in> set (t_runs d) \<Longrightarrow> run_id r \<noteq> i \<Longrightarrow> lock_owner c d = Some (run_id r) \<Longrightarrow>
           lock_owner c d' = Some (run_id r)"
  shows "lock_inv d'"
  unfolding lock_inv_def
proof (intro conjI ballI allI impI)
  show "keys_ok run_id (t_runs d') (next_id d')"
    using assms(1,2,4) by (auto simp: lock_inv_def assms(3) keys_ok_upd intro: keys_ok_mono)
  show "distinct (map lk_coverage (t_locks d'))" by (rule assms(5))
  fix r c assume "r \<in> set (t_runs d')" and h: "holds_ticker r = Some c"
  then consider (new) r0 where "r0 \<in> set (t_runs d)" "run_id r0 = i" "r = f r0"
    | (old) "r \<in> set (t_runs d)" "run_id r \<noteq> i"
    unfolding assms(3) by (auto dest: set_upd_rowD)
  then show "lock_owner c d' = Some (run_id r)"
  proof cases
    case new
    with assms(2,6) [of r0] h show ?thesis by simp
  next
    case old
    with assms(7) lock_invD [OF assms(1) old(1) h] show ?thesis by simp
  qed
qed

lemma lock_inv_cong:
  "lock_inv d \<Longrightarrow> t_runs d' = t_runs d \<Longrightarrow> t_locks d' = t_locks d \<Longrightarrow> next_id d \<le> next_id d' \<Longrightarrow> lock_inv d'"
  by (auto simp: lock_inv_def lock_owner_def intro: keys_ok_mono)

lemma create_run_lock_inv:
  assumes "lock_inv d" and "create_run_row now a d = Inr (d', r)"
  shows "lock_inv d'"
proof -
  from assms(2) have d': "d' = (new_id d)\<lparr>t_runs := t_runs d @ [r]\<rparr>" and "run_id r = next_id d"
    "run_status r = RS_Queued"
    by (auto simp: create_run_row_def Let_def split: option.splits if_splits)
  with assms(1) show ?thesis
    by (auto simp: lock_inv_def new_id_def keys_ok_append holds_ticker_def lock_owner_def)
qed

lemma add_stage_frame:
  assumes "add_stage now r s d = Inr d'"
  shows "t_runs d' = t_runs d \<and> t_locks d' = t_locks d \<and> next_id d \<le> next_id d' \<and>
    t_gates d' = t_gates d \<and> t_coverage d' = t_coverage d"
  using assms by (auto simp: add_stage_def andthen_Inr_iff new_id_def)

lemma add_stages_frame:
  assumes "add_stages now r ss d = Inr d'"
  shows "t_runs d' = t_runs d \<and> t_locks d' = t_locks d \<and> next_id d \<le> next_id d' \<and>
    t_gates d' = t_gates d \<and> t_coverage d' = t_coverage d"
  using assms unfolding add_stages_def
  by (rule fold_err_invariant [where I = "\<lambda>x. t_runs x = t_runs d \<and> t_locks x = t_locks d \<and>
        next_id d \<le> next_id x \<and> t_gates x = t_gates d \<and> t_coverage x = t_coverage d"])
    (auto dest: add_stage_frame)

lemma mark_started_simps [simp]:
  "run_id (mark_started now r) = run_id r" "run_coverage (mark_started now r) = run_coverage r"
  "run_mutates (mark_started now r) = run_mutates r" "run_status (mark_started now r) = RS_Running"
  "run_type (mark_started now r) = run_type r" "run_cost (mark_started now r) = run_cost r"
  by (simp_all add: mark_started_def)

lemma start_run_cases:
  assumes "start_run now i d = Inr (d', ok)"
  obtains (free) r where "get_run i d = Some r" "\<not> run_mutates r \<or> run_coverage r = None" "ok"
      "d' = upd_run i (mark_started now) d"
    | (won) r c where "get_run i d = Some r" "run_mutates r" "run_coverage r = Some c" "ok"
      "lock_owner c (insert_lock now c i d) = Some i"
      "d' = upd_run i (mark_started now) (insert_lock now c i d)"
    | (lost) r c where "get_run i d = Some r" "run_mutates r" "run_coverage r = Some c" "\<not> ok"
      "lock_owner c d \<noteq> None" "lock_owner c d \<noteq> Some i" "d' = d"
proof -
  have keep: "insert_lock now c i d = d" if "lock_owner c d \<noteq> None" for c
    using that by (auto simp: lock_owner_def insert_lock_def list_ex_iff find_None_iff find_Some_iff)
  from assms obtain r where r: "get_run i d = Some r" by (auto simp: start_run_def andthen_Inr_iff)
  show thesis
  proof (cases "if run_mutates r then run_coverage r else None")
    case None
    with assms r show thesis by (intro free) (auto simp: start_run_def split: if_splits)
  next
    case (Some c)
    then have m: "run_mutates r" "run_coverage r = Some c" by (auto split: if_splits)
    show thesis
    proof (cases "lock_owner c (insert_lock now c i d) = Some i")
      case True
      with assms r m show thesis by (intro won) (auto simp: start_run_def Let_def)
    next
      case False
      then have "lock_owner c d \<noteq> None" "lock_owner c d \<noteq> Some i"
        by (auto simp: lock_owner_insert split: option.splits)
      with False assms r m keep [of c] show thesis by (intro lost) (auto simp: start_run_def Let_def)
    qed
  qed
qed

lemma start_run_lock_inv:
  assumes inv: "lock_inv d" and s: "start_run now i d = Inr (d', ok)"
  shows "lock_inv d'"
  using s
proof (cases rule: start_run_cases)
  case (free r)
  have own: "get_run (run_id x) d = Some x" if "x \<in> set (t_runs d)" for x
    using inv that by (simp add: lock_inv_def keys_ok_def run_tab.fetch_member)
  show ?thesis
  proof (rule lock_inv_upd_run [OF inv, where f = "mark_started now" and i = i])
    fix x c assume x: "x \<in> set (t_runs d)" "run_id x = i" "holds_ticker (mark_started now x) = Some c"
    with own [OF x(1)] free have "x = r" by simp
    with x free show "lock_owner c d' = Some i" by (auto simp: holds_ticker_def split: if_splits)
  qed (use inv free in \<open>simp_all add: upd_run_def lock_inv_def lock_owner_def\<close>)
next
  case (won r c)
  have own: "get_run (run_id x) d = Some x" if "x \<in> set (t_runs d)" for x
    using inv that by (simp add: lock_inv_def keys_ok_def run_tab.fetch_member)
  have lo: "lock_owner x d' = lock_owner x (insert_lock now c i d)" for x
    by (simp add: won lock_owner_def upd_run_def)
  show ?thesis
  proof (rule lock_inv_upd_run [OF inv, where f = "mark_started now" and i = i])
    fix x k assume x: "x \<in> set (t_runs d)" "run_id x = i" "holds_ticker (mark_started now x) = Some k"
    with own [OF x(1)] won have "x = r" by simp
    with x won(3) have "k = c" by (simp add: holds_ticker_def split: if_splits)
    with won(5) show "lock_owner k d' = Some i" by (simp only: lo)
  next
    show "distinct (map lk_coverage (t_locks d'))"
      using inv distinct_insert_lock by (simp add: won upd_run_def lock_inv_def)
  next
    show "lock_owner k d' = Some (run_id x)" if "lock_owner k d = Some (run_id x)" for x k
      using that by (simp only: lo lock_owner_insert) simp
    show "t_runs d' = upd_row run_id i (mark_started now) (t_runs d)" and "next_id d \<le> next_id d'"
      by (simp_all add: won upd_run_def)
  qed simp
next
  case (lost r c)
  with inv show ?thesis by simp
qed

lemma requeue_run_lock_inv:
  assumes "lock_inv d" and "requeue_run i reason d = Inr d'"
  shows "lock_inv d'"
proof -
  from assms(2) have d': "d' = upd_run i (\<lambda>r. r\<lparr>run_status := RS_Queued, run_error := Some reason\<rparr>) d"
    by (auto simp: requeue_run_def andthen_Inr_iff run_requeue_iff)
  show ?thesis
    by (rule lock_inv_upd_run [OF assms(1), where i = i
          and f = "\<lambda>r. r\<lparr>run_status := RS_Queued, run_error := Some reason\<rparr>"])
      (use assms(1) in \<open>auto simp: d' upd_run_def lock_inv_def lock_owner_def holds_ticker_def\<close>)
qed

text \<open>What \<open>finish_run\<close> does.\<close>

lemma mark_finished_simps [simp]:
  "run_id (mark_finished now st sm e r) = run_id r" "run_coverage (mark_finished now st sm e r) = run_coverage r"
  "run_mutates (mark_finished now st sm e r) = run_mutates r" "run_status (mark_finished now st sm e r) = st"
  "run_type (mark_finished now st sm e r) = run_type r" "run_cost (mark_finished now st sm e r) = run_cost r"
  by (simp_all add: mark_finished_def)

lemma FINISH_ACTION_Some:
  "map_of FINISH_ACTION s = Some a \<longleftrightarrow>
     (s = ''succeeded'' \<and> a = RA_Succeed) \<or> (s = ''failed'' \<and> a = RA_Fail) \<or> (s = ''cancelled'' \<and> a = RA_Cancel)"
  by (auto simp: FINISH_ACTION_def)

lemma finish_runE:
  assumes "finish_run now i status summary err d = Inr d'"
  obtains r st where "get_run i d = Some r" "run_final st" "\<not> run_final (run_status r)"
    "run_status_value st = status"
    "(status = ''cancelled'' \<and> run_status r \<in> {RS_Queued, RS_Running, RS_Waiting_PM}) \<or>
     (status = ''failed'' \<and> run_status r = RS_Running) \<or>
     (status = ''succeeded'' \<and> run_status r \<in> {RS_Running, RS_Waiting_PM})"
    "d' = finish_effect now i status r ''outbox:run.finished''
            (release_lock i (upd_run i (mark_finished now st summary err) d))"
proof -
  from assms obtain r a sm where r: "get_run i d = Some r" and a: "map_of FINISH_ACTION status = Some a"
    and sm: "run_transition (run_status r) a \<lparr>ctx_attempts = 0, ctx_max_attempts = 1\<rparr> = Inr sm"
    and d': "d' = fold (finish_effect now i status r) (rt_effects sm)
            (upd_run i (mark_finished now (rt_to sm) summary err) d)"
    by (auto simp: finish_run_def andthen_Inr_iff)
  let ?eff = "[''release_lock'', ''outbox:run.finished'']"
  have rel: "finish_effect now i status r ''release_lock'' x = release_lock i x" for x
    by (simp add: finish_effect_def)
  have acc: "rt_effects sm = ?eff \<and> run_final (rt_to sm) \<and> \<not> run_final (run_status r) \<and>
      run_status_value (rt_to sm) = status \<and>
      ((status = ''cancelled'' \<and> run_status r \<in> {RS_Queued, RS_Running, RS_Waiting_PM}) \<or>
       (status = ''failed'' \<and> run_status r = RS_Running) \<or>
       (status = ''succeeded'' \<and> run_status r \<in> {RS_Running, RS_Waiting_PM}))"
    using a unfolding FINISH_ACTION_Some
  proof (elim disjE conjE)
    assume "status = ''succeeded''" "a = RA_Succeed"
    with sm show ?thesis by (auto simp: run_succeed_iff run_final_def RUN_TERMINAL_def)
  next
    assume "status = ''failed''" "a = RA_Fail"
    with sm show ?thesis by (simp add: run_fail_iff run_final_def RUN_TERMINAL_def)
  next
    assume "status = ''cancelled''" "a = RA_Cancel"
    with sm show ?thesis by (auto simp: run_cancel_iff run_final_def RUN_TERMINAL_def)
  qed
  then have "d' = finish_effect now i status r ''outbox:run.finished''
            (release_lock i (upd_run i (mark_finished now (rt_to sm) summary err) d))"
    using d' rel by simp
  with acc r show thesis by (intro that [of r "rt_to sm"]) blast+
qed

lemma finish_run_lock_inv:
  assumes inv: "lock_inv d" and f: "finish_run now i status summary err d = Inr d'"
  shows "lock_inv d'"
  using f
proof (rule finish_runE)
  fix r st
  assume fin: "run_final st" and d': "d' = finish_effect now i status r ''outbox:run.finished''
            (release_lock i (upd_run i (mark_finished now st summary err) d))"
  have dist: "distinct (map lk_coverage (t_locks d))" using inv by (simp add: lock_inv_def)
  have lo: "lock_owner c d' = (if lock_owner c d = Some i then None else lock_owner c d)" for c
    using lock_owner_release [OF dist]
    by (simp add: d' finish_effect_def emit_def new_id_def upd_run_def release_lock_def lock_owner_def)
  show ?thesis
  proof (rule lock_inv_upd_run [OF inv, where f = "mark_finished now st summary err" and i = i])
    show "distinct (map lk_coverage (t_locks d'))"
      using dist by (simp add: d' finish_effect_def emit_def new_id_def upd_run_def release_lock_def
          distinct_map_filter)
    show "lock_owner c d' = Some i" if "holds_ticker (mark_finished now st summary err r) = Some c" for r c
      using that fin by (auto simp: holds_ticker_def run_final_def RUN_TERMINAL_def split: if_splits)
    show "t_runs d' = upd_row run_id i (mark_finished now st summary err) (t_runs d)"
      and "next_id d \<le> next_id d'"
      by (simp_all add: d' finish_effect_def emit_def new_id_def upd_run_def release_lock_def)
  qed (simp_all add: lo)
qed

lemma open_gate_frame:
  "open_gate i k p pl al d = Inr (d', g) \<Longrightarrow>
     t_runs d' = t_runs d \<and> t_locks d' = t_locks d \<and> next_id d \<le> next_id d' \<and>
     t_coverage d' = t_coverage d \<and> t_stages d' = t_stages d"
  by (cases "get_run i d") (auto simp: open_gate_def Let_def new_id_def)

lemma answer_gate_frame:
  assumes "answer_gate now i a x n k d = Inr (d', g)"
  shows "t_runs d' = t_runs d \<and> t_locks d' = t_locks d \<and> next_id d \<le> next_id d' \<and>
     t_coverage d' = t_coverage d \<and> t_stages d' = t_stages d"
proof -
  from assms have "d' = d \<or> d' = upd_gate i (mark_answered now a x n k) d"
    by (cases "get_gate i d") (simp_all add: answer_gate_def split: if_splits)
  then show ?thesis by (auto simp: upd_gate_def)
qed

section \<open>Properties\<close>

text \<open>
  The operations on runs; \<open>wait\<close> is what the engine does to a run that reaches a gate, and
  \<open>bill\<close> the queue's cost rollup.
\<close>

inductive run_op :: "db \<Rightarrow> db \<Rightarrow> bool" where
  create: "create_run_row now a d = Inr (d', r) \<Longrightarrow> run_op d d'"
| stages: "add_stages now i ss d = Inr d' \<Longrightarrow> run_op d d'"
| start: "start_run now i d = Inr (d', ok) \<Longrightarrow> run_op d d'"
| requeue: "requeue_run i reason d = Inr d' \<Longrightarrow> run_op d d'"
| finish: "finish_run now i status summary err d = Inr d' \<Longrightarrow> run_op d d'"
| gate: "open_gate i k p pl al d = Inr (d', g) \<Longrightarrow> run_op d d'"
| answer: "answer_gate now i a x n k d = Inr (d', g) \<Longrightarrow> run_op d d'"
| wait: "get_run i d = Some r \<Longrightarrow> run_transition (run_status r) RA_Open_Gate ctx = Inr sm \<Longrightarrow>
    run_op d (upd_run i (\<lambda>r. r\<lparr>run_status := rt_to sm\<rparr>) d)"
| bill: "rollup_run af fl i d = Inr d' \<Longrightarrow> run_op d d'"

lemma wait_lock_inv:
  assumes inv: "lock_inv d" and r: "get_run i d = Some r" and run: "run_status r = RS_Running"
  shows "lock_inv (upd_run i (\<lambda>r. r\<lparr>run_status := RS_Waiting_PM\<rparr>) d)"
proof (rule lock_inv_upd_run [OF inv, where f = "\<lambda>r. r\<lparr>run_status := RS_Waiting_PM\<rparr>" and i = i])
  fix x c assume x: "x \<in> set (t_runs d)" "run_id x = i"
    "holds_ticker (x\<lparr>run_status := RS_Waiting_PM\<rparr>) = Some c"
  have "get_run (run_id x) d = Some x"
    using inv x(1) by (simp add: lock_inv_def keys_ok_def run_tab.fetch_member)
  with x(2) r have "x = r" by simp
  with x run have "holds_ticker x = Some c" by (auto simp: holds_ticker_def split: if_splits)
  with lock_invD [OF inv x(1)] x(2)
  show "lock_owner c (upd_run i (\<lambda>r. r\<lparr>run_status := RS_Waiting_PM\<rparr>) d) = Some i"
    by (simp add: lock_owner_def upd_run_def)
qed (use inv in \<open>simp_all add: upd_run_def lock_inv_def lock_owner_def\<close>)

lemma rollup_lock_inv:
  assumes "lock_inv d" and "rollup_run af fl i d = Inr d'"
  shows "lock_inv d'"
proof -
  let ?f = "\<lambda>x. x\<lparr>run_cost := stage_cost_total i (sql_view af fl (t_stages d))\<rparr>"
  from assms(2) have d': "d' = upd_run i ?f d" by (simp add: rollup_run_Inr)
  have h: "holds_ticker (?f x) = holds_ticker x" for x by (auto simp: holds_ticker_def)
  show ?thesis
    by (rule lock_inv_upd_run [OF assms(1), where f = ?f and i = i])
      (use assms(1) in \<open>auto simp: d' upd_run_def lock_inv_def lock_owner_def h\<close>)
qed

lemma run_op_lock_inv:
  assumes "run_op d d'" and inv: "lock_inv d"
  shows "lock_inv d'"
  using assms(1)
proof cases
  case (stages now i ss)
  with inv show ?thesis by (blast intro: lock_inv_cong dest: add_stages_frame)
next
  case (gate i k p pl al g)
  with inv show ?thesis by (blast intro: lock_inv_cong dest: open_gate_frame)
next
  case (answer now i a x n k g)
  with inv show ?thesis by (blast intro: lock_inv_cong dest: answer_gate_frame)
next
  case (wait i r ctx sm)
  with inv show ?thesis by (auto simp: run_open_gate_iff wait_lock_inv)
qed (use inv in \<open>blast intro: create_run_lock_inv start_run_lock_inv requeue_run_lock_inv
    finish_run_lock_inv rollup_lock_inv\<close>)+

lemma run_ops_lock_inv: "run_op\<^sup>*\<^sup>* d d' \<Longrightarrow> lock_inv d \<Longrightarrow> lock_inv d'"
  by (induction rule: rtranclp_induct) (auto intro: run_op_lock_inv)

text \<open>
  C5.  At any moment of any history of run operations, at most one run that mutates a ticker's
  dossier is running or waiting for the PM on that ticker, and that run owns the ticker's lock.
\<close>

theorem one_mutating_run_per_ticker:
  assumes "lock_inv d0" and "run_op\<^sup>*\<^sup>* d0 d" and "r1 \<in> set (t_runs d)" and "r2 \<in> set (t_runs d)"
    and "run_mutates r1" and "run_mutates r2"
    and "run_coverage r1 = Some c" and "run_coverage r2 = Some c"
    and "run_status r1 \<in> {RS_Running, RS_Waiting_PM}" and "run_status r2 \<in> {RS_Running, RS_Waiting_PM}"
  shows "r1 = r2 \<and> lock_owner c d = Some (run_id r1)"
proof -
  have inv: "lock_inv d" using assms(1,2) by (rule run_ops_lock_inv [rotated])
  have "lock_owner c d = Some (run_id r1)" "lock_owner c d = Some (run_id r2)"
    using lock_invD [OF inv assms(3), of c] lock_invD [OF inv assms(4), of c] assms(5-10)
    by (simp_all add: holds_ticker_def)
  moreover have "get_run (run_id r) d = Some r" if "r \<in> set (t_runs d)" for r
    using inv that by (simp add: lock_inv_def keys_ok_def run_tab.fetch_member)
  ultimately show ?thesis using assms(3,4) by (metis option.inject)
qed

definition sample_run_in :: run_in where
  "sample_run_in = \<lparr>ri_coverage = Some 0, ri_type = ''deep_review'', ri_trigger = ''pm'', ri_params = [],
     ri_priority = 100, ri_budget_cap = None, ri_requested_by = None, ri_trigger_ref = None\<rparr>"

definition two_runs :: db where
  "two_runs = (case create_run_row 1 sample_run_in (empty_db\<lparr>next_id := 1\<rparr>) of
     Inl _ \<Rightarrow> empty_db
   | Inr (d, _) \<Rightarrow> (case create_run_row 2 sample_run_in d of Inl _ \<Rightarrow> empty_db | Inr (d', _) \<Rightarrow> d'))"

definition one_started :: db where
  "one_started = (case start_run 3 1 two_runs of Inl _ \<Rightarrow> empty_db | Inr (d, _) \<Rightarrow> d)"

lemmas run_eval_simps =
  two_runs_def sample_run_in_def create_run_row_def run_type_of_def enum_of_def run_type_members_def
  ck_runs_coverage_required_def uq_runs_trigger_ref_def NON_MUTATING_def empty_db_def new_id_def
  one_started_def start_run_def get_run_def upd_run_def insert_lock_def lock_owner_def mark_started_def
  Let_def

lemma empty_lock_inv: "lock_inv (empty_db\<lparr>next_id := n\<rparr>)"
  by (simp add: lock_inv_def empty_db_def keys_ok_def fresh_in_def)

lemma two_runs_inv: "lock_inv two_runs"
proof -
  obtain d r where 1: "create_run_row 1 sample_run_in (empty_db\<lparr>next_id := 1\<rparr>) = Inr (d, r)"
    by (simp add: run_eval_simps)
  moreover obtain d' r' where 2: "create_run_row 2 sample_run_in d = Inr (d', r')"
    using 1 by (auto simp: run_eval_simps)
  ultimately have "two_runs = d'" by (simp add: two_runs_def)
  with create_run_lock_inv [OF create_run_lock_inv [OF empty_lock_inv 1] 2] show ?thesis by simp
qed

lemma one_started_eq: "start_run 3 1 two_runs = Inr (one_started, True)"
  by (simp add: run_eval_simps)

lemma one_started_inv: "lock_inv one_started"
  by (rule start_run_lock_inv [OF two_runs_inv one_started_eq])

theorem one_mutating_run_per_ticker_witness:
  "\<exists>r \<in> set (t_runs one_started). run_id r = 1 \<and> lock_owner 0 one_started = Some (run_id r)"
proof -
  have "\<exists>r \<in> set (t_runs one_started). run_id r = 1 \<and> run_mutates r \<and> run_coverage r = Some 0 \<and>
      run_status r = RS_Running"
    by (simp add: run_eval_simps)
  then obtain r where r: "r \<in> set (t_runs one_started)" "run_id r = 1" "run_mutates r"
    "run_coverage r = Some 0" "run_status r = RS_Running" by blast
  have "run_op\<^sup>*\<^sup>* two_runs one_started" using one_started_eq by (blast intro: run_op.start)
  from one_mutating_run_per_ticker [OF two_runs_inv this r(1) r(1)] r show ?thesis by auto
qed

text \<open>
  \<open>start_run\<close> succeeds exactly when the run needs no lock, the ticker's lock is free or
  the run holds it already; then the run is running and owns the lock, and otherwise nothing at all
  has changed.
\<close>

theorem start_run_exact:
  assumes "start_run now i d = Inr (d', ok)" and "get_run i d = Some r"
  shows "(ok \<longleftrightarrow> \<not> run_mutates r \<or> run_coverage r = None \<or>
             (\<exists>c. run_coverage r = Some c \<and> lock_owner c d \<in> {None, Some i})) \<and>
         (\<not> ok \<longrightarrow> d' = d) \<and>
         (ok \<longrightarrow> get_run i d' = Some (mark_started now r) \<and> run_status (mark_started now r) = RS_Running \<and>
            (\<forall>c. run_mutates r \<and> run_coverage r = Some c \<longrightarrow> lock_owner c d' = Some i))"
  using assms(1)
proof (cases rule: start_run_cases)
  case (free r')
  with assms(2) show ?thesis by (auto simp: run_tab.fetch_mutate)
next
  case (won r' c)
  have "get_run i d' = Some (mark_started now r)"
    using won assms(2) by (simp add: run_tab.fetch_mutate) (simp add: get_run_def)
  moreover have "lock_owner c d' = Some i" using won by (simp add: lock_owner_def upd_run_def)
  moreover have "lock_owner c d \<in> {None, Some i}"
    using won by (auto simp: lock_owner_insert split: option.splits)
  ultimately show ?thesis using won assms(2) by simp
next
  case (lost r' c)
  with assms(2) show ?thesis by auto
qed

theorem start_run_exact_witness:
  "start_run 4 2 one_started = Inr (one_started, False) \<and> lock_owner 0 one_started = Some 1"
proof -
  have "\<not> isl (start_run 4 2 one_started)" by (simp add: run_eval_simps)
  then obtain d' ok where s: "start_run 4 2 one_started = Inr (d', ok)"
    by (cases "start_run 4 2 one_started") auto
  have "\<exists>r. get_run 2 one_started = Some r \<and> run_mutates r \<and> run_coverage r = Some 0"
    by (simp add: run_eval_simps)
  then obtain r where r: "get_run 2 one_started = Some r" "run_mutates r" "run_coverage r = Some 0" by blast
  have "lock_owner 0 one_started = Some 1" by (simp add: run_eval_simps)
  with start_run_exact [OF s r(1)] r s show ?thesis by auto
qed

text \<open>
  C24.  Finishing hands the ticker over: the run is final with the given outcome and its finish
  time, exactly one \<open>run.finished\<close> message is added, the lock it held is free again, so any other
  mutating run of the ticker can start at once, and finishing a second time is refused.
\<close>

theorem finish_run_hands_over:
  assumes "lock_inv d" and "finish_run now i status summary err d = Inr d'"
    and "lock_owner c d = Some i"
    and "get_run j d = Some r2" and "j \<noteq> i" and "run_coverage r2 = Some c"
  shows "(\<exists>r. get_run i d' = Some r \<and> run_final (run_status r) \<and> run_status_value (run_status r) = status \<and>
             run_finished_at r = Some now) \<and>
         (\<exists>m. t_outbox d' = t_outbox d @ [m] \<and> ob_kind m = ''run.finished'' \<and> ob_run m = Some i) \<and>
         lock_owner c d' = None \<and>
         (\<exists>d2. start_run t j d' = Inr (d2, True)) \<and>
         (\<exists>e. finish_run t i status' summary' err' d' = Inl e)"
  using assms(2)
proof (rule finish_runE)
  fix r st
  assume get: "get_run i d = Some r" and fin: "run_final st" and val: "run_status_value st = status"
    and d': "d' = finish_effect now i status r ''outbox:run.finished''
            (release_lock i (upd_run i (mark_finished now st summary err) d))"
  have runs: "t_runs d' = upd_row run_id i (mark_finished now st summary err) (t_runs d)"
    and locks: "t_locks d' = t_locks (release_lock i d)"
    and ob: "\<exists>m. t_outbox d' = t_outbox d @ [m] \<and> ob_kind m = ''run.finished'' \<and> ob_run m = Some i"
    by (simp_all add: d' finish_effect_def emit_def new_id_def upd_run_def release_lock_def)
  have get': "get_run i d' = Some (mark_finished now st summary err r)"
    using get by (simp add: get_run_def runs get_row_upd_same)
  have getj: "get_run j d' = Some r2"
    using assms(4,5) by (simp add: get_run_def runs get_row_upd_other)
  have "lock_owner c d' = lock_owner c (release_lock i d)" by (simp add: lock_owner_def locks)
  then have free: "lock_owner c d' = None"
    using assms(1,3) by (simp add: lock_owner_release lock_inv_def)
  then have "\<exists>d2. start_run t j d' = Inr (d2, True)"
    using getj assms(6) by (auto simp: start_run_def lock_owner_insert Let_def)
  moreover have "\<not> finish_run t i status' summary' err' d' = Inr x" for x
  proof
    assume "finish_run t i status' summary' err' d' = Inr x"
    then show False by (rule finish_runE) (use get' fin in auto)
  qed
  then have "\<exists>e. finish_run t i status' summary' err' d' = Inl e"
    by (cases "finish_run t i status' summary' err' d'") auto
  moreover have "run_finished_at (mark_finished now st summary err r) = Some now"
    by (simp add: mark_finished_def)
  ultimately show ?thesis using get' fin val ob free by auto
qed

theorem finish_run_hands_over_witness:
  "\<exists>d' d2. finish_run 9 1 ''succeeded'' None None one_started = Inr d' \<and> start_run 10 2 d' = Inr (d2, True)"
proof -
  have "\<exists>d'. finish_run 9 1 ''succeeded'' None None one_started = Inr d'"
    by (simp add: run_eval_simps finish_run_def FINISH_ACTION_def run_transition_def run_legal_def)
  then obtain d' where f: "finish_run 9 1 ''succeeded'' None None one_started = Inr d'" by blast
  have "\<exists>r. get_run 2 one_started = Some r \<and> run_coverage r = Some 0" by (simp add: run_eval_simps)
  then obtain r where r: "get_run 2 one_started = Some r" "run_coverage r = Some 0" by blast
  have "lock_owner 0 one_started = Some 1" by (simp add: run_eval_simps)
  from finish_run_hands_over [OF one_started_inv f this r(1) _ r(2), of 10] f show ?thesis by auto
qed

text \<open>
  Answering a gate twice with one key is a replay that changes nothing.  With another key the
  last answer wins: whatever the gate's state and whether or not the answer is among the allowed
  ones, the gate is answered with it.
\<close>

theorem answer_gate_last_wins:
  assumes "get_gate i d = Some g" and "\<forall>h \<in> set (t_gates d). gt_id h \<noteq> i \<longrightarrow> gt_idempotency_key h \<noteq> Some key"
  shows "\<exists>d' g'. answer_gate now i answer actor notes key d = Inr (d', g') \<and> get_gate i d' = Some g' \<and>
           gt_state g' = GS_Answered \<and> gt_idempotency_key g' = Some key \<and>
           (if gt_state g = GS_Answered \<and> gt_idempotency_key g = Some key then d' = d
            else gt_answer g' = Some answer \<and> gt_answered_by g' = Some actor) \<and>
           answer_gate now' i answer' actor' notes' key d' = Inr (d', g')"
proof (cases "gt_state g = GS_Answered \<and> gt_idempotency_key g = Some key")
  case True
  with assms(1) show ?thesis by (auto simp: answer_gate_def)
next
  case False
  let ?m = "mark_answered now answer actor notes key"
  have ex: "answer_gate now i answer actor notes key d = Inr (upd_gate i ?m d, ?m g)"
    using assms False by (auto simp: answer_gate_def list_ex_iff)
  have get: "get_gate i (upd_gate i ?m d) = Some (?m g)"
    using assms(1) by (simp add: gate_tab.fetch_mutate mark_answered_def)
  have m: "gt_state (?m g) = GS_Answered" "gt_idempotency_key (?m g) = Some key"
    "gt_answer (?m g) = Some answer" "gt_answered_by (?m g) = Some actor"
    by (simp_all add: mark_answered_def)
  have again: "answer_gate now' i answer' actor' notes' key (upd_gate i ?m d) = Inr (upd_gate i ?m d, ?m g)"
    by (simp add: answer_gate_def get m)
  show ?thesis using ex get m again False by auto
qed

definition one_gate :: db where
  "one_gate = (case open_gate 1 ''initiation_decision'' ''?'' [] [''active''] one_started of
     Inl _ \<Rightarrow> empty_db | Inr (d, _) \<Rightarrow> d)"

theorem answer_gate_last_wins_witness:
  "\<exists>d' g'. answer_gate 9 3 ''nonsense'' ''pm'' None ''k'' one_gate = Inr (d', g') \<and>
     gt_answer g' = Some ''nonsense'' \<and> ''nonsense'' \<notin> set (gt_allowed g')"
proof -
  have "\<exists>g. get_gate 3 one_gate = Some g \<and> gt_state g = GS_Open"
    by (simp add: one_gate_def open_gate_def run_eval_simps get_gate_def)
  then obtain g where g: "get_gate 3 one_gate = Some g" "gt_state g = GS_Open" by blast
  have "\<forall>h \<in> set (t_gates one_gate). gt_id h \<noteq> 3 \<longrightarrow> gt_idempotency_key h \<noteq> Some ''k''"
    by (simp add: one_gate_def open_gate_def run_eval_simps)
  from answer_gate_last_wins [OF g(1) this, of 9 "''nonsense''" "''pm''" None] g(2)
  have "\<exists>d' g'. answer_gate 9 3 ''nonsense'' ''pm'' None ''k'' one_gate = Inr (d', g') \<and>
     gt_answer g' = Some ''nonsense''" by (simp del: split_paired_Ex) blast
  moreover have "gt_allowed g' = [''active'']"
    if "answer_gate 9 3 ''nonsense'' ''pm'' None ''k'' one_gate = Inr (d', g')" for d' g'
    using that by (auto simp: one_gate_def answer_gate_def open_gate_def run_eval_simps get_gate_def
        mark_answered_def)
  ultimately show ?thesis by fastforce
qed

end
