(* ===== verification/Coverage_Repo.thy ===== *)
theory Coverage_Repo
  imports Coverage_SM Dossier_Slug Runs_Repo
begin

text \<open>
  \<open>core/db/repo/coverage.py\<close>: the operations that move a ticker through the coverage state
  machine and write its audit trail.  \<open>record_transition\<close> is \<open>_record\<close>: it appends the
  transition, audit and outbox rows and performs the side effects the state machine asks for; the
  closing flush checks the coverage row against its CHECK constraint and foreign key.
  \<open>coverage_inv\<close> says that the transition rows of every ticker are a path of the machine from
  creation to its current state.
\<close>

section \<open>Operations\<close>

definition decision_answer :: "action \<Rightarrow> error + string" where
  "decision_answer a = (case a of
     Act_Decide_Active \<Rightarrow> Inr ''active''
   | Act_Decide_Watch \<Rightarrow> Inr ''watch''
   | Act_Decide_Reject \<Rightarrow> Inr ''reject''
   | _ \<Rightarrow> Inl (KeyError (action_value a)))"

definition has_open_position_row :: "string \<Rightarrow> db \<Rightarrow> bool" where
  "has_open_position_row ticker d \<longleftrightarrow>
     list_ex (\<lambda>p. po_ticker p = ticker \<and> po_net_quantity p \<noteq> 0) (t_positions d)"

definition open_gate_of :: "uuid option \<Rightarrow> db \<Rightarrow> gate_row option" where
  "open_gate_of r d = find (\<lambda>g. Some (gt_run g) = r \<and> gt_state g = GS_Open) (t_gates d)"

definition build_ctx ::
  "coverage_row \<Rightarrow> action \<Rightarrow> uuid option \<Rightarrow> bool \<Rightarrow> string option \<Rightarrow> db \<Rightarrow> transition_context" where
  "build_ctx cov a r frc notes d =
     default_ctx\<lparr>has_open_position := has_open_position_row (cov_ticker cov) d, force := frc,
       note_provided := (case notes of None \<Rightarrow> False | Some n \<Rightarrow> n \<noteq> []),
       gate_open := (a \<in> set DECIDE_ACTIONS \<longrightarrow> open_gate_of r d \<noteq> None),
       answer_in_allowed := (a \<in> set DECIDE_ACTIONS \<longrightarrow>
         (case (open_gate_of r d, decision_answer a) of
            (Some g, Inr ans) \<Rightarrow> ans \<in> set (gt_allowed g) | _ \<Rightarrow> False))\<rparr>"

definition json_text :: "json \<Rightarrow> string option" where
  "json_text v = (case v of JStr s \<Rightarrow> Some s | _ \<Rightarrow> None)"

record record_args =
  ra_now :: time
  ra_action :: action
  ra_actor_type :: actor_type
  ra_actor :: string
  ra_run :: "uuid option"
  ra_notes :: "string option"
  ra_request :: string

definition decision_gate :: "uuid \<Rightarrow> uuid \<Rightarrow> uuid \<Rightarrow> gate_row" where
  "decision_gate i r c = \<lparr>gt_id = i, gt_run = r, gt_coverage = Some c, gt_kind = ''initiation_decision'',
     gt_state = GS_Open, gt_prompt = ''Decide initiation: active, watch, or reject?'', gt_payload = [],
     gt_allowed = [''active'', ''watch'', ''reject''], gt_answer = None, gt_answer_notes = None,
     gt_answered_by = None, gt_answered_at = None, gt_idempotency_key = None\<rparr>"

definition state_effect :: "record_args \<Rightarrow> uuid \<Rightarrow> string \<Rightarrow> db \<Rightarrow> error + db" where
  "state_effect a c eff d =
     (if starts_with ''outbox:'' eff then
        let kind = after_first (CHR '':'') eff in
        Inr (if kind = ''coverage.state_changed'' then d
             else emit (ra_now a) kind (Some c) (ra_run a)
                    [(''request_id'', JStr (ra_request a)), (''coverage_id'', JStr (show_nat c))]
                    (kind @ '':'' @ show_nat c @ '':'' @ uuid_hex d) d)
      else if eff = ''cancel_open_gate'' then
        Inr (d\<lparr>t_gates := map (\<lambda>g. if Some (gt_run g) = ra_run a \<and> gt_state g = GS_Open
                                then g\<lparr>gt_state := GS_Cancelled\<rparr> else g) (t_gates d)\<rparr>)
      else if eff = ''open_gate:initiation_decision'' then
        andthen (require (IntegrityError ''pm_gates.run_id'') (ra_run a)) (\<lambda>r.
        Inr ((new_id d)\<lparr>t_gates := t_gates d @ [decision_gate (next_id d) r c]\<rparr>))
      else if eff = ''answer_gate'' then
        (case open_gate_of (ra_run a) d of
           None \<Rightarrow> Inr d
         | Some g \<Rightarrow>
             andthen (decision_answer (ra_action a)) (\<lambda>ans.
             Inr (upd_gate (gt_id g) (\<lambda>g. g\<lparr>gt_state := GS_Answered, gt_answer := Some ans,
                    gt_answered_by := Some (ra_actor a), gt_answered_at := Some (ra_now a)\<rparr>) d)))
      else if eff = ''set_lead_house'' then
        (case (case ra_run a of None \<Rightarrow> None | Some r \<Rightarrow> get_run r d) of
           None \<Rightarrow> Inr d
         | Some r \<Rightarrow> Inr (upd_coverage c (\<lambda>x. x\<lparr>cov_lead_house :=
                             json_text (jget (run_params r) ''lead_house'')\<rparr>) d))
      else Inr d)"

definition flush_coverage :: "uuid \<Rightarrow> db \<Rightarrow> error + db" where
  "flush_coverage c d =
     andthen (require AttributeError (get_coverage c d)) (\<lambda>x.
     andthen (ensure (IntegrityError ''ck_coverage_lead_required_when_live'')
                (ck_coverage_lead_required_when_live x)) (\<lambda>_.
     andthen (ensure (IntegrityError ''fk_coverage_lead_house'')
                (case cov_lead_house x of None \<Rightarrow> True | Some h \<Rightarrow> has_house h d)) (\<lambda>_.
     Inr d)))"

definition from_json :: "coverage_state option \<Rightarrow> json" where
  "from_json s = (case s of None \<Rightarrow> JNull | Some s \<Rightarrow> JStr (coverage_state_value s))"

definition trail_row :: "record_args \<Rightarrow> uuid \<Rightarrow> coverage_state option \<Rightarrow> cov_transition \<Rightarrow> transition_row" where
  "trail_row a c from_state sm = \<lparr>tr_coverage = c, tr_from = from_state, tr_to = ct_to sm,
     tr_actor_type = actor_type_value (ra_actor_type a), tr_actor = ra_actor a,
     tr_cause = ct_cause sm, tr_run = ra_run a, tr_notes = ra_notes a\<rparr>"

definition audit_entry :: "record_args \<Rightarrow> uuid \<Rightarrow> coverage_state option \<Rightarrow> cov_transition \<Rightarrow> audit_row" where
  "audit_entry a c from_state sm = \<lparr>au_action = ''coverage.'' @ action_value (ra_action a),
     au_actor_type = actor_type_value (ra_actor_type a), au_actor = ra_actor a,
     au_target = Some (''coverage:'' @ show_nat c),
     au_before = JObj [(''state'', from_json from_state)],
     au_after = JObj [(''state'', JStr (coverage_state_value (ct_to sm)))],
     au_request_id = Some (ra_request a)\<rparr>"

definition trail_rows :: "record_args \<Rightarrow> uuid \<Rightarrow> coverage_state option \<Rightarrow> cov_transition \<Rightarrow> db \<Rightarrow> db" where
  "trail_rows a c from_state sm d =
     emit (ra_now a) ''coverage.state_changed'' (Some c) (ra_run a)
       [(''request_id'', JStr (ra_request a)),
        (''to_state'', JStr (coverage_state_value (ct_to sm))), (''cause'', JStr (ct_cause sm))]
       (''coverage.state_changed:'' @ show_nat c @ '':'' @ uuid_hex d)
       (d\<lparr>t_transitions := t_transitions d @ [trail_row a c from_state sm],
          t_audit := t_audit d @ [audit_entry a c from_state sm]\<rparr>)"

definition record_transition ::
  "record_args \<Rightarrow> uuid \<Rightarrow> coverage_state option \<Rightarrow> cov_transition \<Rightarrow> db \<Rightarrow> error + db" where
  "record_transition a c from_state sm d =
     andthen (fold_err (state_effect a c) (ct_effects sm) (trail_rows a c from_state sm d))
       (flush_coverage c)"

text \<open>\<open>request_id or uuid4().hex\<close>.\<close>

definition or_hex :: "string option \<Rightarrow> db \<Rightarrow> string" where
  "or_hex s d = (case s of None \<Rightarrow> uuid_hex d | Some r \<Rightarrow> if r = [] then uuid_hex d else r)"

record propose_in =
  pi_ticker :: string
  pi_exchange :: string
  pi_name :: string
  pi_currency :: string
  pi_actor :: string
  pi_notes :: "string option"
  pi_isin :: "string option"
  pi_request :: "string option"

definition propose_coverage :: "time \<Rightarrow> propose_in \<Rightarrow> db \<Rightarrow> error + (db \<times> uuid)" where
  "propose_coverage now p d =
     (let slug = compute_dossier_slug (pi_exchange p) (pi_ticker p);
          c = next_id d;
          cov = \<lparr>cov_id = c, cov_ticker = pi_ticker p, cov_exchange = pi_exchange p,
                 cov_name = pi_name p, cov_currency = pi_currency p, cov_isin = pi_isin p,
                 cov_state = CS_Proposed, cov_lead_house = None, cov_dossier_slug = slug,
                 cov_pm_notes = pi_notes p, cov_proposed_by = Some (pi_actor p),
                 cov_decided_at = None, cov_exited_at = None\<rparr>
      in if list_ex (\<lambda>x. cov_exchange x = pi_exchange p \<and> cov_ticker x = pi_ticker p) (t_coverage d)
         then Inl (IntegrityError ''uq_coverage_exchange_ticker'')
         else if list_ex (\<lambda>x. cov_dossier_slug x = slug) (t_coverage d)
         then Inl (IntegrityError ''uq_coverage_dossier_slug'')
         else
           let d1 = (new_id d)\<lparr>t_coverage := t_coverage d @ [cov]\<rparr> in
           andthen (transition None Act_Propose default_ctx) (\<lambda>sm.
           andthen (record_transition \<lparr>ra_now = now, ra_action = Act_Propose, ra_actor_type = AT_PM,
                      ra_actor = pi_actor p, ra_run = None, ra_notes = pi_notes p,
                      ra_request = or_hex (pi_request p) d1\<rparr> c None sm d1) (\<lambda>d2.
           Inr (d2, c))))"

definition transition_coverage ::
  "time \<Rightarrow> uuid \<Rightarrow> action \<Rightarrow> actor_type \<Rightarrow> string \<Rightarrow> uuid option \<Rightarrow> bool \<Rightarrow> string option \<Rightarrow>
     string option \<Rightarrow> db \<Rightarrow> error + db" where
  "transition_coverage now c a actor_type actor r frc notes request d =
     (case get_coverage c d of
        None \<Rightarrow> Inl (IllegalTransition None a ''coverage not found'')
      | Some cov \<Rightarrow>
          andthen (transition (Some (cov_state cov)) a (build_ctx cov a r frc notes d)) (\<lambda>sm.
          record_transition \<lparr>ra_now = now, ra_action = a, ra_actor_type = actor_type,
            ra_actor = actor, ra_run = r, ra_notes = notes, ra_request = or_hex request d\<rparr>
            c (Some (cov_state cov)) sm
            (upd_coverage c (\<lambda>x. x\<lparr>cov_state := ct_to sm\<rparr>) d)))"

definition set_lead ::
  "time \<Rightarrow> uuid \<Rightarrow> string \<Rightarrow> string \<Rightarrow> uuid option \<Rightarrow> string option \<Rightarrow> db \<Rightarrow> error + db" where
  "set_lead now c house actor r rationale d =
     (case get_coverage c d of
        None \<Rightarrow> Inl (IllegalTransition None Act_Set_Lead ''coverage not found'')
      | Some cov \<Rightarrow>
          let h = get_house house d;
              ctx = default_ctx\<lparr>
                new_house_enabled := (case h of None \<Rightarrow> False | Some x \<Rightarrow> ho_enabled x),
                new_house_assignable := (case h of None \<Rightarrow> False | Some x \<Rightarrow> ho_assignable x),
                new_house_meta := (case h of None \<Rightarrow> False | Some x \<Rightarrow> ho_meta x)\<rparr>
          in andthen (transition (Some (cov_state cov)) Act_Set_Lead ctx) (\<lambda>sm.
             andthen (record_transition \<lparr>ra_now = now, ra_action = Act_Set_Lead,
                        ra_actor_type = AT_PM, ra_actor = actor, ra_run = r, ra_notes = rationale,
                        ra_request = uuid_hex d\<rparr>
                        c (Some (cov_state cov)) sm
                        (upd_coverage c (\<lambda>x. x\<lparr>cov_lead_house := Some house\<rparr>) d)) (\<lambda>d1.
             Inr (d1\<lparr>t_lead_history := t_lead_history d1 @
                    [\<lparr>lh_coverage = c, lh_from = cov_lead_house cov, lh_to = house, lh_run = r,
                      lh_approved_by = actor, lh_rationale = rationale\<rparr>]\<rparr>))))"

record level_in =
  li_kind :: string
  li_value :: decimal
  li_currency :: string
  li_direction :: string

text \<open>
  The query of \<open>set_levels\<close> sees the flushed rows: with \<open>autoflush=False\<close> the rows added
  earlier in the same call are not among them.  \<open>seen\<close> is the number of flushed rows.
\<close>

definition supersede_level :: "time \<Rightarrow> uuid \<Rightarrow> string \<Rightarrow> level_row \<Rightarrow> level_row" where
  "supersede_level now c kind l =
     (if lv_coverage l = c \<and> lv_kind l = kind \<and> lv_active l
      then l\<lparr>lv_active := False, lv_superseded_at := Some now\<rparr> else l)"

definition set_level ::
  "bool \<Rightarrow> nat \<Rightarrow> time \<Rightarrow> uuid \<Rightarrow> string \<Rightarrow> uuid option \<Rightarrow> level_in \<Rightarrow> level_row list \<Rightarrow> level_row list" where
  "set_level autoflush seen now c set_by r lv rows =
     (let n = sql_view autoflush seen (length rows)
      in map (supersede_level now c (li_kind lv)) (take n rows) @ drop n rows @
         [\<lparr>lv_coverage = c, lv_kind = li_kind lv, lv_value = li_value lv, lv_currency = li_currency lv,
           lv_direction = li_direction lv, lv_set_by = set_by, lv_run = r, lv_active = True,
           lv_superseded_at = None\<rparr>])"

definition set_levels ::
  "bool \<Rightarrow> time \<Rightarrow> uuid \<Rightarrow> level_in list \<Rightarrow> string \<Rightarrow> uuid option \<Rightarrow> db \<Rightarrow> db" where
  "set_levels autoflush now c levels set_by r d =
     d\<lparr>t_levels := fold (set_level autoflush (length (t_levels d)) now c set_by r) levels (t_levels d)\<rparr>"

definition resolve_contributors :: "uuid \<Rightarrow> db \<Rightarrow> error + string list" where
  "resolve_contributors c d =
     (let explicit = filter (\<lambda>x. cc_coverage x = c) (t_contributors d)
      in if explicit \<noteq> [] then Inr (sort (map cc_house explicit))
         else andthen (require AttributeError (get_coverage c d)) (\<lambda>cov.
              Inr (resolve_default_contributors (cov_lead_house cov)
                (map (\<lambda>h. \<lparr>hi_key = ho_key h, hi_enabled = ho_enabled h,
                          hi_assignable = ho_assignable h, hi_meta = ho_meta h\<rparr>) (t_houses d)))))"

definition get_by_slug :: "string \<Rightarrow> db \<Rightarrow> coverage_row option" where
  "get_by_slug slug d = find (\<lambda>x. cov_dossier_slug x = slug) (t_coverage d)"

definition list_by_state :: "coverage_state \<Rightarrow> db \<Rightarrow> coverage_row list" where
  "list_by_state s d = filter (\<lambda>x. cov_state x = s) (t_coverage d)"

section \<open>The audit trail\<close>

definition table_step :: "coverage_state option \<Rightarrow> coverage_state \<Rightarrow> string \<Rightarrow> bool" where
  "table_step s s' cause \<longleftrightarrow> list_ex (\<lambda>((f, _), (t, k, _)). f = s \<and> t = s' \<and> k = cause) ENTRIES"

fun chain :: "coverage_state option \<Rightarrow> transition_row list \<Rightarrow> coverage_state option \<Rightarrow> bool" where
  "chain s [] e = (s = e)"
| "chain s (t # ts) e = (tr_from t = s \<and> table_step s (tr_to t) (tr_cause t) \<and> chain (Some (tr_to t)) ts e)"

definition audit_trail :: "uuid \<Rightarrow> db \<Rightarrow> transition_row list" where
  "audit_trail c d = filter (\<lambda>t. tr_coverage t = c) (t_transitions d)"

definition coverage_inv :: "db \<Rightarrow> bool" where
  "coverage_inv d \<longleftrightarrow> keys_ok cov_id (t_coverage d) (next_id d) \<and>
     (\<forall>t \<in> set (t_transitions d). \<exists>x \<in> set (t_coverage d). cov_id x = tr_coverage t) \<and>
     (\<forall>x \<in> set (t_coverage d). chain None (audit_trail (cov_id x) d) (Some (cov_state x)))"

lemma chain_snoc: "chain s (ts @ [t]) e \<longleftrightarrow>
    chain s ts (tr_from t) \<and> table_step (tr_from t) (tr_to t) (tr_cause t) \<and> e = Some (tr_to t)"
  by (induction ts arbitrary: s) auto

lemma table_step_transition: "transition s a ctx = Inr sm \<Longrightarrow> table_step s (ct_to sm) (ct_cause sm)"
  by (erule transition_InrE) (auto simp: table_step_def list_ex_iff)

text \<open>What the side effects leave alone.\<close>

definition effect_frame :: "db \<Rightarrow> db \<Rightarrow> bool" where
  "effect_frame d d' \<longleftrightarrow> t_transitions d' = t_transitions d \<and> t_audit d' = t_audit d \<and>
     map (\<lambda>x. (cov_id x, cov_state x)) (t_coverage d') = map (\<lambda>x. (cov_id x, cov_state x)) (t_coverage d) \<and>
     t_runs d' = t_runs d \<and> t_locks d' = t_locks d \<and> t_stages d' = t_stages d \<and>
     t_attempts d' = t_attempts d \<and> t_houses d' = t_houses d \<and> t_idem d' = t_idem d \<and> next_id d \<le> next_id d' \<and>
     filter (\<lambda>m. ob_kind m = ''coverage.state_changed'') (t_outbox d') =
       filter (\<lambda>m. ob_kind m = ''coverage.state_changed'') (t_outbox d) \<and>
     (\<exists>ms. t_outbox d' = t_outbox d @ ms)"

lemma effect_frame_refl: "effect_frame d d"
  by (simp add: effect_frame_def)

lemma effect_frame_trans: "effect_frame d d' \<Longrightarrow> effect_frame d' d'' \<Longrightarrow> effect_frame d d''"
  by (auto simp: effect_frame_def)

lemma emit_simps [simp]:
  "t_transitions (emit t k c r p key d) = t_transitions d" "t_audit (emit t k c r p key d) = t_audit d"
  "t_coverage (emit t k c r p key d) = t_coverage d" "t_runs (emit t k c r p key d) = t_runs d"
  "t_locks (emit t k c r p key d) = t_locks d" "t_stages (emit t k c r p key d) = t_stages d"
  "t_attempts (emit t k c r p key d) = t_attempts d" "t_houses (emit t k c r p key d) = t_houses d"
  "t_gates (emit t k c r p key d) = t_gates d" "next_id (emit t k c r p key d) = Suc (next_id d)"
  "t_predictions (emit t k c r p key d) = t_predictions d"
  "t_lead_history (emit t k c r p key d) = t_lead_history d" "t_idem (emit t k c r p key d) = t_idem d"
  by (simp_all add: emit_def new_id_def)

lemma emit_outbox: "\<exists>m. t_outbox (emit t k c r p key d) = t_outbox d @ [m] \<and> ob_kind m = k \<and>
    ob_coverage m = c \<and> ob_run m = r"
  by (simp add: emit_def new_id_def)

lemma state_effect_frame:
  assumes "state_effect a c eff d = Inr d'"
  shows "effect_frame d d'"
proof -
  consider (out) "starts_with ''outbox:'' eff" | (cancel) "\<not> starts_with ''outbox:'' eff" "eff = ''cancel_open_gate''"
    | (gate) "eff = ''open_gate:initiation_decision''" | (answer) "eff = ''answer_gate''"
    | (lead) "eff = ''set_lead_house''"
    | (other) "\<not> starts_with ''outbox:'' eff" "eff \<noteq> ''cancel_open_gate''"
        "eff \<noteq> ''open_gate:initiation_decision''" "eff \<noteq> ''answer_gate''" "eff \<noteq> ''set_lead_house''"
    by fast
  then show ?thesis
  proof cases
    case out
    let ?k = "after_first (CHR '':'') eff"
    show ?thesis
    proof (cases "?k = ''coverage.state_changed''")
      case True
      with out assms show ?thesis by (simp add: state_effect_def Let_def effect_frame_refl)
    next
      case False
      let ?p = "[(''request_id'', JStr (ra_request a)), (''coverage_id'', JStr (show_nat c))]"
      let ?key = "?k @ '':'' @ show_nat c @ '':'' @ uuid_hex d"
      from False out assms have "d' = emit (ra_now a) ?k (Some c) (ra_run a) ?p ?key d"
        by (simp add: state_effect_def Let_def)
      with False emit_outbox [of "ra_now a" ?k "Some c" "ra_run a" ?p ?key d]
      show ?thesis by (auto simp: effect_frame_def)
    qed
  next
    case cancel
    with assms show ?thesis by (simp add: state_effect_def) (drule sym, simp add: effect_frame_def)
  next
    case gate
    then have "effect_frame d d'" if "ra_run a = Some r" for r
      using assms that by (simp add: state_effect_def new_id_def) (drule sym, simp add: effect_frame_def)
    moreover have "ra_run a \<noteq> None" using gate assms by (cases "ra_run a") (simp_all add: state_effect_def)
    ultimately show ?thesis by blast
  next
    case answer
    show ?thesis
    proof (cases "open_gate_of (ra_run a) d")
      case None
      with answer assms show ?thesis by (simp add: state_effect_def effect_frame_refl)
    next
      case (Some g)
      then obtain ans where "decision_answer (ra_action a) = Inr ans"
        using answer assms by (cases "decision_answer (ra_action a)") (simp_all add: state_effect_def)
      with Some answer assms show ?thesis
        by (simp add: state_effect_def) (drule sym, simp add: effect_frame_def upd_gate_def)
    qed
  next
    case lead
    show ?thesis
    proof (cases "case ra_run a of None \<Rightarrow> None | Some r \<Rightarrow> get_run r d")
      case None
      with lead assms show ?thesis by (simp add: state_effect_def effect_frame_refl)
    next
      case (Some r)
      with lead assms show ?thesis
        by (simp add: state_effect_def) (drule sym, simp add: effect_frame_def upd_coverage_def map_upd_row_frame)
    qed
  next
    case other
    with assms show ?thesis by (simp add: state_effect_def effect_frame_refl)
  qed
qed

lemma flush_coverage_Inr:
  "flush_coverage c d = Inr d' \<longleftrightarrow> d' = d \<and> (\<exists>x. get_coverage c d = Some x \<and>
     ck_coverage_lead_required_when_live x \<and>
     (case cov_lead_house x of None \<Rightarrow> True | Some h \<Rightarrow> has_house h d))"
  by (auto simp: flush_coverage_def andthen_Inr_iff)

text \<open>What recording a transition does.\<close>

lemma trail_rows_simps [simp]:
  "t_transitions (trail_rows a c fs sm d) = t_transitions d @ [trail_row a c fs sm]"
  "t_audit (trail_rows a c fs sm d) = t_audit d @ [audit_entry a c fs sm]"
  "t_coverage (trail_rows a c fs sm d) = t_coverage d" "t_gates (trail_rows a c fs sm d) = t_gates d"
  "t_runs (trail_rows a c fs sm d) = t_runs d" "t_locks (trail_rows a c fs sm d) = t_locks d"
  "t_stages (trail_rows a c fs sm d) = t_stages d" "t_attempts (trail_rows a c fs sm d) = t_attempts d"
  "t_houses (trail_rows a c fs sm d) = t_houses d" "t_idem (trail_rows a c fs sm d) = t_idem d" "next_id (trail_rows a c fs sm d) = Suc (next_id d)"
  by (simp_all add: trail_rows_def)

lemma trail_rows_outbox:
  "\<exists>m. t_outbox (trail_rows a c fs sm d) = t_outbox d @ [m] \<and> ob_kind m = ''coverage.state_changed'' \<and>
     ob_coverage m = Some c"
  by (simp add: trail_rows_def emit_def new_id_def)

lemma trail_row_simps [simp]:
  "tr_coverage (trail_row a c fs sm) = c" "tr_from (trail_row a c fs sm) = fs"
  "tr_to (trail_row a c fs sm) = ct_to sm" "tr_cause (trail_row a c fs sm) = ct_cause sm"
  "tr_actor (trail_row a c fs sm) = ra_actor a" "tr_run (trail_row a c fs sm) = ra_run a"
  by (simp_all add: trail_row_def)

lemma record_transition_Inr:
  assumes "record_transition a c fs sm d = Inr d'"
  shows "fold_err (state_effect a c) (ct_effects sm) (trail_rows a c fs sm d) = Inr d'"
    and "effect_frame (trail_rows a c fs sm d) d'" and "flush_coverage c d' = Inr d'"
proof -
  from assms show f: "fold_err (state_effect a c) (ct_effects sm) (trail_rows a c fs sm d) = Inr d'"
    and "flush_coverage c d' = Inr d'"
    by (auto simp: record_transition_def andthen_Inr_iff flush_coverage_Inr)
  from f show "effect_frame (trail_rows a c fs sm d) d'"
    by (rule fold_err_invariant [where I = "effect_frame (trail_rows a c fs sm d)"])
      (auto intro: effect_frame_refl effect_frame_trans state_effect_frame)
qed

text \<open>A recorded transition keeps the audit trail a path, provided the caller set the new state.\<close>

lemma effect_frame_trail: "effect_frame d d' \<Longrightarrow> audit_trail c d' = audit_trail c d"
  by (simp add: effect_frame_def audit_trail_def)

lemma effect_frame_states:
  assumes "effect_frame d d'"
  shows "(\<exists>x \<in> set (t_coverage d'). cov_id x = i \<and> cov_state x = s) \<longleftrightarrow>
         (\<exists>x \<in> set (t_coverage d). cov_id x = i \<and> cov_state x = s)"
    and "map cov_id (t_coverage d') = map cov_id (t_coverage d)"
proof -
  have m: "map (\<lambda>x. (cov_id x, cov_state x)) (t_coverage d') = map (\<lambda>x. (cov_id x, cov_state x)) (t_coverage d)"
    using assms by (simp add: effect_frame_def)
  have e: "(\<exists>x \<in> set xs. cov_id x = i \<and> cov_state x = s) \<longleftrightarrow> (i, s) \<in> set (map (\<lambda>x. (cov_id x, cov_state x)) xs)"
    for xs :: "coverage_row list" by auto
  show "(\<exists>x \<in> set (t_coverage d'). cov_id x = i \<and> cov_state x = s) \<longleftrightarrow>
         (\<exists>x \<in> set (t_coverage d). cov_id x = i \<and> cov_state x = s)"
    by (simp only: e m)
  have "map fst (map (\<lambda>x. (cov_id x, cov_state x)) xs) = map cov_id xs" for xs :: "coverage_row list"
    by (simp add: o_def)
  with m show "map cov_id (t_coverage d') = map cov_id (t_coverage d)" by metis
qed

text \<open>The invariant in terms of the states a coverage table shows.\<close>

lemma coverage_inv_alt:
  "coverage_inv d \<longleftrightarrow> keys_ok cov_id (t_coverage d) (next_id d) \<and>
     (\<forall>t \<in> set (t_transitions d). tr_coverage t \<in> cov_id ` set (t_coverage d)) \<and>
     (\<forall>i s. (\<exists>x \<in> set (t_coverage d). cov_id x = i \<and> cov_state x = s) \<longrightarrow> chain None (audit_trail i d) (Some s))"
  unfolding coverage_inv_def by (auto simp: image_iff) metis+

lemma keys_ok_ids: "keys_ok key rows n \<longleftrightarrow> distinct (map key rows) \<and> (\<forall>i \<in> set (map key rows). i < n)"
  by (auto simp: keys_ok_def fresh_in_def)

lemma record_transition_inv:
  assumes rec: "record_transition a c fs sm d = Inr d'"
    and keys: "keys_ok cov_id (t_coverage d) (next_id d)"
    and refs: "\<forall>t \<in> set (t_transitions d). tr_coverage t \<in> cov_id ` set (t_coverage d)"
    and mem: "c \<in> cov_id ` set (t_coverage d)" and old: "chain None (audit_trail c d) fs"
    and other: "\<And>i s. i \<noteq> c \<Longrightarrow> \<exists>x \<in> set (t_coverage d). cov_id x = i \<and> cov_state x = s \<Longrightarrow>
         chain None (audit_trail i d) (Some s)"
    and newst: "\<And>s. \<exists>x \<in> set (t_coverage d). cov_id x = c \<and> cov_state x = s \<Longrightarrow> s = ct_to sm"
    and step: "table_step fs (ct_to sm) (ct_cause sm)"
  shows "coverage_inv d'"
proof -
  note fr = record_transition_Inr(2) [OF rec]
  have ids: "map cov_id (t_coverage d') = map cov_id (t_coverage d)"
    using effect_frame_states(2) [OF fr] by simp
  then have ids': "cov_id ` set (t_coverage d') = cov_id ` set (t_coverage d)"
    by (metis list.set_map)
  have tl: "audit_trail i d' = audit_trail i d @ (if i = c then [trail_row a c fs sm] else [])" for i
    using effect_frame_trail [OF fr] by (simp add: audit_trail_def)
  have nx: "next_id d \<le> next_id d'" using fr by (simp add: effect_frame_def)
  have tr: "t_transitions d' = t_transitions d @ [trail_row a c fs sm]"
    using fr by (simp add: effect_frame_def)
  show ?thesis
    unfolding coverage_inv_alt
  proof (intro conjI allI impI)
    have "keys_ok cov_id (t_coverage d) (next_id d')" using keys nx by (rule keys_ok_mono)
    then show "keys_ok cov_id (t_coverage d') (next_id d')" by (simp add: keys_ok_ids ids ids')
    show "\<forall>t \<in> set (t_transitions d'). tr_coverage t \<in> cov_id ` set (t_coverage d')"
      using refs mem by (auto simp: tr ids')
    fix i s assume "\<exists>x \<in> set (t_coverage d'). cov_id x = i \<and> cov_state x = s"
    then have now: "\<exists>x \<in> set (t_coverage d). cov_id x = i \<and> cov_state x = s"
      using effect_frame_states(1) [OF fr] by simp
    show "chain None (audit_trail i d') (Some s)"
    proof (cases "i = c")
      case True
      with now newst have "s = ct_to sm" by blast
      with True old step show ?thesis by (simp add: tl chain_snoc)
    next
      case False
      with other now show ?thesis by (simp add: tl)
    qed
  qed
qed

text \<open>The same for a row that is changed in place.\<close>

lemma record_update_inv:
  assumes inv: "coverage_inv d" and x: "get_coverage c d = Some x"
    and rec: "record_transition a c (Some (cov_state x)) sm (upd_coverage c f d) = Inr d'"
    and keep: "\<And>y. cov_id (f y) = cov_id y" and state: "cov_state (f x) = ct_to sm"
    and step: "table_step (Some (cov_state x)) (ct_to sm) (ct_cause sm)"
  shows "coverage_inv d'"
proof (rule record_transition_inv [OF rec _ _ _ _ _ _ step])
  let ?d = "upd_coverage c f d"
  have tl: "audit_trail i ?d = audit_trail i d" for i by (simp add: audit_trail_def upd_coverage_def)
  have ids: "map cov_id (t_coverage ?d) = map cov_id (t_coverage d)"
    by (rule coverage_tab.keys_mutate) (rule keep)
  then have ids': "cov_id ` set (t_coverage ?d) = cov_id ` set (t_coverage d)" by (metis list.set_map)
  have xs: "x \<in> set (t_coverage d)" "cov_id x = c" using x by (simp_all add: coverage_tab.fetch_SomeD)
  show "keys_ok cov_id (t_coverage ?d) (next_id ?d)"
    using inv by (simp add: coverage_inv_def upd_coverage_def keys_ok_upd keep)
  show "\<forall>t \<in> set (t_transitions ?d). tr_coverage t \<in> cov_id ` set (t_coverage ?d)"
    using inv unfolding ids' by (simp add: coverage_inv_alt upd_coverage_def)
  show "c \<in> cov_id ` set (t_coverage ?d)" unfolding ids' using xs by blast
  show "chain None (audit_trail c ?d) (Some (cov_state x))" using inv xs by (auto simp: tl coverage_inv_def)
  show "chain None (audit_trail i ?d) (Some s)"
    if "i \<noteq> c" "\<exists>y \<in> set (t_coverage ?d). cov_id y = i \<and> cov_state y = s" for i s
  proof -
    from that have "\<exists>y \<in> set (t_coverage d). cov_id y = i \<and> cov_state y = s"
      by (simp add: upd_coverage_def ex_upd_row keep)
    with inv show ?thesis by (simp add: tl coverage_inv_alt)
  qed
  show "s = ct_to sm" if "\<exists>y \<in> set (t_coverage ?d). cov_id y = c \<and> cov_state y = s" for s
  proof -
    from that have "\<exists>y \<in> set (t_coverage d). cov_id y = c \<and> cov_state (f y) = s"
      by (simp add: upd_coverage_def ex_upd_row keep)
    then obtain y where y: "y \<in> set (t_coverage d)" "cov_id y = c" "cov_state (f y) = s" by blast
    have "y = x"
      using inv xs y(1,2) by (auto simp: coverage_inv_def keys_ok_def distinct_map inj_on_def)
    with y(3) state show ?thesis by simp
  qed
qed

lemma coverage_inv_get:
  assumes "coverage_inv d" and "get_coverage c d = Some x"
  shows "c \<in> cov_id ` set (t_coverage d)" and "chain None (audit_trail c d) (Some (cov_state x))" and "cov_id x = c"
    and "x \<in> set (t_coverage d)"
  using coverage_tab.fetch_SomeD [OF assms(2)] assms(1) by (auto simp: coverage_inv_def)

lemma transition_coverageE:
  assumes "transition_coverage now c a aty actor r frc notes rq d = Inr d'"
  obtains x sm ra where "get_coverage c d = Some x"
    "transition (Some (cov_state x)) a (build_ctx x a r frc notes d) = Inr sm"
    "ra_now ra = now" "ra_action ra = a" "ra_actor ra = actor" "ra_run ra = r"
    "record_transition ra c (Some (cov_state x)) sm (upd_coverage c (\<lambda>x. x\<lparr>cov_state := ct_to sm\<rparr>) d) = Inr d'"
proof -
  from assms obtain x where x: "get_coverage c d = Some x"
    by (cases "get_coverage c d") (simp_all add: transition_coverage_def)
  with assms obtain sm where sm: "transition (Some (cov_state x)) a (build_ctx x a r frc notes d) = Inr sm"
    by (cases "transition (Some (cov_state x)) a (build_ctx x a r frc notes d)")
      (simp_all add: transition_coverage_def)
  from x sm assms show thesis
    by (intro that [of x sm "\<lparr>ra_now = now, ra_action = a, ra_actor_type = aty, ra_actor = actor,
         ra_run = r, ra_notes = notes, ra_request = or_hex rq d\<rparr>"]) (simp_all add: transition_coverage_def)
qed

lemma transition_coverage_inv:
  assumes inv: "coverage_inv d" and t: "transition_coverage now c a aty actor r frc notes rq d = Inr d'"
  shows "coverage_inv d'"
  using t
proof (rule transition_coverageE)
  fix x sm ra
  assume x: "get_coverage c d = Some x"
    and sm: "transition (Some (cov_state x)) a (build_ctx x a r frc notes d) = Inr sm"
    and rec: "record_transition ra c (Some (cov_state x)) sm (upd_coverage c (\<lambda>x. x\<lparr>cov_state := ct_to sm\<rparr>) d) = Inr d'"
  show ?thesis
    by (rule record_update_inv [OF inv x rec]) (simp_all add: table_step_transition [OF sm])
qed

lemma set_lead_to: "transition s Act_Set_Lead ctx = Inr sm \<Longrightarrow> s = Some (ct_to sm)"
proof (erule transition_InrE)
  have "list_all (\<lambda>((f, a), (t, _)). a = Act_Set_Lead \<longrightarrow> f = Some t) ENTRIES" by (simp add: ENTRIES_def)
  then show "((s, Act_Set_Lead), ct_to sm, ct_cause sm, ct_effects sm) \<in> set ENTRIES \<Longrightarrow> s = Some (ct_to sm)"
    by (fastforce simp: list_all_iff)
qed

lemma set_leadE:
  assumes "set_lead now c house actor r rationale d = Inr d'"
  obtains x sm ra d1 where "get_coverage c d = Some x" "cov_state x = ct_to sm"
    "\<exists>ctx. transition (Some (cov_state x)) Act_Set_Lead ctx = Inr sm"
    "table_step (Some (cov_state x)) (ct_to sm) (ct_cause sm)"
    "\<exists>h. get_house house d = Some h \<and> ho_enabled h \<and> ho_assignable h \<and> \<not> ho_meta h"
    "cov_state x \<in> {CS_Active, CS_Watch}"
    "record_transition ra c (Some (cov_state x)) sm (upd_coverage c (\<lambda>x. x\<lparr>cov_lead_house := Some house\<rparr>) d) = Inr d1"
    "d' = d1\<lparr>t_lead_history := t_lead_history d1 @ [\<lparr>lh_coverage = c, lh_from = cov_lead_house x,
       lh_to = house, lh_run = r, lh_approved_by = actor, lh_rationale = rationale\<rparr>]\<rparr>"
proof -
  from assms obtain x where x: "get_coverage c d = Some x"
    by (cases "get_coverage c d") (simp_all add: set_lead_def)
  define ctx where "ctx = default_ctx\<lparr>
                new_house_enabled := (case get_house house d of None \<Rightarrow> False | Some x \<Rightarrow> ho_enabled x),
                new_house_assignable := (case get_house house d of None \<Rightarrow> False | Some x \<Rightarrow> ho_assignable x),
                new_house_meta := (case get_house house d of None \<Rightarrow> False | Some x \<Rightarrow> ho_meta x)\<rparr>"
  define ra where "ra = \<lparr>ra_now = now, ra_action = Act_Set_Lead,
                        ra_actor_type = AT_PM, ra_actor = actor, ra_run = r, ra_notes = rationale,
                        ra_request = uuid_hex d\<rparr>"
  from assms x obtain sm where sm: "transition (Some (cov_state x)) Act_Set_Lead ctx = Inr sm"
    by (cases "transition (Some (cov_state x)) Act_Set_Lead ctx") (simp_all add: set_lead_def Let_def ctx_def)
  with assms x obtain d1 where
    d1: "record_transition ra c (Some (cov_state x)) sm (upd_coverage c (\<lambda>x. x\<lparr>cov_lead_house := Some house\<rparr>) d) = Inr d1"
    and d': "d' = d1\<lparr>t_lead_history := t_lead_history d1 @ [\<lparr>lh_coverage = c, lh_from = cov_lead_house x,
       lh_to = house, lh_run = r, lh_approved_by = actor, lh_rationale = rationale\<rparr>]\<rparr>"
    by (cases "record_transition ra c (Some (cov_state x)) sm (upd_coverage c (\<lambda>x. x\<lparr>cov_lead_house := Some house\<rparr>) d)")
      (simp_all add: set_lead_def Let_def ctx_def ra_def)
  from sm have "guards_hold Act_Set_Lead ctx" and e: "((Some (cov_state x), Act_Set_Lead), ct_to sm, ct_cause sm, ct_effects sm) \<in> set ENTRIES"
    by (auto elim: transition_InrE)
  then have h: "\<exists>h. get_house house d = Some h \<and> ho_enabled h \<and> ho_assignable h \<and> \<not> ho_meta h"
    by (cases "get_house house d") (simp_all add: guards_hold_def ctx_def)
  have "list_all (\<lambda>((f, a), _). a = Act_Set_Lead \<longrightarrow> f \<in> {Some CS_Active, Some CS_Watch}) ENTRIES"
    by (simp add: ENTRIES_def)
  with e have "cov_state x \<in> {CS_Active, CS_Watch}" by (fastforce simp: list_all_iff)
  with x h d1 d' set_lead_to [OF sm] table_step_transition [OF sm] sm show thesis
    by (intro that [of x sm ra d1]) auto
qed

lemma set_lead_inv:
  assumes inv: "coverage_inv d" and s: "set_lead now c house actor r rationale d = Inr d'"
  shows "coverage_inv d'"
  using s
proof (rule set_leadE)
  fix x sm ra d1
  assume x: "get_coverage c d = Some x" and eq: "cov_state x = ct_to sm"
    and step: "table_step (Some (cov_state x)) (ct_to sm) (ct_cause sm)"
    and rec: "record_transition ra c (Some (cov_state x)) sm
      (upd_coverage c (\<lambda>x. x\<lparr>cov_lead_house := Some house\<rparr>) d) = Inr d1"
    and d': "d' = d1\<lparr>t_lead_history := t_lead_history d1 @ [\<lparr>lh_coverage = c, lh_from = cov_lead_house x,
       lh_to = house, lh_run = r, lh_approved_by = actor, lh_rationale = rationale\<rparr>]\<rparr>"
  have "coverage_inv d1"
    by (rule record_update_inv [OF inv x rec _ _ step]) (simp_all add: eq)
  then show ?thesis by (simp add: d' coverage_inv_def audit_trail_def)
qed

lemma propose_coverageE:
  assumes "propose_coverage now p d = Inr (d', c)"
  obtains x sm ra d1 where "c = next_id d" "cov_id x = c" "cov_state x = CS_Proposed" "cov_lead_house x = None"
    "cov_dossier_slug x = compute_dossier_slug (pi_exchange p) (pi_ticker p)"
    "cov_ticker x = pi_ticker p" "cov_exchange x = pi_exchange p"
    "\<forall>y \<in> set (t_coverage d). cov_dossier_slug y \<noteq> cov_dossier_slug x"
    "\<forall>y \<in> set (t_coverage d). \<not> (cov_exchange y = pi_exchange p \<and> cov_ticker y = pi_ticker p)"
    "transition None Act_Propose default_ctx = Inr sm" "ct_to sm = CS_Proposed"
    "d1 = (new_id d)\<lparr>t_coverage := t_coverage d @ [x]\<rparr>" "record_transition ra c None sm d1 = Inr d'"
proof -
  define x where "x = \<lparr>cov_id = next_id d, cov_ticker = pi_ticker p, cov_exchange = pi_exchange p,
                 cov_name = pi_name p, cov_currency = pi_currency p, cov_isin = pi_isin p,
                 cov_state = CS_Proposed, cov_lead_house = None,
                 cov_dossier_slug = compute_dossier_slug (pi_exchange p) (pi_ticker p),
                 cov_pm_notes = pi_notes p, cov_proposed_by = Some (pi_actor p),
                 cov_decided_at = None, cov_exited_at = None\<rparr>"
  define d1 where "d1 = (new_id d)\<lparr>t_coverage := t_coverage d @ [x]\<rparr>"
  define ra where "ra = \<lparr>ra_now = now, ra_action = Act_Propose, ra_actor_type = AT_PM,
                      ra_actor = pi_actor p, ra_run = None, ra_notes = pi_notes p,
                      ra_request = or_hex (pi_request p) d1\<rparr>"
  obtain sm where sm: "transition None Act_Propose default_ctx = Inr sm" and to: "ct_to sm = CS_Proposed"
    by (simp add: transition_def check_guards_def ENTRIES_def DECIDE_ACTIONS_def)
  have new: "\<not> list_ex (\<lambda>y. cov_exchange y = pi_exchange p \<and> cov_ticker y = pi_ticker p) (t_coverage d)"
    "\<not> list_ex (\<lambda>y. cov_dossier_slug y = compute_dossier_slug (pi_exchange p) (pi_ticker p)) (t_coverage d)"
    using assms by (auto simp: propose_coverage_def Let_def split: if_splits)
  with assms sm have "andthen (record_transition ra (next_id d) None sm d1) (\<lambda>d2. Inr (d2, next_id d)) = Inr (d', c)"
    unfolding propose_coverage_def Let_def x_def [symmetric] d1_def [symmetric] ra_def [symmetric] by simp
  then have "record_transition ra (next_id d) None sm d1 = Inr d'" and c: "c = next_id d"
    by (cases "record_transition ra (next_id d) None sm d1"; simp)+
  with new sm to show thesis
    by (intro that [of x sm d1 ra]) (simp_all add: x_def d1_def list_ex_iff)
qed

lemma propose_coverage_inv:
  assumes inv: "coverage_inv d" and p: "propose_coverage now p d = Inr (d', c)"
  shows "coverage_inv d'"
  using p
proof (rule propose_coverageE)
  fix x sm ra d1
  assume c: "c = next_id d" and x: "cov_id x = c" "cov_state x = CS_Proposed"
    and sm: "transition None Act_Propose default_ctx = Inr sm" "ct_to sm = CS_Proposed"
    and d1: "d1 = (new_id d)\<lparr>t_coverage := t_coverage d @ [x]\<rparr>"
    and rec: "record_transition ra c None sm d1 = Inr d'"
  have fresh: "\<forall>y \<in> set (t_coverage d). cov_id y \<noteq> c"
    using inv by (auto simp: coverage_inv_def keys_ok_def fresh_in_def c)
  with inv have none: "audit_trail c d1 = []"
    by (auto simp: audit_trail_def d1 new_id_def filter_empty_conv coverage_inv_def) 
  have tl: "audit_trail i d1 = audit_trail i d" for i by (simp add: audit_trail_def d1 new_id_def)
  show ?thesis
  proof (rule record_transition_inv [OF rec])
    show "keys_ok cov_id (t_coverage d1) (next_id d1)"
      using inv x c by (simp add: d1 new_id_def coverage_inv_def keys_ok_append)
    show "\<forall>t \<in> set (t_transitions d1). tr_coverage t \<in> cov_id ` set (t_coverage d1)"
      using inv by (auto simp: d1 new_id_def coverage_inv_alt)
    show "c \<in> cov_id ` set (t_coverage d1)" using x by (simp add: d1 new_id_def)
    show "chain None (audit_trail c d1) None" by (simp add: none)
    show "table_step None (ct_to sm) (ct_cause sm)" by (rule table_step_transition [OF sm(1)])
    show "s = ct_to sm" if "\<exists>y \<in> set (t_coverage d1). cov_id y = c \<and> cov_state y = s" for s
      using that fresh x sm by (auto simp: d1 new_id_def)
    show "chain None (audit_trail i d1) (Some s)"
      if "i \<noteq> c" "\<exists>y \<in> set (t_coverage d1). cov_id y = i \<and> cov_state y = s" for i s
      using that x inv by (auto simp: d1 new_id_def tl [unfolded d1 new_id_def] coverage_inv_alt)
  qed
qed

end
