(* ===== verification/Coverage_Properties.thy ===== *)
theory Coverage_Properties
  imports Coverage_Repo
begin

text \<open>
  The properties of the coverage repository: the audit trail over all histories, what a transition
  and a lead change do, the decision gate, the levels, and when a proposal is accepted.
\<close>

section \<open>Histories\<close>

text \<open>\<open>other\<close> stands for the steps of the components that do not touch coverage or its trail.\<close>

inductive coverage_op :: "db \<Rightarrow> db \<Rightarrow> bool" where
  propose: "propose_coverage now p d = Inr (d', c) \<Longrightarrow> coverage_op d d'"
| transition: "transition_coverage now c a aty actor r frc notes rq d = Inr d' \<Longrightarrow> coverage_op d d'"
| lead: "set_lead now c house actor r rationale d = Inr d' \<Longrightarrow> coverage_op d d'"
| levels: "coverage_op d (set_levels af now c ls by r d)"
| other: "t_coverage d' = t_coverage d \<Longrightarrow> t_transitions d' = t_transitions d \<Longrightarrow> next_id d \<le> next_id d' \<Longrightarrow>
    coverage_op d d'"

lemma coverage_inv_other:
  "coverage_inv d \<Longrightarrow> t_coverage d' = t_coverage d \<Longrightarrow> t_transitions d' = t_transitions d \<Longrightarrow>
     next_id d \<le> next_id d' \<Longrightarrow> coverage_inv d'"
  by (auto simp: coverage_inv_def audit_trail_def intro: keys_ok_mono)

lemma coverage_op_inv:
  assumes "coverage_op d d'" and inv: "coverage_inv d"
  shows "coverage_inv d'"
  using assms(1)
proof cases
  case (levels af now c ls s r)
  with inv show ?thesis by (simp add: set_levels_def coverage_inv_def audit_trail_def)
next
  case other
  with inv show ?thesis by (rule coverage_inv_other)
qed (use inv in \<open>blast intro: propose_coverage_inv transition_coverage_inv set_lead_inv\<close>)+

lemma coverage_ops_inv: "coverage_op\<^sup>*\<^sup>* d d' \<Longrightarrow> coverage_inv d \<Longrightarrow> coverage_inv d'"
  by (induction rule: rtranclp_induct) (auto intro: coverage_op_inv)

lemma empty_coverage_inv: "coverage_inv (empty_db\<lparr>t_houses := hs\<rparr>)"
  by (simp add: coverage_inv_def empty_db_def keys_ok_def fresh_in_def)

text \<open>
  C6.  The audit trail is complete: after any history from an empty database the transition rows of
  each ticker, in order, form a path of the coverage state machine that starts at creation and ends
  in the ticker's current state, each row starting where the one before it ended.
\<close>

theorem coverage_audit_path:
  assumes "coverage_op\<^sup>*\<^sup>* (empty_db\<lparr>t_houses := hs\<rparr>) d" and "x \<in> set (t_coverage d)"
  shows "chain None (filter (\<lambda>t. tr_coverage t = cov_id x) (t_transitions d)) (Some (cov_state x))"
proof -
  have "coverage_inv d" using assms(1) empty_coverage_inv by (rule coverage_ops_inv)
  with assms(2) show ?thesis by (simp add: coverage_inv_def audit_trail_def)
qed

definition sample_propose :: propose_in where
  "sample_propose = \<lparr>pi_ticker = ''7203'', pi_exchange = ''TSE'', pi_name = ''Toyota'', pi_currency = ''JPY'',
     pi_actor = ''pm'', pi_notes = None, pi_isin = None, pi_request = Some ''req''\<rparr>"

lemmas coverage_eval_simps =
  sample_propose_def propose_coverage_def compute_dossier_slug_def slug_raw_def lower_char_def alnum_def
  strip_underscore_def transition_def ENTRIES_def check_guards_def DECIDE_ACTIONS_def default_ctx_def
  record_transition_def state_effect_def trail_rows_def trail_row_def audit_entry_def emit_def
  new_id_def flush_coverage_def ck_coverage_lead_required_when_live_def get_coverage_def empty_db_def
  or_hex_def Let_def

lemma propose_effects: "transition None Act_Propose default_ctx = Inr sm \<Longrightarrow>
    ct_effects sm = [''create_coverage_row'', ''compute_dossier_slug''] \<and> ct_to sm = CS_Proposed"
  by (erule transition_InrE) (simp add: ENTRIES_def)

lemma propose_accepts:
  assumes "\<forall>y \<in> set (t_coverage d). cov_dossier_slug y \<noteq> compute_dossier_slug (pi_exchange p) (pi_ticker p)"
    and "\<forall>y \<in> set (t_coverage d). \<not> (cov_exchange y = pi_exchange p \<and> cov_ticker y = pi_ticker p)"
    and "\<forall>y \<in> set (t_coverage d). cov_id y \<noteq> next_id d"
  shows "\<exists>d' c. propose_coverage now p d = Inr (d', c)"
proof -
  obtain sm where sm: "transition None Act_Propose default_ctx = Inr sm"
    by (simp add: transition_def check_guards_def ENTRIES_def DECIDE_ACTIONS_def)
  note eff = propose_effects [OF sm]
  have noop: "state_effect a c ''create_coverage_row'' e = Inr e" "state_effect a c ''compute_dossier_slug'' e = Inr e"
    for a c e by (simp_all add: state_effect_def)
  have rec: "record_transition a (next_id d) None sm (d1\<lparr>t_coverage := t_coverage d @ [x]\<rparr>) =
      Inr (trail_rows a (next_id d) None sm (d1\<lparr>t_coverage := t_coverage d @ [x]\<rparr>))"
    if x: "cov_id x = next_id d" "cov_lead_house x = None" "cov_state x = CS_Proposed" for a x and d1 :: db
  proof -
    have "get_row cov_id (next_id d) (t_coverage d) = None"
      using assms(3) by (simp add: get_row_None_iff)
    with x eff show ?thesis
      by (simp add: record_transition_def noop flush_coverage_def get_coverage_def get_row_append
          ck_coverage_lead_required_when_live_def)
  qed
  show ?thesis
    using assms(1,2) sm by (simp add: propose_coverage_def Let_def list_ex_iff rec)
qed

lemma sample_proposed: "\<exists>d c. propose_coverage 5 sample_propose empty_db = Inr (d, c) \<and> t_coverage d \<noteq> []"
proof -
  obtain d c where p: "propose_coverage 5 sample_propose empty_db = Inr (d, c)"
    using propose_accepts [of empty_db sample_propose 5] by (auto simp: empty_db_def)
  then have "t_coverage d \<noteq> []"
  proof (rule propose_coverageE)
    fix x sm ra d1
    assume "d1 = (new_id empty_db)\<lparr>t_coverage := t_coverage empty_db @ [x]\<rparr>"
      and "record_transition ra c None sm d1 = Inr d"
    then have "map (\<lambda>x. (cov_id x, cov_state x)) (t_coverage d) = [(cov_id x, cov_state x)]"
      using record_transition_Inr(2) by (fastforce simp: effect_frame_def new_id_def empty_db_def)
    then show ?thesis by auto
  qed
  with p show ?thesis by blast
qed

theorem coverage_audit_path_witness:
  "\<exists>d c x. propose_coverage 5 sample_propose empty_db = Inr (d, c) \<and> x \<in> set (t_coverage d) \<and>
     chain None (filter (\<lambda>t. tr_coverage t = cov_id x) (t_transitions d)) (Some (cov_state x))"
proof -
  obtain d c where p: "propose_coverage 5 sample_propose empty_db = Inr (d, c)" and "t_coverage d \<noteq> []"
    using sample_proposed by blast
  then obtain x where x: "x \<in> set (t_coverage d)" by (cases "t_coverage d") auto
  have "coverage_op\<^sup>*\<^sup>* (empty_db\<lparr>t_houses := []\<rparr>) d"
    using p by (auto simp: empty_db_def intro!: r_into_rtranclp coverage_op.propose)
  from coverage_audit_path [OF this x] p x show ?thesis by blast
qed

text \<open>Along a path, the live states are entered by a PM decision.\<close>

lemma table_step_live:
  "table_step s s' cause \<Longrightarrow> is_live s' \<Longrightarrow> cause = ''pm_decision'' \<or> (\<exists>s0. s = Some s0 \<and> is_live s0)"
proof -
  have "list_all (\<lambda>((f, _), (t, k, _)). is_live t \<longrightarrow>
      k = ''pm_decision'' \<or> f \<in> {Some CS_Active, Some CS_Watch}) ENTRIES"
    by (simp add: ENTRIES_def is_live_def)
  then show "table_step s s' cause \<Longrightarrow> is_live s' \<Longrightarrow> cause = ''pm_decision'' \<or> (\<exists>s0. s = Some s0 \<and> is_live s0)"
    by (fastforce simp: table_step_def list_ex_iff list_all_iff is_live_def)
qed

lemma chain_live:
  "chain None ts (Some s) \<Longrightarrow> is_live s \<Longrightarrow>
     \<exists>pre t post. ts = pre @ t # post \<and> tr_cause t = ''pm_decision'' \<and> (\<forall>u \<in> set (t # post). is_live (tr_to u))"
proof (induction ts arbitrary: s rule: rev_induct)
  case Nil
  then show ?case by simp
next
  case (snoc t ts)
  from snoc.prems(1) have path: "chain None ts (tr_from t)" and st: "table_step (tr_from t) (tr_to t) (tr_cause t)"
    and s: "s = tr_to t" by (auto simp: chain_snoc)
  from table_step_live [OF st] snoc.prems(2) s
  consider "tr_cause t = ''pm_decision''" | s0 where "tr_from t = Some s0" "is_live s0" by blast
  then show ?case
  proof cases
    case 1
    with snoc.prems(2) s show ?thesis by (intro exI [of _ ts] exI [of _ t] exI [of _ "[]"]) simp
  next
    case 2
    with snoc.IH path obtain pre u post where "ts = pre @ u # post" "tr_cause u = ''pm_decision''"
      "\<forall>v \<in> set (u # post). is_live (tr_to v)" by metis
    with snoc.prems(2) s show ?thesis
      by (intro exI [of _ pre] exI [of _ u] exI [of _ "post @ [t]"]) auto
  qed
qed

text \<open>
  C11.  Whatever happened, a ticker that is active or on watch has a PM decision in its audit trail,
  and from that row on it has been live without interruption.
\<close>

theorem live_coverage_was_decided:
  assumes "coverage_op\<^sup>*\<^sup>* (empty_db\<lparr>t_houses := hs\<rparr>) d" and "x \<in> set (t_coverage d)"
    and "cov_state x \<in> {CS_Active, CS_Watch}"
  shows "\<exists>pre t post. filter (\<lambda>t. tr_coverage t = cov_id x) (t_transitions d) = pre @ t # post \<and>
           tr_cause t = ''pm_decision'' \<and> (\<forall>u \<in> set (t # post). tr_to u \<in> {CS_Active, CS_Watch})"
proof -
  have inv: "coverage_inv d" using assms(1) empty_coverage_inv by (rule coverage_ops_inv)
  with assms(2) have "chain None (audit_trail (cov_id x) d) (Some (cov_state x))" by (simp add: coverage_inv_def)
  moreover have "is_live (cov_state x)" using assms(3) by (auto simp: is_live_def)
  ultimately show ?thesis using chain_live by (fastforce simp: is_live_def audit_trail_def)
qed

text \<open>An initiation from proposal to the PM's decision, step by step.\<close>

definition sample_house :: "string \<Rightarrow> house_row" where
  "sample_house k = \<lparr>ho_key = k, ho_enabled = True, ho_assignable = True, ho_meta = False\<rparr>"

definition sample_initiation :: run_in where
  "sample_initiation = \<lparr>ri_coverage = Some 0, ri_type = ''initiation'', ri_trigger = ''pm'',
     ri_params = [(''lead_house'', JStr ''gpt'')], ri_priority = 100, ri_budget_cap = None,
     ri_requested_by = None, ri_trigger_ref = None\<rparr>"

definition sample_delivered :: "error + (db \<times> uuid \<times> uuid)" where
  "sample_delivered =
     andthen (propose_coverage 1 sample_propose (empty_db\<lparr>t_houses := [sample_house ''gpt'']\<rparr>)) (\<lambda>(d1, c).
     andthen (create_run_row 2 sample_initiation d1) (\<lambda>(d2, r).
     andthen (transition_coverage 3 c Act_Start_Initiation AT_Run ''run'' (Some (run_id r)) False None None d2) (\<lambda>d3.
     andthen (transition_coverage 4 c Act_Initiation_Delivered AT_Run ''run'' (Some (run_id r)) False None None d3) (\<lambda>d4.
     Inr (d4, c, run_id r)))))"

definition sample_decided :: "error + (db \<times> uuid \<times> uuid)" where
  "sample_decided = andthen sample_delivered (\<lambda>(d, c, r).
     andthen (transition_coverage 5 c Act_Decide_Active AT_PM ''pm'' (Some r) False None None d) (\<lambda>d'.
     Inr (d', c, r)))"

lemma create_run_coverage_op: "create_run_row now a d = Inr (d', r) \<Longrightarrow> coverage_op d d'"
  by (rule coverage_op.other)
    (auto simp: create_run_row_def new_id_def Let_def split: option.splits if_splits)

lemma sample_delivered_ops:
  assumes "sample_delivered = Inr (d, c, r)"
  shows "coverage_op\<^sup>*\<^sup>* (empty_db\<lparr>t_houses := [sample_house ''gpt'']\<rparr>) d"
proof -
  from assms obtain d1 d2 x d3 where
    "propose_coverage 1 sample_propose (empty_db\<lparr>t_houses := [sample_house ''gpt'']\<rparr>) = Inr (d1, c)"
    "create_run_row 2 sample_initiation d1 = Inr (d2, x)"
    "transition_coverage 3 c Act_Start_Initiation AT_Run ''run'' (Some (run_id x)) False None None d2 = Inr d3"
    "transition_coverage 4 c Act_Initiation_Delivered AT_Run ''run'' (Some (run_id x)) False None None d3 = Inr d"
    unfolding sample_delivered_def by (auto simp: andthen_Inr_iff)
  then show ?thesis
    by (meson coverage_op.propose coverage_op.transition create_run_coverage_op
        rtranclp.rtrancl_into_rtrancl rtranclp.rtrancl_refl)
qed

lemma sample_decided_states:
  "case sample_decided of Inl _ \<Rightarrow> False
   | Inr (d, c, r) \<Rightarrow> map cov_state (t_coverage d) = [CS_Active] \<and> map cov_id (t_coverage d) = [c]"
  by code_simp

theorem live_coverage_was_decided_witness:
  "\<exists>d c r x. sample_decided = Inr (d, c, r) \<and> x \<in> set (t_coverage d) \<and> cov_state x = CS_Active \<and>
     (\<exists>pre t post. filter (\<lambda>t. tr_coverage t = cov_id x) (t_transitions d) = pre @ t # post \<and>
        tr_cause t = ''pm_decision'')"
proof -
  obtain d c r where dec: "sample_decided = Inr (d, c, r)"
    and st: "map cov_state (t_coverage d) = [CS_Active]"
    using ok3D [OF sample_decided_states] by (elim exE conjE) (rule that)
  from st obtain x where x: "x \<in> set (t_coverage d)" "cov_state x = CS_Active" by (cases "t_coverage d") auto
  from dec obtain d0 where del: "sample_delivered = Inr (d0, c, r)"
    and step: "transition_coverage 5 c Act_Decide_Active AT_PM ''pm'' (Some r) False None None d0 = Inr d"
    unfolding sample_decided_def by (auto simp: andthen_Inr_iff)
  have "coverage_op\<^sup>*\<^sup>* (empty_db\<lparr>t_houses := [sample_house ''gpt'']\<rparr>) d"
    using sample_delivered_ops [OF del] step by (meson coverage_op.transition rtranclp.rtrancl_into_rtrancl)
  from live_coverage_was_decided [OF this x(1)] x dec show ?thesis by blast
qed

section \<open>Single operations\<close>

text \<open>
  C19.  A transition the repository accepts is one the state machine accepts with the guard inputs
  read from the database; it moves the ticker to the machine's target state and no other ticker,
  appends exactly one trail row and one audit row by the actor, and announces the change exactly once.
\<close>

theorem transition_coverage_exact:
  assumes "transition_coverage now c a aty actor r frc notes rq d = Inr d'" and "coverage_inv d"
  shows "\<exists>(x :: coverage_row) (x' :: coverage_row) (sm :: cov_transition) (tr :: transition_row) (au :: audit_row). get_coverage c d = Some x \<and> get_coverage c d' = Some x' \<and>
     Coverage_SM.transition (Some (cov_state x)) a (build_ctx x a r frc notes d) = Inr sm \<and> cov_state x' = ct_to sm \<and>
     (\<forall>i s. i \<noteq> c \<longrightarrow> (\<exists>y \<in> set (t_coverage d'). cov_id y = i \<and> cov_state y = s) =
                       (\<exists>y \<in> set (t_coverage d). cov_id y = i \<and> cov_state y = s)) \<and>
     t_transitions d' = t_transitions d @ [tr] \<and> tr_coverage tr = c \<and> tr_from tr = Some (cov_state x) \<and>
     tr_to tr = ct_to sm \<and> tr_cause tr = ct_cause sm \<and> tr_actor tr = actor \<and> tr_run tr = r \<and>
     t_audit d' = t_audit d @ [au] \<and> au_actor au = actor \<and> au_action au = ''coverage.'' @ action_value a \<and>
     length (filter (\<lambda>m. ob_kind m = ''coverage.state_changed'') (t_outbox d')) =
       Suc (length (filter (\<lambda>m. ob_kind m = ''coverage.state_changed'') (t_outbox d)))"
  using assms(1)
proof (rule transition_coverageE)
  fix x :: coverage_row and sm :: cov_transition and ra :: record_args
  let ?f = "\<lambda>x :: coverage_row. x\<lparr>cov_state := ct_to sm\<rparr>"
  assume x: "get_coverage c d = Some x"
    and sm: "Coverage_SM.transition (Some (cov_state x)) a (build_ctx x a r frc notes d) = Inr sm"
    and ra: "ra_now ra = now" "ra_action ra = a" "ra_actor ra = actor" "ra_run ra = r"
    and rec: "record_transition ra c (Some (cov_state x)) sm (upd_coverage c ?f d) = Inr d'"
  note fr = record_transition_Inr(2) [OF rec]
  have st: "(\<exists>y \<in> set (t_coverage d'). cov_id y = i \<and> cov_state y = s) =
      (\<exists>y \<in> set (t_coverage d). cov_id y = i \<and> (if i = c then ct_to sm = s else cov_state y = s))" for i s
    using effect_frame_states(1) [OF fr, of i s] by (simp add: upd_coverage_def ex_upd_row)
  from record_transition_Inr(3) [OF rec] obtain x' where x': "get_coverage c d' = Some x'"
    by (auto simp: flush_coverage_Inr)
  have "cov_state x' = ct_to sm"
    using st [of c "cov_state x'"] coverage_tab.fetch_SomeD [OF x'] by auto
  moreover have "t_transitions d' = t_transitions d @ [trail_row ra c (Some (cov_state x)) sm]"
    and "t_audit d' = t_audit d @ [audit_entry ra c (Some (cov_state x)) sm]"
    using fr by (simp_all add: effect_frame_def upd_coverage_def)
  moreover have "length (filter (\<lambda>m. ob_kind m = ''coverage.state_changed'') (t_outbox d')) =
      Suc (length (filter (\<lambda>m. ob_kind m = ''coverage.state_changed'') (t_outbox d)))"
  proof -
    obtain m where "t_outbox (trail_rows ra c (Some (cov_state x)) sm (upd_coverage c ?f d)) = t_outbox d @ [m]"
      "ob_kind m = ''coverage.state_changed''"
      using trail_rows_outbox [of ra c "Some (cov_state x)" sm "upd_coverage c ?f d"]
      by (auto simp: upd_coverage_def)
    with fr show ?thesis by (simp add: effect_frame_def)
  qed
  ultimately show ?thesis
    using x x' sm st ra
    by (intro exI [of _ x] exI [of _ x'] exI [of _ sm] exI [of _ "trail_row ra c (Some (cov_state x)) sm"]
        exI [of _ "audit_entry ra c (Some (cov_state x)) sm"]) (auto simp: audit_entry_def)
qed

theorem transition_coverage_exact_witness:
  "\<exists>d d' c r tr. transition_coverage 5 c Act_Decide_Active AT_PM ''pm'' (Some r) False None None d = Inr d' \<and>
     t_transitions d' = t_transitions d @ [tr] \<and> tr_coverage tr = c \<and> tr_actor tr = ''pm''"
proof -
  obtain d' c r where dec: "sample_decided = Inr (d', c, r)"
    using ok3D [OF sample_decided_states] by (elim exE conjE) (rule that)
  then obtain d where del: "sample_delivered = Inr (d, c, r)"
    and step: "transition_coverage 5 c Act_Decide_Active AT_PM ''pm'' (Some r) False None None d = Inr d'"
    unfolding sample_decided_def by (auto simp: andthen_Inr_iff)
  have "coverage_inv d" using sample_delivered_ops [OF del] empty_coverage_inv by (rule coverage_ops_inv)
  from transition_coverage_exact [OF step this] step show ?thesis by blast
qed

lemma delivered_effects: "Coverage_SM.transition s Act_Initiation_Delivered ctx = Inr sm \<Longrightarrow>
    ct_effects sm = [''open_gate:initiation_decision'', ''outbox:gate.opened''] \<and> ct_to sm = CS_Decision_Pending"
  by (erule transition_InrE) (simp add: ENTRIES_def)

text \<open>
  C23.  Delivering an initiation opens exactly one gate, the run's decision gate with the answers
  active, watch and reject, announces it, and makes the ticker wait for the decision; a ticker
  without a lead house cannot get there.
\<close>

theorem delivery_opens_gate:
  assumes "transition_coverage now c Act_Initiation_Delivered aty actor (Some r) frc notes rq d = Inr d'"
  shows "\<exists>(g :: gate_row) (x' :: coverage_row) ms. t_gates d' = t_gates d @ [g] \<and> gt_run g = r \<and> gt_coverage g = Some c \<and>
     gt_kind g = ''initiation_decision'' \<and> gt_state g = GS_Open \<and> gt_allowed g = [''active'', ''watch'', ''reject''] \<and>
     get_coverage c d' = Some x' \<and> cov_state x' = CS_Decision_Pending \<and> cov_lead_house x' \<noteq> None \<and>
     t_outbox d' = t_outbox d @ ms \<and> map ob_kind ms = [''coverage.state_changed'', ''gate.opened'']"
  using assms
proof (rule transition_coverageE)
  fix x :: coverage_row and sm :: cov_transition and ra :: record_args
  let ?f = "\<lambda>x :: coverage_row. x\<lparr>cov_state := ct_to sm\<rparr>"
  let ?d = "trail_rows ra c (Some (cov_state x)) sm (upd_coverage c ?f d)"
  assume x: "get_coverage c d = Some x"
    and sm: "Coverage_SM.transition (Some (cov_state x)) Act_Initiation_Delivered (build_ctx x Act_Initiation_Delivered (Some r) frc notes d) = Inr sm"
    and ra: "ra_run ra = Some r"
    and rec: "record_transition ra c (Some (cov_state x)) sm (upd_coverage c ?f d) = Inr d'"
  note eff = delivered_effects [OF sm]
  have "\<exists>p key. emit (ra_now ra) ''gate.opened'' (Some c) (Some r) p key
      ((new_id ?d)\<lparr>t_gates := t_gates ?d @ [decision_gate (next_id ?d) r c]\<rparr>) = d'"
    using record_transition_Inr(1) [OF rec] eff ra by (simp add: state_effect_def Let_def) blast
  then obtain p key where d': "d' = emit (ra_now ra) ''gate.opened'' (Some c) (Some r) p key
      ((new_id ?d)\<lparr>t_gates := t_gates ?d @ [decision_gate (next_id ?d) r c]\<rparr>)" by blast
  have cov: "get_coverage c d' = Some (?f x)"
    using x by (simp add: d' get_coverage_def new_id_def)
      (simp add: get_coverage_def [symmetric] coverage_tab.fetch_mutate)
  obtain m where m: "t_outbox ?d = t_outbox d @ [m]" "ob_kind m = ''coverage.state_changed''"
    using trail_rows_outbox [of ra c "Some (cov_state x)" sm "upd_coverage c ?f d"] by (auto simp: upd_coverage_def)
  obtain m' where m': "t_outbox d' = t_outbox ?d @ [m']" "ob_kind m' = ''gate.opened''"
    unfolding d' by (simp add: emit_def new_id_def)
  have g: "t_gates d' = t_gates d @ [decision_gate (next_id ?d) r c]"
    by (simp add: d' new_id_def upd_coverage_def)
  have "cov_lead_house (?f x) \<noteq> None"
    using record_transition_Inr(3) [OF rec] cov eff
    by (auto simp: flush_coverage_Inr ck_coverage_lead_required_when_live_def)
  then show ?thesis
    using g cov m m' eff
    by (intro exI [of _ "decision_gate (next_id ?d) r c"] exI [of _ "?f x"] exI [of _ "[m, m']"])
      (simp add: decision_gate_def)
qed

theorem delivery_opens_gate_witness:
  "\<exists>d3 d4 c r. transition_coverage 4 c Act_Initiation_Delivered AT_Run ''run'' (Some r) False None None d3 = Inr d4 \<and>
     length (t_gates d4) = Suc (length (t_gates d3))"
proof -
  obtain d c r where "sample_decided = Inr (d, c, r)"
    using ok3D [OF sample_decided_states] by (elim exE conjE) (rule that)
  then obtain d4 where "sample_delivered = Inr (d4, c, r)"
    unfolding sample_decided_def by (auto simp: andthen_Inr_iff)
  then obtain d3 where step:
    "transition_coverage 4 c Act_Initiation_Delivered AT_Run ''run'' (Some r) False None None d3 = Inr d4"
    unfolding sample_delivered_def by (auto simp: andthen_Inr_iff)
  from delivery_opens_gate [OF step] have "length (t_gates d4) = Suc (length (t_gates d3))" by auto
  with step show ?thesis by blast
qed

text \<open>The side effects that do not touch gates or the lead.\<close>

lemma quiet_effect:
  assumes "eff \<in> {''merge_branch'', ''predictions_open'', ''write_coverage_levels'', ''set_decided_at'',
      ''outbox:coverage.state_changed'', ''no_branch_merge'', ''supersede_predictions'',
      ''write_lead_history'', ''open_predictions_keep_house''}"
  shows "state_effect a c eff d = Inr d"
  using assms by (elim insertE emptyE) (simp_all add: state_effect_def Let_def)

lemma decide_effects:
  assumes "Coverage_SM.transition s a ctx = Inr sm" and "a \<in> {Act_Decide_Active, Act_Decide_Watch, Act_Decide_Reject}"
  shows "\<exists>effs. ct_effects sm = ''answer_gate'' # effs \<and> list_all (\<lambda>eff. \<forall>a c d. state_effect a c eff d = Inr d) effs"
  using assms(1)
proof (rule transition_InrE)
  assume "((s, a), ct_to sm, ct_cause sm, ct_effects sm) \<in> set ENTRIES"
  moreover have "list_all (\<lambda>((_, a), (_, _, eff)). a \<in> {Act_Decide_Active, Act_Decide_Watch, Act_Decide_Reject} \<longrightarrow>
      eff = [''answer_gate'', ''merge_branch'', ''predictions_open'', ''write_coverage_levels'', ''set_decided_at'',
             ''outbox:coverage.state_changed''] \<or>
      eff = [''answer_gate'', ''no_branch_merge'', ''supersede_predictions'']) ENTRIES"
    by (simp add: ENTRIES_def)
  ultimately have "ct_effects sm = [''answer_gate'', ''merge_branch'', ''predictions_open'', ''write_coverage_levels'',
      ''set_decided_at'', ''outbox:coverage.state_changed''] \<or>
      ct_effects sm = [''answer_gate'', ''no_branch_merge'', ''supersede_predictions'']"
    using assms(2) by (fastforce simp: list_all_iff)
  then show ?thesis by (elim disjE) (simp_all add: quiet_effect)
qed

lemma fold_quiet: "list_all (\<lambda>eff. \<forall>a c d. state_effect a c eff d = Inr d) effs \<Longrightarrow>
    fold_err (state_effect a c) effs d = Inr d"
  by (induction effs) auto

lemma find_upd_coverage_gate: "open_gate_of r (trail_rows a c fs sm (upd_coverage i f d)) = open_gate_of r d"
  by (simp add: open_gate_of_def upd_coverage_def)

text \<open>
  A PM decision is only accepted on an open gate of the given run that allows the answer, and
  it closes that gate: the gate is answered with the decision by the actor, no other gate changes,
  and the ticker is active, on watch or rejected accordingly.
\<close>

theorem decision_answers_gate:
  assumes "transition_coverage now c a aty actor r frc notes rq d = Inr d'"
    and "a \<in> {Act_Decide_Active, Act_Decide_Watch, Act_Decide_Reject}"
  shows "\<exists>(g :: gate_row) ans (x' :: coverage_row). open_gate_of r d = Some g \<and> decision_answer a = Inr ans \<and> ans \<in> set (gt_allowed g) \<and>
     t_gates d' = upd_row gt_id (gt_id g) (\<lambda>g. g\<lparr>gt_state := GS_Answered, gt_answer := Some ans,
                    gt_answered_by := Some actor, gt_answered_at := Some now\<rparr>) (t_gates d) \<and>
     get_coverage c d' = Some x' \<and>
     cov_state x' = (case a of Act_Decide_Active \<Rightarrow> CS_Active | Act_Decide_Watch \<Rightarrow> CS_Watch | _ \<Rightarrow> CS_Rejected)"
  using assms(1)
proof (rule transition_coverageE)
  fix x :: coverage_row and sm :: cov_transition and ra :: record_args
  let ?f = "\<lambda>x :: coverage_row. x\<lparr>cov_state := ct_to sm\<rparr>"
  let ?d = "trail_rows ra c (Some (cov_state x)) sm (upd_coverage c ?f d)"
  assume x: "get_coverage c d = Some x"
    and sm: "Coverage_SM.transition (Some (cov_state x)) a (build_ctx x a r frc notes d) = Inr sm"
    and ra: "ra_now ra = now" "ra_action ra = a" "ra_actor ra = actor" "ra_run ra = r"
    and rec: "record_transition ra c (Some (cov_state x)) sm (upd_coverage c ?f d) = Inr d'"
  from sm have gh: "guards_hold a (build_ctx x a r frc notes d)" and
    e: "((Some (cov_state x), a), ct_to sm, ct_cause sm, ct_effects sm) \<in> set ENTRIES"
    by (auto elim: transition_InrE)
  from assms(2) have dec: "a \<in> set DECIDE_ACTIONS" by (auto simp: DECIDE_ACTIONS_def)
  with gh assms(2) obtain g where g: "open_gate_of r d = Some g"
    by (auto simp: guards_hold_def build_ctx_def)
  obtain ans where ans: "decision_answer a = Inr ans" using assms(2) by (auto simp: decision_answer_def)
  have allowed: "ans \<in> set (gt_allowed g)"
    using gh assms(2) dec g ans by (auto simp: guards_hold_def build_ctx_def)
  obtain effs where effs: "ct_effects sm = ''answer_gate'' # effs"
    "list_all (\<lambda>eff. \<forall>a c d. state_effect a c eff d = Inr d) effs"
    using decide_effects [OF sm assms(2)] by blast
  let ?h = "\<lambda>g :: gate_row. g\<lparr>gt_state := GS_Answered, gt_answer := Some ans, gt_answered_by := Some actor, gt_answered_at := Some now\<rparr>"
  have "state_effect ra c ''answer_gate'' ?d = Inr (upd_gate (gt_id g) ?h ?d)"
    using ra ans by (simp add: state_effect_def find_upd_coverage_gate g)
  then have d': "d' = upd_gate (gt_id g) ?h ?d"
    using record_transition_Inr(1) [OF rec] effs by (simp add: fold_quiet)
  have "t_gates d' = upd_row gt_id (gt_id g) ?h (t_gates d)"
    by (simp add: d' upd_gate_def upd_coverage_def)
  moreover have "get_coverage c d' = Some (?f x)"
    using x by (simp add: d' get_coverage_def upd_gate_def)
      (simp add: get_coverage_def [symmetric] coverage_tab.fetch_mutate)
  moreover have "ct_to sm = (case a of Act_Decide_Active \<Rightarrow> CS_Active | Act_Decide_Watch \<Rightarrow> CS_Watch | _ \<Rightarrow> CS_Rejected)"
    using e assms(2) by (elim insertE emptyE) (simp_all add: ENTRIES_def)
  ultimately show ?thesis
    using g ans allowed by (intro exI [of _ g] exI [of _ ans] exI [of _ "?f x"]) simp
qed

theorem decision_answers_gate_witness:
  "\<exists>d d' c r g. transition_coverage 5 c Act_Decide_Active AT_PM ''pm'' (Some r) False None None d = Inr d' \<and>
     open_gate_of (Some r) d = Some g \<and> ''active'' \<in> set (gt_allowed g)"
proof -
  obtain d' c r where dec: "sample_decided = Inr (d', c, r)"
    using ok3D [OF sample_decided_states] by (elim exE conjE) (rule that)
  then obtain d where
    step: "transition_coverage 5 c Act_Decide_Active AT_PM ''pm'' (Some r) False None None d = Inr d'"
    unfolding sample_decided_def by (auto simp: andthen_Inr_iff)
  from decision_answers_gate [OF step] obtain g where "open_gate_of (Some r) d = Some g" "''active'' \<in> set (gt_allowed g)"
    by (auto simp: decision_answer_def)
  with step show ?thesis by blast
qed

lemma set_lead_effects: "Coverage_SM.transition s Act_Set_Lead ctx = Inr sm \<Longrightarrow>
    list_all (\<lambda>eff. \<forall>a c d. state_effect a c eff d = Inr d) (ct_effects sm)"
proof (rule transition_InrE)
  assume "((s, Act_Set_Lead), ct_to sm, ct_cause sm, ct_effects sm) \<in> set ENTRIES"
  then have "ct_effects sm = [''write_lead_history'', ''open_predictions_keep_house'', ''outbox:coverage.state_changed'']"
    by (auto simp: ENTRIES_def)
  then show ?thesis by (simp add: quiet_effect)
qed

text \<open>
  A lead change is accepted only for a ticker that is active or on watch and a house that is
  enabled, assignable and not meta; the house is the lead afterwards, the state is unchanged, and the
  lead history gains one row from the old lead to the new one.
\<close>

theorem set_lead_exact:
  assumes "set_lead now c house actor r rationale d = Inr d'"
  shows "\<exists>(x :: coverage_row) (h :: house_row). get_coverage c d = Some x \<and> cov_state x \<in> {CS_Active, CS_Watch} \<and>
     get_house house d = Some h \<and> ho_enabled h \<and> ho_assignable h \<and> \<not> ho_meta h \<and>
     get_coverage c d' = Some (x\<lparr>cov_lead_house := Some house\<rparr>) \<and>
     t_lead_history d' = t_lead_history d @ [\<lparr>lh_coverage = c, lh_from = cov_lead_house x,
       lh_to = house, lh_run = r, lh_approved_by = actor, lh_rationale = rationale\<rparr>] \<and>
     length (t_transitions d') = Suc (length (t_transitions d))"
  using assms
proof (rule set_leadE)
  fix x :: coverage_row and sm :: cov_transition and ra :: record_args and d1
  let ?f = "\<lambda>x :: coverage_row. x\<lparr>cov_lead_house := Some house\<rparr>"
  assume x: "get_coverage c d = Some x" and st: "cov_state x \<in> {CS_Active, CS_Watch}"
    and sm: "\<exists>ctx. Coverage_SM.transition (Some (cov_state x)) Act_Set_Lead ctx = Inr sm"
    and h: "\<exists>h. get_house house d = Some h \<and> ho_enabled h \<and> ho_assignable h \<and> \<not> ho_meta h"
    and rec: "record_transition ra c (Some (cov_state x)) sm (upd_coverage c ?f d) = Inr d1"
    and d': "d' = d1\<lparr>t_lead_history := t_lead_history d1 @ [\<lparr>lh_coverage = c, lh_from = cov_lead_house x,
       lh_to = house, lh_run = r, lh_approved_by = actor, lh_rationale = rationale\<rparr>]\<rparr>"
  from sm have d1: "d1 = trail_rows ra c (Some (cov_state x)) sm (upd_coverage c ?f d)"
    using record_transition_Inr(1) [OF rec] by (auto simp: fold_quiet set_lead_effects)
  have "get_coverage c d' = Some (?f x)"
    using x by (simp add: d' d1 get_coverage_def)
      (simp add: get_coverage_def [symmetric] coverage_tab.fetch_mutate)
  moreover have "t_lead_history d1 = t_lead_history d"
    by (simp add: d1 trail_rows_def upd_coverage_def)
  ultimately show ?thesis using x st h by (auto simp: d' d1 upd_coverage_def)
qed

definition sample_lead_change :: "error + (db \<times> uuid)" where
  "sample_lead_change = andthen sample_decided (\<lambda>(d, c, r).
     andthen (set_lead 6 c ''opus'' ''pm'' None None (d\<lparr>t_houses := [sample_house ''gpt'', sample_house ''opus'']\<rparr>)) (\<lambda>d'.
     Inr (d', c)))"

lemma sample_lead_change_ok: "case sample_lead_change of Inl _ \<Rightarrow> False | Inr (d, c) \<Rightarrow> True"
  by code_simp

theorem set_lead_exact_witness:
  "\<exists>d d' c x. set_lead 6 c ''opus'' ''pm'' None None d = Inr d' \<and> get_coverage c d' = Some x \<and>
     cov_lead_house x = Some ''opus'' \<and> length (t_lead_history d') = Suc (length (t_lead_history d))"
proof -
  obtain d' c where "sample_lead_change = Inr (d', c)"
    using ok2D [OF sample_lead_change_ok] by (elim exE conjE) (rule that)
  then obtain d where step: "set_lead 6 c ''opus'' ''pm'' None None d = Inr d'"
    unfolding sample_lead_change_def by (auto simp: andthen_Inr_iff)
  from set_lead_exact [OF step] obtain x :: coverage_row where
    "get_coverage c d' = Some (x\<lparr>cov_lead_house := Some ''opus''\<rparr>)"
    "length (t_lead_history d') = Suc (length (t_lead_history d))" by auto
  with step show ?thesis by force
qed

section \<open>Levels\<close>

definition active_levels :: "uuid \<Rightarrow> string \<Rightarrow> level_row list \<Rightarrow> level_row list" where
  "active_levels c k rows = filter (\<lambda>l. lv_coverage l = c \<and> lv_kind l = k \<and> lv_active l) rows"

lemma active_levels_append: "active_levels c k (xs @ ys) = active_levels c k xs @ active_levels c k ys"
  by (simp add: active_levels_def)

lemma active_levels_supersede:
  "active_levels c k (map (supersede_level now c kind) rows) = (if kind = k then [] else active_levels c k rows)"
proof (induction rows)
  case Nil
  then show ?case by (simp add: active_levels_def)
next
  case (Cons l rows)
  show ?case
  proof (cases "lv_coverage l = c \<and> lv_kind l = kind \<and> lv_active l")
    case True
    then have "\<not> lv_active (supersede_level now c kind l)" by (simp add: supersede_level_def)
    with Cons True show ?thesis by (simp add: active_levels_def)
  next
    case False
    then have "supersede_level now c kind l = l" unfolding supersede_level_def by (rule if_not_P)
    with Cons False show ?thesis by (auto simp: active_levels_def)
  qed
qed

lemma length_set_level: "length (set_level af n now c sb r l rows) = Suc (length rows)"
  by (simp add: set_level_def Let_def)

lemma length_fold_set_level:
  "length (fold (set_level af n now c sb r) ls rows) = length rows + length ls"
  by (induction ls arbitrary: rows) (simp_all add: length_set_level)

lemma set_level_take:
  "n \<le> length rows \<Longrightarrow> take n (set_level False n now c sb r l rows) = map (supersede_level now c (li_kind l)) (take n rows)"
  by (simp add: set_level_def sql_view_def)

lemma active_after_stale:
  assumes "n \<le> length rows" and "active_levels c k (take n rows) = [] \<or> k \<notin> li_kind ` set ls"
  shows "length (active_levels c k (fold (set_level False n now c sb r) ls rows)) =
     length (active_levels c k rows) + length (filter (\<lambda>l. li_kind l = k) ls)"
  using assms
proof (induction ls arbitrary: rows)
  case Nil
  then show ?case by simp
next
  case (Cons l ls)
  let ?rows = "set_level False n now c sb r l rows"
  have split: "active_levels c k rows = active_levels c k (take n rows) @ active_levels c k (drop n rows)"
    by (simp add: active_levels_append [symmetric])
  have act: "length (active_levels c k ?rows) = length (active_levels c k rows) + (if li_kind l = k then 1 else 0)"
    using Cons.prems split
    by (auto simp: set_level_def sql_view_def active_levels_append active_levels_supersede Let_def)
      (simp_all add: active_levels_def)
  have "n \<le> length ?rows" using Cons.prems(1) by (simp add: set_level_def sql_view_def)
  moreover have "active_levels c k (take n ?rows) = [] \<or> k \<notin> li_kind ` set ls"
    using Cons.prems by (auto simp: set_level_take active_levels_supersede)
  ultimately show ?case using Cons.IH [of ?rows] act by simp
qed

lemma active_after_stale_first:
  assumes "k \<in> li_kind ` set ls"
  shows "length (active_levels c k (fold (set_level False (length rows) now c sb r) ls rows)) =
     length (filter (\<lambda>l. li_kind l = k) ls)"
proof -
  from assms have "\<exists>l \<in> set ls. li_kind l = k" by auto
  from split_list_first_prop [OF this] obtain pre l post where
    ls: "ls = pre @ l # post" and l: "li_kind l = k" and "\<forall>y \<in> set pre. li_kind y \<noteq> k" by (elim exE conjE)
  then have pre: "k \<notin> li_kind ` set pre" by auto
  let ?n = "length rows"
  let ?mid = "fold (set_level False ?n now c sb r) pre rows"
  have n: "?n \<le> length ?mid" by (simp add: length_fold_set_level)
  have "length (active_levels c k (drop ?n ?mid)) = 0"
  proof -
    have "active_levels c k (drop ?n (fold (set_level False ?n now c sb r) xs ys)) = active_levels c k (drop ?n ys)"
      if "k \<notin> li_kind ` set xs" "?n \<le> length ys" for xs ys
      using that
    proof (induction xs arbitrary: ys)
      case (Cons x xs)
      then show ?case
        by (simp add: set_level_def sql_view_def Let_def active_levels_append) (auto simp: active_levels_def)
    qed simp
    from this [OF pre, of rows] show ?thesis by (simp add: active_levels_def)
  qed
  then have mid: "length (active_levels c k (set_level False ?n now c sb r l ?mid)) = 1"
    using l by (simp add: set_level_def sql_view_def Let_def active_levels_append active_levels_supersede)
      (simp add: active_levels_def)
  have "active_levels c k (take ?n (set_level False ?n now c sb r l ?mid)) = []"
    using n l by (simp add: set_level_take active_levels_supersede)
  moreover have "?n \<le> length (set_level False ?n now c sb r l ?mid)"
    using n by (simp add: length_set_level)
  ultimately have "length (active_levels c k (fold (set_level False ?n now c sb r) post
      (set_level False ?n now c sb r l ?mid))) = 1 + length (filter (\<lambda>l. li_kind l = k) post)"
    using active_after_stale [of ?n "set_level False ?n now c sb r l ?mid" c k post] mid by simp
  moreover have "filter (\<lambda>l. li_kind l = k) pre = []" using pre by (auto simp: filter_empty_conv)
  ultimately show ?thesis using l by (simp add: ls)
qed

lemma active_after_flushed:
  "length (active_levels c k (fold (set_level True n now c sb r) ls rows)) =
     (if k \<in> li_kind ` set ls then 1 else length (active_levels c k rows))"
proof (induction ls arbitrary: rows)
  case Nil
  then show ?case by simp
next
  case (Cons l ls)
  have "length (active_levels c k (set_level True n now c sb r l rows)) =
      (if li_kind l = k then 1 else length (active_levels c k rows))"
    by (simp add: set_level_def sql_view_def Let_def active_levels_append active_levels_supersede)
      (simp add: active_levels_def)
  with Cons show ?case by simp
qed

text \<open>
  Setting levels with an autoflushing session leaves exactly one active level of every kind
  that was set and touches no other kind.  With the production session factory
  (\<open>autoflush=False\<close>) a call that sets one kind several times leaves that many active levels of
  the kind.
\<close>

theorem active_levels_after_set:
  "length (active_levels c k (t_levels (set_levels autoflush now c levels set_by r d))) =
     (if k \<notin> li_kind ` set levels then length (active_levels c k (t_levels d))
      else if autoflush then 1 else length (filter (\<lambda>l. li_kind l = k) levels))"
proof (cases autoflush)
  case True
  then show ?thesis using active_after_flushed by (simp add: set_levels_def)
next
  case False
  show ?thesis
  proof (cases "k \<in> li_kind ` set levels")
    case True
    with False show ?thesis using active_after_stale_first by (simp add: set_levels_def)
  next
    case out: False
    then have "filter (\<lambda>l. li_kind l = k) levels = []" by (auto simp: filter_empty_conv)
    with False out show ?thesis
      using active_after_stale [of "length (t_levels d)" "t_levels d" c k levels] by (simp add: set_levels_def)
  qed
qed

section \<open>Proposals\<close>

text \<open>
  A proposal is accepted exactly when neither the listing nor its dossier slug is taken; then
  the ticker exists in state proposed, without a lead, under the slug of its listing.
\<close>

theorem propose_accepted_iff:
  assumes "coverage_inv d"
  shows "(\<exists>d' c. propose_coverage now p d = Inr (d', c)) \<longleftrightarrow>
         (\<forall>y \<in> set (t_coverage d). (cov_exchange y, cov_ticker y) \<noteq> (pi_exchange p, pi_ticker p) \<and>
            cov_dossier_slug y \<noteq> compute_dossier_slug (pi_exchange p) (pi_ticker p))"
    (is "?acc \<longleftrightarrow> ?free")
proof
  assume ?acc
  then obtain d' c where "propose_coverage now p d = Inr (d', c)" by blast
  then show ?free by (rule propose_coverageE) auto
next
  assume ?free
  moreover have "\<forall>y \<in> set (t_coverage d). cov_id y \<noteq> next_id d"
    using assms by (auto simp: coverage_inv_def keys_ok_def fresh_in_def)
  ultimately show ?acc by (intro propose_accepts) auto
qed

theorem propose_accepted_iff_witness:
  "\<exists>d c. propose_coverage 5 sample_propose (empty_db\<lparr>t_houses := []\<rparr>) = Inr (d, c)"
  using propose_accepted_iff [OF empty_coverage_inv, of 5 sample_propose "[]"] by (simp add: empty_db_def)

end
