(* ===== verification/Predictions_Repo.thy ===== *)
theory Predictions_Repo
  imports Queue_Correct
begin

text \<open>
  \<open>core/db/repo/predictions.py\<close>: the prediction ledger.  Registration copies the identity
  columns from the stage and is idempotent in a digest of (stage, kind, scenario label, value,
  horizon); after insertion only the scoring and superseding columns change.  \<open>digest\<close> stands for
  the hexadecimal SHA-256 of a text and \<open>show_dec\<close> for the text of a decimal.
\<close>

section \<open>Operations\<close>

record prediction_in =
  pn_kind :: string
  pn_horizon :: string
  pn_value :: "decimal option"
  pn_currency :: "string option"
  pn_stance :: "string option"
  pn_scenario_label :: "string option"
  pn_scenario_prob :: "decimal option"
  pn_scenario_group :: "uuid option"
  pn_confidence :: "decimal option"
  pn_rationale_ref :: "string option"
  pn_direction :: "string option"
  pn_pinned_price :: "decimal option"

definition prediction_key ::
  "(string \<Rightarrow> string) \<Rightarrow> (decimal \<Rightarrow> string) \<Rightarrow> uuid \<Rightarrow> prediction_in \<Rightarrow> string" where
  "prediction_key digest show_dec stage_id e =
     digest (show_nat stage_id @ ''|'' @ pn_kind e @ ''|'' @
             (case pn_scenario_label e of None \<Rightarrow> [] | Some l \<Rightarrow> l) @ ''|'' @
             (case pn_value e of None \<Rightarrow> [] | Some v \<Rightarrow> if v = 0 then [] else show_dec v) @ ''|'' @
             pn_horizon e)"

definition find_prediction :: "string \<Rightarrow> db \<Rightarrow> prediction_row option" where
  "find_prediction key d = find (\<lambda>p. pr_key p = key) (t_predictions d)"

definition prediction_values ::
  "time \<Rightarrow> uuid \<Rightarrow> uuid \<Rightarrow> stage_row \<Rightarrow> prediction_kind \<Rightarrow> prediction_in \<Rightarrow> string \<Rightarrow> prediction_row" where
  "prediction_values now i c stage kind e key =
     \<lparr>pr_id = i, pr_coverage = c, pr_run = st_run stage, pr_stage = st_id stage,
      pr_house = st_house stage, pr_kind = kind, pr_value = pn_value e, pr_currency = pn_currency e,
      pr_stance = pn_stance e, pr_scenario_label = pn_scenario_label e,
      pr_scenario_prob = pn_scenario_prob e, pr_scenario_group = pn_scenario_group e,
      pr_horizon = pn_horizon e, pr_confidence = pn_confidence e,
      pr_rationale_ref = pn_rationale_ref e, pr_direction = pn_direction e,
      pr_pinned_price = pn_pinned_price e, pr_key = key, pr_created_at = now,
      pr_status = PS_Open, pr_superseded_by = None, pr_superseded_run = None, pr_scored_at = None,
      pr_realized_price = None, pr_realized_return = None, pr_error_pct = None,
      pr_outcome_notes = None\<rparr>"

text \<open>
  One INSERT with ON CONFLICT DO NOTHING and the SELECT after it.  NOT NULL and CHECK constraints
  are tested before the conflict.
\<close>

definition register_one ::
  "(string \<Rightarrow> string) \<Rightarrow> (decimal \<Rightarrow> string) \<Rightarrow> time \<Rightarrow> run_row \<Rightarrow> stage_row \<Rightarrow> prediction_in \<Rightarrow> db \<Rightarrow>
     error + (db \<times> prediction_row)" where
  "register_one digest show_dec now run stage e d =
     andthen (require (IntegrityError ''predictions.coverage_id'') (run_coverage run)) (\<lambda>c.
     andthen (require (IntegrityError ''ck_predictions_kind'') (prediction_kind_of (pn_kind e))) (\<lambda>kind.
     let key = prediction_key digest show_dec (st_id stage) e;
         row = prediction_values now (next_id d) c stage kind e key
     in if \<not> ck_predictions row then Inl (IntegrityError ''ck_predictions'')
        else case find_prediction key d of
               Some old \<Rightarrow> Inr (d, old)
             | None \<Rightarrow> Inr ((new_id d)\<lparr>t_predictions := t_predictions d @ [row]\<rparr>, row)))"

fun register_all ::
  "(string \<Rightarrow> string) \<Rightarrow> (decimal \<Rightarrow> string) \<Rightarrow> time \<Rightarrow> run_row \<Rightarrow> stage_row \<Rightarrow> prediction_in list \<Rightarrow> db \<Rightarrow>
     error + (db \<times> prediction_row list)" where
  "register_all digest show_dec now run stage [] d = Inr (d, [])"
| "register_all digest show_dec now run stage (e # es) d =
     andthen (register_one digest show_dec now run stage e d) (\<lambda>(d1, row).
     andthen (register_all digest show_dec now run stage es d1) (\<lambda>(d2, rows).
     Inr (d2, row # rows)))"

definition register_from_stage ::
  "(string \<Rightarrow> string) \<Rightarrow> (decimal \<Rightarrow> string) \<Rightarrow> time \<Rightarrow> uuid \<Rightarrow> prediction_in list \<Rightarrow> db \<Rightarrow>
     error + (db \<times> prediction_row list)" where
  "register_from_stage digest show_dec now stage_id entries d =
     andthen (require AttributeError (get_stage stage_id d)) (\<lambda>stage.
     andthen (require AttributeError (get_run (st_run stage) d)) (\<lambda>run.
     register_all digest show_dec now run stage entries d))"

text \<open>
  A keyword argument of \<open>update_prediction\<close> with its value: any column of the table, or a name that
  is no column (\<open>setattr\<close> then adds an attribute to the object that no flush writes).
\<close>

datatype prediction_field =
    F_Status prediction_status
  | F_Superseded_By "uuid option"
  | F_Superseded_Run "uuid option"
  | F_Scored_At "time option"
  | F_Realized_Price "decimal option"
  | F_Realized_Return "decimal option"
  | F_Error_Pct "decimal option"
  | F_Outcome_Notes "string option"
  | F_Id uuid
  | F_Coverage uuid
  | F_Run uuid
  | F_Stage uuid
  | F_House string
  | F_Kind prediction_kind
  | F_Value "decimal option"
  | F_Currency "string option"
  | F_Stance "string option"
  | F_Scenario_Label "string option"
  | F_Scenario_Prob "decimal option"
  | F_Scenario_Group "uuid option"
  | F_Horizon string
  | F_Confidence "decimal option"
  | F_Rationale_Ref "string option"
  | F_Key string
  | F_Created_At time
  | F_Direction "string option"
  | F_Pinned_Price "decimal option"
  | F_Other string

fun field_name :: "prediction_field \<Rightarrow> string" where
  "field_name (F_Status _) = ''status''"
| "field_name (F_Superseded_By _) = ''superseded_by_id''"
| "field_name (F_Superseded_Run _) = ''superseded_run_id''"
| "field_name (F_Scored_At _) = ''scored_at''"
| "field_name (F_Realized_Price _) = ''realized_price''"
| "field_name (F_Realized_Return _) = ''realized_return''"
| "field_name (F_Error_Pct _) = ''error_pct''"
| "field_name (F_Outcome_Notes _) = ''outcome_notes''"
| "field_name (F_Id _) = ''id''"
| "field_name (F_Coverage _) = ''coverage_id''"
| "field_name (F_Run _) = ''run_id''"
| "field_name (F_Stage _) = ''stage_id''"
| "field_name (F_House _) = ''house''"
| "field_name (F_Kind _) = ''kind''"
| "field_name (F_Value _) = ''value''"
| "field_name (F_Currency _) = ''currency''"
| "field_name (F_Stance _) = ''stance''"
| "field_name (F_Scenario_Label _) = ''scenario_label''"
| "field_name (F_Scenario_Prob _) = ''scenario_prob''"
| "field_name (F_Scenario_Group _) = ''scenario_group''"
| "field_name (F_Horizon _) = ''horizon_date''"
| "field_name (F_Confidence _) = ''confidence''"
| "field_name (F_Rationale_Ref _) = ''rationale_ref''"
| "field_name (F_Key _) = ''idempotency_key''"
| "field_name (F_Created_At _) = ''created_at''"
| "field_name (F_Direction _) = ''direction''"
| "field_name (F_Pinned_Price _) = ''pinned_price''"
| "field_name (F_Other n) = n"

fun set_field :: "prediction_field \<Rightarrow> prediction_row \<Rightarrow> prediction_row" where
  "set_field (F_Status s) p = p\<lparr>pr_status := s\<rparr>"
| "set_field (F_Superseded_By v) p = p\<lparr>pr_superseded_by := v\<rparr>"
| "set_field (F_Superseded_Run v) p = p\<lparr>pr_superseded_run := v\<rparr>"
| "set_field (F_Scored_At v) p = p\<lparr>pr_scored_at := v\<rparr>"
| "set_field (F_Realized_Price v) p = p\<lparr>pr_realized_price := v\<rparr>"
| "set_field (F_Realized_Return v) p = p\<lparr>pr_realized_return := v\<rparr>"
| "set_field (F_Error_Pct v) p = p\<lparr>pr_error_pct := v\<rparr>"
| "set_field (F_Outcome_Notes v) p = p\<lparr>pr_outcome_notes := v\<rparr>"
| "set_field (F_Id v) p = p\<lparr>pr_id := v\<rparr>"
| "set_field (F_Coverage v) p = p\<lparr>pr_coverage := v\<rparr>"
| "set_field (F_Run v) p = p\<lparr>pr_run := v\<rparr>"
| "set_field (F_Stage v) p = p\<lparr>pr_stage := v\<rparr>"
| "set_field (F_House v) p = p\<lparr>pr_house := v\<rparr>"
| "set_field (F_Kind v) p = p\<lparr>pr_kind := v\<rparr>"
| "set_field (F_Value v) p = p\<lparr>pr_value := v\<rparr>"
| "set_field (F_Currency v) p = p\<lparr>pr_currency := v\<rparr>"
| "set_field (F_Stance v) p = p\<lparr>pr_stance := v\<rparr>"
| "set_field (F_Scenario_Label v) p = p\<lparr>pr_scenario_label := v\<rparr>"
| "set_field (F_Scenario_Prob v) p = p\<lparr>pr_scenario_prob := v\<rparr>"
| "set_field (F_Scenario_Group v) p = p\<lparr>pr_scenario_group := v\<rparr>"
| "set_field (F_Horizon v) p = p\<lparr>pr_horizon := v\<rparr>"
| "set_field (F_Confidence v) p = p\<lparr>pr_confidence := v\<rparr>"
| "set_field (F_Rationale_Ref v) p = p\<lparr>pr_rationale_ref := v\<rparr>"
| "set_field (F_Key v) p = p\<lparr>pr_key := v\<rparr>"
| "set_field (F_Created_At v) p = p\<lparr>pr_created_at := v\<rparr>"
| "set_field (F_Direction v) p = p\<lparr>pr_direction := v\<rparr>"
| "set_field (F_Pinned_Price v) p = p\<lparr>pr_pinned_price := v\<rparr>"
| "set_field (F_Other _) p = p"

definition MUTABLE :: "string list" where
  "MUTABLE = [''status'', ''superseded_by_id'', ''superseded_run_id'', ''scored_at'', ''realized_price'',
     ''realized_return'', ''error_pct'', ''outcome_notes'']"

definition update_prediction :: "uuid \<Rightarrow> prediction_field list \<Rightarrow> db \<Rightarrow> error + db" where
  "update_prediction i kwargs d =
     (let bad = filter (\<lambda>n. n \<notin> set MUTABLE) (map field_name kwargs)
      in if bad \<noteq> [] then Inl (ImmutableColumnError (sort (remdups bad)))
         else andthen (require AttributeError (get_prediction i d)) (\<lambda>_.
              Inr (upd_prediction i (fold set_field kwargs) d)))"

definition supersede :: "uuid \<Rightarrow> uuid \<Rightarrow> uuid \<Rightarrow> db \<Rightarrow> error + db" where
  "supersede i by_prediction_id r d =
     andthen (require AttributeError (get_prediction i d)) (\<lambda>_.
     Inr (upd_prediction i (\<lambda>p. p\<lparr>pr_status := PS_Superseded, pr_superseded_by := Some by_prediction_id,
            pr_superseded_run := Some r\<rparr>) d))"

record score_in =
  sc_realized_price :: "decimal option"
  sc_realized_return :: "decimal option"
  sc_error_pct :: "decimal option"
  sc_outcome_notes :: "string option"

definition keep_or :: "'a option \<Rightarrow> 'a option \<Rightarrow> 'a option" where
  "keep_or arg old = (case arg of None \<Rightarrow> old | Some v \<Rightarrow> Some v)"

definition score_row :: "time \<Rightarrow> prediction_status \<Rightarrow> score_in \<Rightarrow> prediction_row \<Rightarrow> prediction_row" where
  "score_row now st a p = p\<lparr>pr_status := st, pr_scored_at := Some now,
     pr_realized_price := keep_or (sc_realized_price a) (pr_realized_price p),
     pr_realized_return := keep_or (sc_realized_return a) (pr_realized_return p),
     pr_error_pct := keep_or (sc_error_pct a) (pr_error_pct p),
     pr_outcome_notes := keep_or (sc_outcome_notes a) (pr_outcome_notes p)\<rparr>"

definition score :: "time \<Rightarrow> uuid \<Rightarrow> string \<Rightarrow> score_in \<Rightarrow> db \<Rightarrow> error + db" where
  "score now i status a d =
     andthen (require AttributeError (get_prediction i d)) (\<lambda>_.
     andthen (require (IntegrityError ''ck_predictions_status'') (prediction_status_of status)) (\<lambda>st.
     Inr (upd_prediction i (score_row now st a) d)))"

section \<open>Immutability\<close>

text \<open>A row without its mutable columns.\<close>

definition frozen :: "prediction_row \<Rightarrow> prediction_row" where
  "frozen p = p\<lparr>pr_status := PS_Open, pr_superseded_by := None, pr_superseded_run := None,
     pr_scored_at := None, pr_realized_price := None, pr_realized_return := None,
     pr_error_pct := None, pr_outcome_notes := None\<rparr>"

text \<open>Only the whitelisted columns may be written: any other one is part of what is frozen.\<close>

lemma frozen_set_field: "field_name f \<in> set MUTABLE \<Longrightarrow> frozen (set_field f p) = frozen p"
  by (cases f) (simp_all add: frozen_def MUTABLE_def)

lemma frozen_fold: "set (map field_name fs) \<subseteq> set MUTABLE \<Longrightarrow> frozen (fold set_field fs p) = frozen p"
  by (induction fs arbitrary: p) (simp_all add: frozen_set_field)

lemma update_predictionE:
  assumes "update_prediction i kwargs d = Inr d'"
  shows "set (map field_name kwargs) \<subseteq> set MUTABLE \<and> d' = upd_prediction i (fold set_field kwargs) d"
  using assms by (auto simp: update_prediction_def andthen_Inr_iff Let_def filter_empty_conv split: if_splits)

lemma frozen_score: "frozen (score_row now st a p) = frozen p"
  by (simp add: frozen_def score_row_def)

definition ledger_extends :: "db \<Rightarrow> db \<Rightarrow> bool" where
  "ledger_extends d d' \<longleftrightarrow> (\<exists>new. map frozen (t_predictions d') = map frozen (t_predictions d) @ new)"

lemma ledger_extends_refl: "ledger_extends d d"
  by (simp add: ledger_extends_def)

lemma ledger_extends_trans: "ledger_extends d e \<Longrightarrow> ledger_extends e f \<Longrightarrow> ledger_extends d f"
  by (auto simp: ledger_extends_def)

lemma ledger_upd: "(\<And>p. frozen (f p) = frozen p) \<Longrightarrow> ledger_extends d (upd_prediction i f d)"
  by (simp add: ledger_extends_def upd_prediction_def map_upd_row_frame)

lemma register_oneE:
  assumes "register_one dg sd now run stage e d = Inr (d', row)"
  obtains c kind where "run_coverage run = Some c" "prediction_kind_of (pn_kind e) = Some kind"
    "pr_key row = prediction_key dg sd (st_id stage) e"
    "(find_prediction (pr_key row) d = Some row \<and> d' = d) \<or>
     (find_prediction (pr_key row) d = None \<and> d' = (new_id d)\<lparr>t_predictions := t_predictions d @ [row]\<rparr> \<and>
      row = prediction_values now (next_id d) c stage kind e (prediction_key dg sd (st_id stage) e) \<and>
      ck_predictions row)"
    "\<And>i k. ck_predictions (prediction_values now i c stage kind e k)"
proof -
  let ?key = "prediction_key dg sd (st_id stage) e"
  from assms obtain c where c: "run_coverage run = Some c"
    by (cases "run_coverage run") (simp_all add: register_one_def)
  from assms c obtain kind where k: "prediction_kind_of (pn_kind e) = Some kind"
    by (cases "prediction_kind_of (pn_kind e)") (simp_all add: register_one_def)
  let ?row = "prediction_values now (next_id d) c stage kind e ?key"
  have ck: "ck_predictions ?row"
    using assms c k by (cases "ck_predictions ?row") (simp_all add: register_one_def Let_def)
  have ck': "ck_predictions (prediction_values now i c stage kind e x)" for i x
    using ck by (simp add: ck_predictions_def prediction_values_def)
  have key: "find_prediction ?key d = Some p \<Longrightarrow> pr_key p = ?key" for p
    unfolding find_prediction_def by (induction "t_predictions d") (auto simp: find_Some_iff)
  show thesis
  proof (cases "find_prediction ?key d")
    case None
    with assms c k ck ck' show thesis
      by (intro that [of c kind]) (auto simp: register_one_def Let_def prediction_values_def)
  next
    case (Some old)
    with assms c k ck ck' key [OF Some] show thesis
      by (intro that [of c kind]) (auto simp: register_one_def Let_def)
  qed
qed

section \<open>Lookup by key\<close>

lemma find_prediction_append:
  "find_prediction k (d\<lparr>t_predictions := xs @ ys\<rparr>) =
     (case find (\<lambda>p. pr_key p = k) xs of None \<Rightarrow> find (\<lambda>p. pr_key p = k) ys | Some p \<Rightarrow> Some p)"
  by (induction xs) (simp_all add: find_prediction_def)

lemma find_prediction_new_id [simp]: "find_prediction k (new_id d) = find_prediction k d"
  by (simp add: find_prediction_def new_id_def)

text \<open>What one registration leaves: its row is found under its key, and every other key as before.\<close>

lemma register_one_find:
  assumes "register_one dg sd now run stage e d = Inr (d', row)"
  shows "find_prediction (prediction_key dg sd (st_id stage) e) d' = Some row"
    and "find_prediction k d = Some p \<Longrightarrow> find_prediction k d' = Some p"
    and "t_stages d' = t_stages d" and "t_runs d' = t_runs d"
proof -
  from assms obtain c kind where key: "pr_key row = prediction_key dg sd (st_id stage) e"
    and alt: "(find_prediction (pr_key row) d = Some row \<and> d' = d) \<or>
     (find_prediction (pr_key row) d = None \<and> d' = (new_id d)\<lparr>t_predictions := t_predictions d @ [row]\<rparr>)"
    by (rule register_oneE) blast
  show "find_prediction (prediction_key dg sd (st_id stage) e) d' = Some row"
    using alt key by (auto simp: find_prediction_append) (auto simp: find_prediction_def)
  show "find_prediction k d = Some p \<Longrightarrow> find_prediction k d' = Some p"
    using alt by (auto simp: find_prediction_append) (auto simp: find_prediction_def)
  show "t_stages d' = t_stages d" "t_runs d' = t_runs d"
    using alt by (auto simp: new_id_def)
qed

lemma register_all_find:
  assumes "register_all dg sd now run stage es d = Inr (d', rows)"
  shows "(find_prediction k d = Some p \<longrightarrow> find_prediction k d' = Some p) \<and>
         t_stages d' = t_stages d \<and> t_runs d' = t_runs d"
  using assms
proof (induction es arbitrary: d rows)
  case (Cons e es)
  from Cons.prems obtain d1 row rest where one: "register_one dg sd now run stage e d = Inr (d1, row)"
    and all: "register_all dg sd now run stage es d1 = Inr (d', rest)"
    by (auto simp: andthen_Inr_iff)
  from Cons.IH [OF all] register_one_find [OF one] show ?case by auto
qed simp

text \<open>A registration whose key is in the ledger returns the row that is there.\<close>

lemma register_one_known:
  assumes "register_one dg sd now run stage e d = Inr (d1, row)"
    and "find_prediction (prediction_key dg sd (st_id stage) e) d2 = Some row"
  shows "register_one dg sd now' run stage e d2 = Inr (d2, row)"
proof -
  from assms(1) obtain c kind where "run_coverage run = Some c"
    "prediction_kind_of (pn_kind e) = Some kind"
    "\<And>n i k. ck_predictions (prediction_values n i c stage kind e k)"
    by (elim register_oneE) (simp add: ck_predictions_def prediction_values_def)
  with assms(2) show ?thesis by (simp add: register_one_def Let_def)
qed

lemma register_all_known:
  assumes "register_all dg sd now run stage es d = Inr (d1, rows)"
    and "\<And>k p. find_prediction k d1 = Some p \<Longrightarrow> find_prediction k d2 = Some p"
  shows "register_all dg sd now' run stage es d2 = Inr (d2, rows)"
  using assms
proof (induction es arbitrary: d rows)
  case (Cons e es)
  from Cons.prems(1) obtain dm row rest where one: "register_one dg sd now run stage e d = Inr (dm, row)"
    and all: "register_all dg sd now run stage es dm = Inr (d1, rest)" and "rows = row # rest"
    by (auto simp: andthen_Inr_iff)
  have "find_prediction (prediction_key dg sd (st_id stage) e) d2 = Some row"
    using register_one_find(1) [OF one] register_all_find [OF all] Cons.prems(2) by blast
  with one have "register_one dg sd now' run stage e d2 = Inr (d2, row)" by (rule register_one_known)
  with Cons.IH [OF all Cons.prems(2)] \<open>rows = row # rest\<close> show ?case by simp
qed simp

section \<open>A concrete ledger\<close>

definition sample_entry :: "decimal option \<Rightarrow> string \<Rightarrow> prediction_in" where
  "sample_entry v stance = \<lparr>pn_kind = ''entry_point'', pn_horizon = ''2027-01-31'', pn_value = v,
     pn_currency = Some ''EUR'', pn_stance = Some stance, pn_scenario_label = None,
     pn_scenario_prob = None, pn_scenario_group = None, pn_confidence = Some (1/2),
     pn_rationale_ref = None, pn_direction = Some ''below'',
     pn_pinned_price = Some 90\<rparr>"

definition sample_show :: "decimal \<Rightarrow> string" where
  "sample_show v = (if v = 80 then ''80'' else ''?'')"

abbreviation sample_register :: "time \<Rightarrow> prediction_in list \<Rightarrow> db \<Rightarrow> error + (db \<times> prediction_row list)" where
  "sample_register now es d \<equiv> register_from_stage (\<lambda>s. s) sample_show now 2 es d"

section \<open>Properties\<close>

text \<open>The identity columns a new row takes from the stage and its run.\<close>

definition identity_of :: "run_row \<Rightarrow> stage_row \<Rightarrow> prediction_row \<Rightarrow> bool" where
  "identity_of run stage p \<longleftrightarrow> Some (pr_coverage p) = run_coverage run \<and> pr_run p = st_run stage \<and>
     pr_stage p = st_id stage \<and> pr_house p = st_house stage \<and> pr_status p = PS_Open"

lemma register_all_new:
  assumes "register_all dg sd now run stage es d = Inr (d', rows)"
  shows "\<exists>new. t_predictions d' = t_predictions d @ new \<and> list_all (identity_of run stage) new \<and>
     map pr_key rows = map (prediction_key dg sd (st_id stage)) es"
  using assms
proof (induction es arbitrary: d rows)
  case (Cons e es)
  from Cons.prems obtain d1 row rest where one: "register_one dg sd now run stage e d = Inr (d1, row)"
    and all: "register_all dg sd now run stage es d1 = Inr (d', rest)" and rows: "rows = row # rest"
    by (auto simp: andthen_Inr_iff)
  from one have "(\<exists>n. t_predictions d1 = t_predictions d @ n \<and> list_all (identity_of run stage) n) \<and>
      pr_key row = prediction_key dg sd (st_id stage) e"
  proof (rule register_oneE)
    fix c kind
    assume "run_coverage run = Some c" and "pr_key row = prediction_key dg sd (st_id stage) e"
      and "(find_prediction (pr_key row) d = Some row \<and> d1 = d) \<or>
     (find_prediction (pr_key row) d = None \<and> d1 = (new_id d)\<lparr>t_predictions := t_predictions d @ [row]\<rparr> \<and>
      row = prediction_values now (next_id d) c stage kind e (prediction_key dg sd (st_id stage) e) \<and>
      ck_predictions row)"
    then show ?thesis by (auto simp: identity_of_def prediction_values_def)
  qed
  with Cons.IH [OF all] rows show ?case by (auto simp: list_all_iff)
qed simp

text \<open>
  The identity of a prediction comes from the stage and never from the model: a successful
  registration appends to the ledger, every row it adds carries the run, stage, house and coverage
  of the stage and is open, and one row is returned per entry, under the key of the entry.
\<close>

theorem registered_identity:
  assumes "register_from_stage dg sd now i es d = Inr (d', rows)"
  shows "\<exists>stage run new. get_stage i d = Some stage \<and> get_run (st_run stage) d = Some run \<and>
     t_predictions d' = t_predictions d @ new \<and> list_all (identity_of run stage) new \<and>
     map pr_key rows = map (prediction_key dg sd (st_id stage)) es"
  using assms register_all_new
  by (auto simp: register_from_stage_def andthen_Inr_iff)

theorem registered_identity_witness:
  "\<exists>d rows stage run. sample_register 50 [sample_entry (Some 80) ''buy''] sample_db = Inr (d, rows) \<and>
     get_stage 2 sample_db = Some stage \<and> get_run (st_run stage) sample_db = Some run \<and>
     list_all (identity_of run stage) (t_predictions d) \<and> length rows = 1"
proof -
  have "case sample_register 50 [sample_entry (Some 80) ''buy''] sample_db of Inl _ \<Rightarrow> False
        | Inr (d, rows) \<Rightarrow> length rows = 1" by code_simp
  then obtain d rows where r: "sample_register 50 [sample_entry (Some 80) ''buy''] sample_db = Inr (d, rows)"
    and "length rows = 1" using ok2D by fast
  moreover have "t_predictions sample_db = []" by (simp add: sample_db_def empty_db_def)
  ultimately show ?thesis using registered_identity [OF r] r by fastforce
qed

text \<open>
  C17.  Registration is idempotent: registering the same entries again, at any later time and after
  any further registrations, adds nothing and returns the same rows.
\<close>

theorem register_replay:
  assumes "register_from_stage dg sd now i es d = Inr (d1, rows)"
    and "register_from_stage dg sd now1 j fs d1 = Inr (d2, others)"
  shows "register_from_stage dg sd now2 i es d2 = Inr (d2, rows)"
proof -
  from assms obtain stage run stage2 run2 where st: "get_stage i d = Some stage"
    and r: "get_run (st_run stage) d = Some run"
    and one: "register_all dg sd now run stage es d = Inr (d1, rows)"
    and two: "register_all dg sd now1 run2 stage2 fs d1 = Inr (d2, others)"
    by (auto simp: register_from_stage_def andthen_Inr_iff)
  have "t_stages d2 = t_stages d" "t_runs d2 = t_runs d"
    using register_all_find [OF one] register_all_find [OF two] by simp_all
  with st r have "get_stage i d2 = Some stage" "get_run (st_run stage) d2 = Some run"
    by (simp_all add: get_stage_def get_run_def)
  moreover from one have "register_all dg sd now2 run stage es d2 = Inr (d2, rows)"
    by (rule register_all_known) (use register_all_find [OF two] in blast)
  ultimately show ?thesis by (simp add: register_from_stage_def)
qed

theorem register_replay_witness:
  "\<exists>d rows d2 others. sample_register 50 [sample_entry (Some 80) ''buy''] sample_db = Inr (d, rows) \<and>
     sample_register 60 [sample_entry None ''buy''] d = Inr (d2, others) \<and>
     length (t_predictions d2) = 2 \<and>
     sample_register 70 [sample_entry (Some 80) ''buy''] d2 = Inr (d2, rows)"
proof -
  have "case andthen (sample_register 50 [sample_entry (Some 80) ''buy''] sample_db) (\<lambda>(d, rows).
          andthen (sample_register 60 [sample_entry None ''buy''] d) (\<lambda>(d2, others). Inr (length (t_predictions d2)))) of
        Inl _ \<Rightarrow> False | Inr n \<Rightarrow> n = 2" by code_simp
  then obtain d rows d2 others where
      r: "sample_register 50 [sample_entry (Some 80) ''buy''] sample_db = Inr (d, rows)"
    and r2: "sample_register 60 [sample_entry None ''buy''] d = Inr (d2, others)"
    and "length (t_predictions d2) = 2"
    by (auto dest!: ok1D simp: andthen_Inr_iff)
  with register_replay [OF r r2] show ?thesis by blast
qed

text \<open>The repository's operations as one step relation.\<close>

inductive pred_step :: "(string \<Rightarrow> string) \<Rightarrow> (decimal \<Rightarrow> string) \<Rightarrow> db \<Rightarrow> db \<Rightarrow> bool"
  for dg sd where
  register: "register_from_stage dg sd now i es d = Inr (d', rows) \<Longrightarrow> pred_step dg sd d d'"
| update: "update_prediction i kwargs d = Inr d' \<Longrightarrow> pred_step dg sd d d'"
| supersede: "supersede i by_id r d = Inr d' \<Longrightarrow> pred_step dg sd d d'"
| score: "score now i status a d = Inr d' \<Longrightarrow> pred_step dg sd d d'"

lemma register_appends:
  "register_from_stage dg sd now i es d = Inr (d', rows) \<Longrightarrow> \<exists>new. t_predictions d' = t_predictions d @ new"
  using register_all_new by (fastforce simp: register_from_stage_def andthen_Inr_iff)

lemma pred_step_ledger:
  assumes "pred_step dg sd d d'"
  shows "ledger_extends d d'"
  using assms
proof cases
  case (register now i es rows)
  then obtain new where "t_predictions d' = t_predictions d @ new"
    using register_appends by blast
  then show ?thesis by (simp add: ledger_extends_def)
next
  case (update i kwargs)
  then show ?thesis
    by (auto dest!: update_predictionE intro!: ledger_upd frozen_fold)
next
  case (supersede i by_id r)
  then show ?thesis
    by (auto simp: supersede_def andthen_Inr_iff frozen_def intro!: ledger_upd)
next
  case (score now i status a)
  then show ?thesis
    by (auto simp: score_def andthen_Inr_iff frozen_score intro!: ledger_upd)
qed

text \<open>
  C15.  The ledger is immutable: over any history of registrations, updates of any columns,
  supersedings and scorings no row is lost or reordered, and no column of a row but the scoring and
  superseding ones ever changes: an update that names another column raises as a whole.
\<close>

theorem ledger_immutable:
  assumes "(pred_step dg sd)\<^sup>*\<^sup>* d d'"
  shows "(\<exists>new. map frozen (t_predictions d') = map frozen (t_predictions d) @ new) \<and>
     (set (map field_name kwargs) \<subseteq> set MUTABLE \<or> (\<exists>bad. update_prediction i kwargs d' = Inl (ImmutableColumnError bad)))"
proof
  show "\<exists>new. map frozen (t_predictions d') = map frozen (t_predictions d) @ new"
    using assms
    by (induction rule: rtranclp_induct)
      (use ledger_extends_refl ledger_extends_trans pred_step_ledger in \<open>auto simp: ledger_extends_def [symmetric]\<close>)
qed (auto simp: update_prediction_def filter_empty_conv)

theorem ledger_immutable_witness:
  "\<exists>d1 d2 new. pred_step (\<lambda>s. s) sample_show sample_db d1 \<and> pred_step (\<lambda>s. s) sample_show d1 d2 \<and>
     map pr_status (t_predictions d2) = [PS_Hit] \<and>
     map frozen (t_predictions d2) = map frozen (t_predictions sample_db) @ new \<and>
     (\<exists>bad. update_prediction (pr_id (hd (t_predictions d2))) [F_Status PS_Hit, F_Value (Some 90)] d2 = Inl (ImmutableColumnError bad))"
proof -
  let ?s = "\<lparr>sc_realized_price = Some 79, sc_realized_return = None, sc_error_pct = None, sc_outcome_notes = None\<rparr>"
  have "case andthen (sample_register 50 [sample_entry (Some 80) ''buy''] sample_db) (\<lambda>(d, rows).
          andthen (score 60 (pr_id (hd rows)) ''hit'' ?s d) (\<lambda>d2. Inr (map pr_status (t_predictions d2)))) of
        Inl _ \<Rightarrow> False | Inr n \<Rightarrow> n = [PS_Hit]" by code_simp
  then obtain d1 rows d2 where r: "sample_register 50 [sample_entry (Some 80) ''buy''] sample_db = Inr (d1, rows)"
    and r2: "score 60 (pr_id (hd rows)) ''hit'' ?s d1 = Inr d2" and st: "map pr_status (t_predictions d2) = [PS_Hit]"
    by (auto dest!: ok1D simp: andthen_Inr_iff)
  from pred_step.register [OF r] pred_step.score [OF r2]
  have s: "pred_step (\<lambda>s. s) sample_show sample_db d1" "pred_step (\<lambda>s. s) sample_show d1 d2" .
  then have "(pred_step (\<lambda>s. s) sample_show)\<^sup>*\<^sup>* sample_db d2" by simp
  note safe = ledger_immutable [OF this]
  from safe [THEN conjunct1] obtain new where
    "map frozen (t_predictions d2) = map frozen (t_predictions sample_db) @ new" by (elim exE)
  moreover have "\<exists>bad. update_prediction (pr_id (hd (t_predictions d2))) [F_Status PS_Hit, F_Value (Some 90)] d2 = Inl (ImmutableColumnError bad)"
    using safe [THEN conjunct2, of "[F_Status PS_Hit, F_Value (Some 90)]"] by (simp add: MUTABLE_def)
  ultimately show ?thesis using s st by (intro exI [of _ d1] exI [of _ d2] exI [of _ new] conjI)
qed

text \<open>
  The key ignores the stance, the currency, the scenario probability and the direction, and does not
  tell a value of zero from no value: of two entries of a stage that differ only there the second
  is silently dropped, and the row of the first is returned for it.
\<close>

theorem key_collisions_drop:
  assumes "pn_kind e2 = pn_kind e1" and "pn_horizon e2 = pn_horizon e1"
    and "pn_scenario_label e2 = pn_scenario_label e1"
    and "pn_value e2 = pn_value e1 \<or> {pn_value e1, pn_value e2} \<subseteq> {None, Some 0}"
    and "register_from_stage dg sd now i [e1, e2] d = Inr (d', rows)"
  shows "\<exists>row. rows = [row, row] \<and> length (t_predictions d') \<le> Suc (length (t_predictions d))"
proof -
  have key: "prediction_key dg sd s e2 = prediction_key dg sd s e1" for s
    using assms(1-4) by (auto simp: prediction_key_def)
  from assms(5) obtain stage run d1 row1 row2
    where one: "register_one dg sd now run stage e1 d = Inr (d1, row1)"
      and two: "register_one dg sd now run stage e2 d1 = Inr (d', row2)" and rows: "rows = [row1, row2]"
    by (auto simp: register_from_stage_def andthen_Inr_iff)
  from register_one_find(1) [OF one] have f: "find_prediction (prediction_key dg sd (st_id stage) e2) d1 = Some row1"
    by (simp add: key)
  from two f have "d' = d1 \<and> row2 = row1"
    by (auto simp: register_one_def Let_def andthen_Inr_iff split: if_splits)
  moreover from one have "length (t_predictions d1) \<le> Suc (length (t_predictions d))"
    by (rule register_oneE) auto
  ultimately show ?thesis using rows by simp
qed

theorem key_collisions_drop_witness:
  "\<exists>d row. sample_register 50 [sample_entry None ''buy'', sample_entry (Some 0) ''sell''] sample_db =
     Inr (d, [row, row])"
proof -
  have "case sample_register 50 [sample_entry None ''buy'', sample_entry (Some 0) ''sell''] sample_db of
        Inl _ \<Rightarrow> False | Inr (d, rows) \<Rightarrow> True" by code_simp
  then obtain d rows where
    r: "sample_register 50 [sample_entry None ''buy'', sample_entry (Some 0) ''sell''] sample_db = Inr (d, rows)"
    using ok2D by fast
  from key_collisions_drop [OF _ _ _ _ r] r show ?thesis by (auto simp: sample_entry_def)
qed

end
