(* ===== verification/Cross_Check.thy ===== *)
theory Cross_Check
  imports Schema
begin

text \<open>
  \<open>core/orchestrator/cross_check.py\<close>: whether an author's result must be cross-checked, and the
  readings of a stage result (a JSON object a model produced) it and the engine share.  A number of a
  JSON column is an exact rational; its text is read back by \<open>Decimal\<close> as the same number.
\<close>

section \<open>Reading a result\<close>

text \<open>
  \<open>for p in result.get(k, []) or []\<close>: a dict iterates over its keys, a string over its
  characters, a number raises.
\<close>

definition iterate :: "json \<Rightarrow> error + json list" where
  "iterate v = (case v of
     JArr xs \<Rightarrow> Inr xs
   | JObj kvs \<Rightarrow> Inr (map (JStr \<circ> fst) kvs)
   | JStr s \<Rightarrow> Inr (map (\<lambda>c. JStr [c]) s)
   | _ \<Rightarrow> if truthy v then Inl (TypeError ''object is not iterable'') else Inr [])"

text \<open>\<open>p.get(k)\<close>: only a dict has \<open>get\<close>.\<close>

definition getter :: "json \<Rightarrow> string \<Rightarrow> error + json" where
  "getter v k = (case v of JObj kvs \<Rightarrow> Inr (jget kvs k) | _ \<Rightarrow> Inl AttributeError)"

text \<open>The finite numerals \<open>Decimal\<close> accepts: sign, digits with an optional point, exponent.\<close>

definition digit_value :: "char \<Rightarrow> nat option" where
  "digit_value c = (let n = of_char c :: nat in if 48 \<le> n \<and> n \<le> 57 then Some (n - 48) else None)"

fun digits :: "string \<Rightarrow> nat \<Rightarrow> nat \<Rightarrow> nat \<times> nat \<times> string" where
  "digits [] acc n = (acc, n, [])"
| "digits (c # cs) acc n = (case digit_value c of
     None \<Rightarrow> (acc, n, c # cs)
   | Some v \<Rightarrow> digits cs (10 * acc + v) (Suc n))"

definition signed :: "string \<Rightarrow> rat \<times> string" where
  "signed s = (case s of
     [] \<Rightarrow> (1, [])
   | c # cs \<Rightarrow> if c = CHR ''-'' then (- 1, cs) else if c = CHR ''+'' then (1, cs) else (1, s))"

definition pow10 :: "rat \<Rightarrow> nat \<Rightarrow> rat" where
  "pow10 sg n = (if sg < 0 then 1 / 10 ^ n else 10 ^ n)"

definition exponent :: "string \<Rightarrow> rat option" where
  "exponent s = (case s of
     [] \<Rightarrow> Some 1
   | c # cs \<Rightarrow>
       if c = CHR ''e'' \<or> c = CHR ''E'' then
         (let (sg, t) = signed cs; (e, n, rest) = digits t 0 0
          in if n = 0 \<or> rest \<noteq> [] then None else Some (pow10 sg e))
       else None)"

definition parse_decimal :: "string \<Rightarrow> decimal option" where
  "parse_decimal s =
     (let (sg, t) = signed s; (a, n, rest) = digits t 0 0;
          (b, m, rest') = (case rest of
             [] \<Rightarrow> (a, 0, [])
           | c # cs \<Rightarrow> if c = CHR ''.'' then digits cs a 0 else (a, 0, rest))
      in if n + m = 0 then None
         else map_option (\<lambda>x. sg * of_nat b / 10 ^ m * x) (exponent rest'))"

text \<open>\<open>Decimal(str(v))\<close>; \<open>InvalidOperation\<close> is an \<open>ArithmeticError\<close>.\<close>

definition to_decimal :: "json \<Rightarrow> error + decimal" where
  "to_decimal v = (case v of
     JNum q \<Rightarrow> Inr q
   | JStr s \<Rightarrow> require (ValueError ''decimal.InvalidOperation'') (parse_decimal s)
   | _ \<Rightarrow> Inl (ValueError ''decimal.InvalidOperation''))"

section \<open>The rule\<close>

fun first_target_price :: "json list \<Rightarrow> error + decimal option" where
  "first_target_price [] = Inr None"
| "first_target_price (p # ps) =
     andthen (getter p ''kind'') (\<lambda>k.
     if k = JStr ''target_price'' then
       andthen (getter p ''value'') (\<lambda>v.
       if v \<noteq> JNull then andthen (to_decimal v) (\<lambda>q. Inr (Some q)) else first_target_price ps)
     else first_target_price ps)"

definition extract_target_price :: "json_obj \<Rightarrow> error + decimal option" where
  "extract_target_price result = andthen (iterate (jget result ''predictions'')) first_target_price"

fun first_stance :: "json list \<Rightarrow> error + json option" where
  "first_stance [] = Inr None"
| "first_stance (p # ps) =
     andthen (getter p ''kind'') (\<lambda>k.
     if k = JStr ''stance'' then
       andthen (getter p ''stance'') (\<lambda>v. if truthy v then Inr (Some v) else first_stance ps)
     else first_stance ps)"

definition extract_stance :: "json_obj \<Rightarrow> error + json" where
  "extract_stance result =
     andthen (iterate (jget result ''predictions'')) (\<lambda>ps.
     andthen (first_stance ps) (\<lambda>s.
     Inr (case s of Some v \<Rightarrow> v | None \<Rightarrow> jget result ''stance'')))"

definition moved_beyond :: "decimal \<Rightarrow> decimal option \<Rightarrow> decimal option \<Rightarrow> bool" where
  "moved_beyond pct new last_tp = (case (new, last_tp) of
     (Some n, Some l) \<Rightarrow> l \<noteq> 0 \<and> \<bar>n - l\<bar> / \<bar>l\<bar> * 100 > pct
   | _ \<Rightarrow> False)"

definition auto_cross_check ::
  "json_obj \<Rightarrow> decimal option \<Rightarrow> json \<Rightarrow> string option \<Rightarrow> decimal \<Rightarrow> bool \<Rightarrow> bool \<Rightarrow> error + bool" where
  "auto_cross_check result last_tp last_stance event_severity tp_change_pct stance_change thesis_tripwire =
     (if event_severity = Some ''thesis'' \<and> thesis_tripwire then Inr True
      else andthen (extract_target_price result) (\<lambda>new_tp.
        if moved_beyond tp_change_pct new_tp last_tp then Inr True
        else if stance_change then
          andthen (extract_stance result) (\<lambda>new_stance.
          Inr (truthy new_stance \<and> truthy last_stance \<and> new_stance \<noteq> last_stance))
        else Inr False))"

section \<open>Lemmas\<close>

text \<open>With no last stance and no severity only the target price counts, whatever the stance says.\<close>

lemma auto_cross_check_price_only:
  assumes "auto_cross_check result last_tp JNull None pct sc tw = Inr b"
  shows "\<exists>new. extract_target_price result = Inr new \<and> b = moved_beyond pct new last_tp"
  using assms by (auto simp: auto_cross_check_def andthen_Inr_iff split: if_splits)

lemmas parse_decimal_eval = parse_decimal_def signed_def digit_value_def exponent_def pow10_def

lemma parse_decimal_examples:
  "parse_decimal ''12.50'' = Some (25/2)" "parse_decimal ''-3e2'' = Some (- 300)"
  "parse_decimal '''' = None" "parse_decimal ''12x'' = None"
  by (simp_all add: parse_decimal_eval)

end
