(* ===== verification/Engine.thy ===== *)
theory Engine
  imports Coverage_Repo Predictions_Repo Config Cross_Check
begin

text \<open>
  \<open>core/orchestrator/engine.py\<close> and \<open>core/orchestrator/budgets.py\<close>: creating a run with its
  stages, promoting it, advancing it through its stage graph, and the orchestrator's tick.
  \<open>drain\<close> is the runner's method: it claims and completes stages in the database.  A stage that
  \<open>_maybe_append_cross_check\<close> adds is in the session but not flushed; unless the session
  autoflushes, the queries of the same advance do not see it (\<open>pending\<close>).
\<close>

section \<open>Creating a run\<close>

record engine_run_in =
  er_trigger :: string
  er_params :: json_obj
  er_requested_by :: "string option"
  er_trigger_ref :: "string option"
  er_meta_houses :: "string list"
  er_meta_house :: "string option"

definition default_engine_run_in :: engine_run_in where
  "default_engine_run_in = \<lparr>er_trigger = ''pm'', er_params = [], er_requested_by = None,
     er_trigger_ref = None, er_meta_houses = [], er_meta_house = None\<rparr>"

text \<open>A JSON number used as an integer; a value used as the key of a house.\<close>

definition json_int :: "json \<Rightarrow> error + int" where
  "json_int v = (case v of
     JNum q \<Rightarrow> if q = of_int \<lfloor>q\<rfloor> then Inr \<lfloor>q\<rfloor> else Inl (TypeError ''integer expected'')
   | _ \<Rightarrow> Inl (TypeError ''integer expected''))"

definition json_house :: "json \<Rightarrow> error + string option" where
  "json_house v = (case v of
     JStr s \<Rightarrow> Inr (Some s) | _ \<Rightarrow> Inl (TypeError ''house key expected''))"

definition get_default :: "json_obj \<Rightarrow> string \<Rightarrow> json \<Rightarrow> json" where
  "get_default kvs k v = (case map_of kvs k of None \<Rightarrow> v | Some x \<Rightarrow> x)"

definition run_lead :: "json_obj \<Rightarrow> coverage_row option \<Rightarrow> error + string option" where
  "run_lead params cov =
     (if truthy (jget params ''lead'') then json_house (jget params ''lead'')
      else Inr (case cov of None \<Rightarrow> None | Some c \<Rightarrow> cov_lead_house c))"

definition plan_for ::
  "fund_config \<Rightarrow> string \<Rightarrow> run_policy \<Rightarrow> json_obj \<Rightarrow> string option \<Rightarrow> string list \<Rightarrow> string list \<Rightarrow>
     error + stage_in list" where
  "plan_for fund ty pol params lead contributors meta_houses =
     (let base = (default_plan_args (rp_max_attempts pol))\<lparr>pa_lead := lead, pa_meta_houses := meta_houses\<rparr>;
          common = base\<lparr>pa_contributors := contributors\<rparr>
      in if ty = ''initiation'' then
           andthen (json_int (get_default params ''verify_count'' (JNum (of_int (rp_verify_count pol))))) (\<lambda>n.
           plan_stages ''initiation'' (common\<lparr>pa_verify_count := n,
             pa_include_data_checker := rp_include_data_checker pol\<rparr>))
         else if ty = ''deep_review'' then plan_stages ''deep_review'' common
         else if ty = ''event_analysis'' then plan_stages ''event_analysis'' base
         else if ty = ''monitor_tick'' then
           plan_stages ''monitor_tick'' ((default_plan_args (rp_max_attempts pol))
             \<lparr>pa_monitor_house := Some (mo_house (fu_monitor fund))\<rparr>)
         else if ty = ''pm_query'' then plan_stages ''pm_query'' base
         else if ty = ''lead_review'' \<or> ty = ''distillation'' then
           Inl (TypeError ''plan_stages() missing 1 required keyword-only argument: max_attempts'')
         else Inl (EngineError (''unknown run type '' @ repr_str ty)))"

definition create_run ::
  "time \<Rightarrow> fund_config \<Rightarrow> string \<Rightarrow> uuid option \<Rightarrow> engine_run_in \<Rightarrow> db \<Rightarrow> error + (db \<times> run_row)" where
  "create_run now fund ty coverage_id a d =
     andthen (policy fund ty) (\<lambda>pol.
     let cov = (case coverage_id of None \<Rightarrow> None | Some c \<Rightarrow> get_coverage c d) in
     andthen (run_lead (er_params a) cov) (\<lambda>lead.
     andthen (case cov of None \<Rightarrow> Inr [] | Some c \<Rightarrow> resolve_contributors (cov_id c) d) (\<lambda>contributors.
     andthen (plan_for fund ty pol (er_params a) lead contributors (er_meta_houses a)) (\<lambda>stages.
     andthen (json_int (get_default (er_params a) ''priority'' (JNum 100))) (\<lambda>prio.
     let run_params = (case lead of
           Some l \<Rightarrow> if l = [] then er_params a else jsetdefault ''lead_house'' (JStr l) (er_params a)
         | None \<Rightarrow> er_params a) in
     andthen (create_run_row now \<lparr>ri_coverage = coverage_id, ri_type = ty, ri_trigger = er_trigger a,
                ri_params = run_params, ri_priority = prio, ri_budget_cap = Some (rp_budget_cap_usd pol),
                ri_requested_by = er_requested_by a, ri_trigger_ref = er_trigger_ref a\<rparr> d) (\<lambda>(d1, run).
     andthen (add_stages now (run_id run) stages d1) (\<lambda>d2.
     Inr (d2, run))))))))"

section \<open>Promoting a run\<close>

definition promote_run :: "time \<Rightarrow> uuid \<Rightarrow> db \<Rightarrow> error + (db \<times> bool)" where
  "promote_run now i d =
     andthen (require AttributeError (get_run i d)) (\<lambda>run.
     if run_status run \<noteq> RS_Queued then Inr (d, False)
     else andthen (start_run now i d) (\<lambda>(d1, ok).
       if \<not> ok then Inr (d1, False)
       else case (case run_coverage run of None \<Rightarrow> None | Some c \<Rightarrow> get_coverage c d1) of
              None \<Rightarrow> Inr (d1, True)
            | Some cov \<Rightarrow>
                if run_type run = RT_Initiation \<and> cov_state cov = CS_Proposed then
                  andthen (transition_coverage now (cov_id cov) Act_Start_Initiation AT_Run (show_nat i)
                             (Some i) False None None d1) (\<lambda>d2.
                  Inr (d2, True))
                else Inr (d1, True)))"

section \<open>Registering predictions\<close>

text \<open>
  \<open>date.fromisoformat(str(v))\<close>, as the text of the date: the forms with and without hyphens (the
  week forms are not modelled and raise).
\<close>

definition leap_year :: "nat \<Rightarrow> bool" where
  "leap_year y \<longleftrightarrow> y mod 4 = 0 \<and> (y mod 100 \<noteq> 0 \<or> y mod 400 = 0)"

definition days_in_month :: "nat \<Rightarrow> nat \<Rightarrow> nat" where
  "days_in_month y m = (if m = 2 then (if leap_year y then 29 else 28)
     else if m \<in> {4, 6, 9, 11} then 30 else 31)"

definition valid_date :: "string \<Rightarrow> bool" where
  "valid_date s \<longleftrightarrow> length s = 10 \<and> s ! 4 = CHR ''-'' \<and> s ! 7 = CHR ''-'' \<and>
     (let num = (\<lambda>t. fst (digits t 0 0)); y = num (take 4 s); m = num (take 2 (drop 5 s));
          dd = num (drop 8 s)
      in list_all (\<lambda>c. digit_value c \<noteq> None) (take 4 s @ take 2 (drop 5 s) @ drop 8 s) \<and>
         1 \<le> y \<and> 1 \<le> m \<and> m \<le> 12 \<and> 1 \<le> dd \<and> dd \<le> days_in_month y m)"

definition iso_date :: "string \<Rightarrow> error + string" where
  "iso_date s =
     (let t = (if length s = 8 then take 4 s @ ''-'' @ take 2 (drop 4 s) @ ''-'' @ drop 6 s else s)
      in if valid_date t then Inr t else Inl (ValueError (''Invalid isoformat string: '' @ repr_str s)))"

definition to_date :: "json \<Rightarrow> error + string" where
  "to_date v = (case v of
     JStr s \<Rightarrow> iso_date s
   | JNum q \<Rightarrow> if q = of_int \<lfloor>q\<rfloor> \<and> 0 \<le> q then iso_date (show_nat (nat \<lfloor>q\<rfloor>))
              else Inl (ValueError ''Invalid isoformat string'')
   | _ \<Rightarrow> Inl (ValueError ''Invalid isoformat string''))"

text \<open>A value bound to a text column, and \<open>Decimal(str(v)) if v is not None else None\<close>.\<close>

definition opt_text :: "json \<Rightarrow> error + string option" where
  "opt_text v = (case v of
     JNull \<Rightarrow> Inr None | JStr s \<Rightarrow> Inr (Some s) | _ \<Rightarrow> Inl (TypeError ''text expected''))"

definition opt_decimal :: "json \<Rightarrow> error + decimal option" where
  "opt_decimal v = (if v = JNull then Inr None else andthen (to_decimal v) (\<lambda>q. Inr (Some q)))"

definition prediction_entry :: "json_obj \<Rightarrow> error + prediction_in" where
  "prediction_entry p =
     andthen (opt_text (jget p ''kind'')) (\<lambda>kind.
     andthen (case map_of p ''horizon_date'' of None \<Rightarrow> Inl (KeyError ''horizon_date'') | Some v \<Rightarrow> to_date v) (\<lambda>horizon.
     andthen (opt_decimal (jget p ''value'')) (\<lambda>value.
     andthen (opt_text (jget p ''currency'')) (\<lambda>currency.
     andthen (opt_text (jget p ''stance'')) (\<lambda>stance.
     andthen (opt_text (jget p ''scenario_label'')) (\<lambda>label.
     andthen (opt_decimal (jget p ''scenario_prob'')) (\<lambda>prob.
     andthen (opt_decimal (jget p ''confidence'')) (\<lambda>conf.
     andthen (opt_text (jget p ''direction'')) (\<lambda>direction.
     andthen (opt_decimal (jget p ''pinned_price'')) (\<lambda>pinned.
     Inr \<lparr>pn_kind = (case kind of None \<Rightarrow> [] | Some k \<Rightarrow> k), pn_horizon = horizon, pn_value = value,
          pn_currency = currency, pn_stance = stance, pn_scenario_label = label,
          pn_scenario_prob = prob, pn_scenario_group = None, pn_confidence = conf,
          pn_rationale_ref = None, pn_direction = direction, pn_pinned_price = pinned\<rparr>))))))))))"

fun prediction_entries :: "json list \<Rightarrow> error + prediction_in list" where
  "prediction_entries [] = Inr []"
| "prediction_entries (p # ps) =
     andthen (getter p ''kind'') (\<lambda>k.
     if \<not> truthy k then prediction_entries ps
     else andthen (case p of JObj kvs \<Rightarrow> prediction_entry kvs | _ \<Rightarrow> Inl AttributeError) (\<lambda>e.
       andthen (prediction_entries ps) (\<lambda>es. Inr (e # es))))"

text \<open>How a text is digested and a decimal written.\<close>

record text_functions =
  digest :: "string \<Rightarrow> string"
  show_dec :: "decimal \<Rightarrow> string"

definition stage_result :: "stage_row \<Rightarrow> json_obj" where
  "stage_result s = (case st_result s of None \<Rightarrow> [] | Some r \<Rightarrow> r)"

definition register_predictions :: "text_functions \<Rightarrow> time \<Rightarrow> stage_row \<Rightarrow> db \<Rightarrow> error + (db \<times> bool)" where
  "register_predictions tf now stage d =
     andthen (iterate (jget (stage_result stage) ''predictions'')) (\<lambda>ps.
     andthen (prediction_entries ps) (\<lambda>entries.
     if entries = [] then Inr (d, False)
     else andthen (register_from_stage (digest tf) (show_dec tf) now (st_id stage) entries d) (\<lambda>(d1, _).
       Inr (d1, True))))"

section \<open>The cross-check stage\<close>

definition last_target_price :: "uuid option \<Rightarrow> db \<Rightarrow> decimal option" where
  "last_target_price c d =
     (case first_min (\<lambda>p. - pr_created_at p)
             (filter (\<lambda>p. Some (pr_coverage p) = c \<and> pr_kind p = PK_Target_Price) (t_predictions d)) of
        None \<Rightarrow> None
      | Some p \<Rightarrow> pr_value p)"

definition run_stages :: "uuid \<Rightarrow> db \<Rightarrow> stage_row list" where
  "run_stages i d = filter (\<lambda>s. st_run s = i) (t_stages d)"

definition max_seq :: "uuid \<Rightarrow> db \<Rightarrow> int" where
  "max_seq i d = (case map st_seq (run_stages i d) of [] \<Rightarrow> 0 | x # xs \<Rightarrow> fold max xs x)"

definition cross_check_stage ::
  "fund_config \<Rightarrow> run_row \<Rightarrow> stage_row \<Rightarrow> db \<Rightarrow> error + stage_in" where
  "cross_check_stage fund run stage d =
     andthen (require AttributeError (run_coverage run)) (\<lambda>c.
     andthen (resolve_contributors c d) (\<lambda>contributors.
     andthen (policy fund (run_type_value (run_type run))) (\<lambda>pol.
     Inr \<lparr>si_seq = max_seq (run_id run) d + 1, si_role = ''cross_check'',
          si_house = Some (case contributors of [] \<Rightarrow> st_house stage | h # _ \<Rightarrow> h),
          si_substrate = ''harness'', si_max_attempts = rp_max_attempts pol,
          si_depends_on_seq = Some (st_seq stage)\<rparr>)))"

definition maybe_append_cross_check ::
  "fund_config \<Rightarrow> run_row \<Rightarrow> stage_row \<Rightarrow> decimal option \<Rightarrow> db \<Rightarrow> error + stage_in option" where
  "maybe_append_cross_check fund run stage last_tp d =
     (if run_type run \<noteq> RT_Event_Analysis \<or> st_role stage \<noteq> ''author'' then Inr None
      else
        let rule = fu_cross_check fund in
        andthen (auto_cross_check (stage_result stage) last_tp JNull None (cx_tp_change_pct rule)
                   (cx_stance_change rule) (cx_thesis_tripwire rule)) (\<lambda>material.
        if \<not> material then Inr None
        else if list_ex (\<lambda>s. st_role s = ''cross_check'') (run_stages (run_id run) d) then Inr None
        else andthen (cross_check_stage fund run stage d) (\<lambda>s. Inr (Some s))))"

section \<open>Budgets\<close>

definition run_over_budget :: "run_row \<Rightarrow> bool" where
  "run_over_budget run = (case run_budget_cap run of
     None \<Rightarrow> False | Some cap \<Rightarrow> cap \<noteq> 0 \<and> run_cost run > cap)"

definition pause_for_budget :: "text_functions \<Rightarrow> run_row \<Rightarrow> db \<Rightarrow> error + db" where
  "pause_for_budget tf run d =
     (let cost = show_dec tf (run_cost run);
          cap = (case run_budget_cap run of None \<Rightarrow> ''None'' | Some x \<Rightarrow> show_dec tf x)
      in andthen (open_gate (run_id run) ''budget_cap''
           (''Run has spent '' @ cost @ '' of cap '' @ cap @ ''; raise or cancel?'')
           [(''cost_usd'', JStr cost), (''cap_usd'', JStr cap)] [''raise_cap'', ''cancel''] d) (\<lambda>(d1, _).
         andthen (run_transition (run_status run) RA_Open_Gate \<lparr>ctx_attempts = 0, ctx_max_attempts = 1\<rparr>) (\<lambda>sm.
         Inr (upd_run (run_id run) (\<lambda>r. r\<lparr>run_status := rt_to sm\<rparr>) d1))))"

section \<open>Finishing a run\<close>

definition coverage_of_run :: "run_row \<Rightarrow> db \<Rightarrow> coverage_row option" where
  "coverage_of_run run d = (case run_coverage run of None \<Rightarrow> None | Some c \<Rightarrow> get_coverage c d)"

definition finalize_run :: "time \<Rightarrow> uuid \<Rightarrow> db \<Rightarrow> error + db" where
  "finalize_run now i d =
     andthen (require AttributeError (get_run i d)) (\<lambda>run.
     case (if run_type run = RT_Initiation then coverage_of_run run d else None) of
       Some cov \<Rightarrow>
         andthen (transition_coverage now (cov_id cov) Act_Initiation_Delivered AT_Run (show_nat i)
                    (Some i) False None None d) (\<lambda>d1.
         andthen (run_transition (run_status run) RA_Open_Gate \<lparr>ctx_attempts = 0, ctx_max_attempts = 1\<rparr>) (\<lambda>sm.
         Inr (upd_run i (\<lambda>r. r\<lparr>run_status := rt_to sm\<rparr>) d1)))
     | None \<Rightarrow> finish_run now i ''succeeded'' None None d)"

definition fail_run :: "time \<Rightarrow> uuid \<Rightarrow> string \<Rightarrow> db \<Rightarrow> error + db" where
  "fail_run now i err d =
     andthen (require AttributeError (get_run i d)) (\<lambda>run.
     andthen
       (case coverage_of_run run d of
          Some cov \<Rightarrow>
            if run_type run = RT_Initiation \<and> cov_state cov = CS_Initiating then
              transition_coverage now (cov_id cov) Act_Initiation_Failed AT_Run (show_nat i) (Some i)
                False None None d
            else Inr d
        | None \<Rightarrow> Inr d)
       (finish_run now i ''failed'' None (Some err)))"

section \<open>Advancing a run\<close>

definition STAGE_TERMINAL :: "stage_status list" where
  "STAGE_TERMINAL = [SS_Succeeded, SS_Failed, SS_Skipped]"

definition backoff_pending :: "time \<Rightarrow> stage_row \<Rightarrow> bool" where
  "backoff_pending now s \<longleftrightarrow> st_status s = SS_Queued \<and> st_available_at s > now"

text \<open>One succeeded stage; the state is the database and the stages added but not yet flushed.\<close>

definition process_stage ::
  "text_functions \<Rightarrow> bool \<Rightarrow> time \<Rightarrow> fund_config \<Rightarrow> run_row \<Rightarrow> stage_row \<Rightarrow> db \<times> stage_in list \<Rightarrow>
     error + (db \<times> stage_in list)" where
  "process_stage tf autoflush now fund run stage = (\<lambda>(d, pending).
     if st_status stage = SS_Succeeded \<and> stage_result stage \<noteq> [] then
       let ea_author = (run_type run = RT_Event_Analysis \<and> st_role stage = ''author'');
           last_tp = (if ea_author then last_target_price (run_coverage run) d else None)
       in andthen (register_predictions tf now stage d) (\<lambda>(d1, flushes).
          andthen (if flushes then add_stages now (run_id run) pending d1 else Inr d1) (\<lambda>d2.
          let left = (if flushes then [] else pending) in
          if ea_author then
            andthen (maybe_append_cross_check fund run stage last_tp d2) (\<lambda>extra.
            case extra of
              None \<Rightarrow> Inr (d2, left)
            | Some s \<Rightarrow> if autoflush then andthen (add_stages now (run_id run) [s] d2) (\<lambda>d3. Inr (d3, left))
                       else Inr (d2, left @ [s]))
          else Inr (d2, left)))
     else Inr (d, pending))"

definition first_error :: "stage_row list \<Rightarrow> string" where
  "first_error stages =
     (case find (\<lambda>e. e \<noteq> []) (map (\<lambda>s. case st_error s of None \<Rightarrow> [] | Some e \<Rightarrow> e) stages) of
        Some e \<Rightarrow> e | None \<Rightarrow> ''stage failed'')"

text \<open>What the advance does once the stages are processed; \<open>stages\<close> is what its query returns.\<close>

definition settle_run ::
  "text_functions \<Rightarrow> time \<Rightarrow> uuid \<Rightarrow> stage_row list \<Rightarrow> db \<Rightarrow> error + db" where
  "settle_run tf now i stages d =
     andthen (require AttributeError (get_run i d)) (\<lambda>run.
     if list_ex (\<lambda>s. st_status s = SS_Failed) stages then fail_run now i (first_error stages) d
     else if list_ex (backoff_pending now) stages then
       requeue_run i ''transient stage failure; backoff pending'' d
     else if run_over_budget run then pause_for_budget tf run d
     else if \<not> list_all (\<lambda>s. st_status s \<in> set STAGE_TERMINAL) stages then Inr d
     else finalize_run now i d)"

definition advance_run ::
  "text_functions \<Rightarrow> bool \<Rightarrow> time \<Rightarrow> (db \<Rightarrow> error + db) \<Rightarrow> fund_config \<Rightarrow> uuid \<Rightarrow> db \<Rightarrow> error + db" where
  "advance_run tf autoflush now drain fund i d =
     andthen (require AttributeError (get_run i d)) (\<lambda>run.
     if run_status run \<noteq> RS_Running then Inr d
     else andthen (drain d) (\<lambda>d1.
       andthen (fold_err (process_stage tf autoflush now fund run) (run_stages i d1) (d1, [])) (\<lambda>(d2, pending).
       andthen (add_stages now i pending d2) (\<lambda>d3.
       settle_run tf now i (run_stages i d2) d3))))"

definition tick ::
  "text_functions \<Rightarrow> bool \<Rightarrow> time \<Rightarrow> (db \<Rightarrow> error + db) \<Rightarrow> fund_config \<Rightarrow> db \<Rightarrow> error + db" where
  "tick tf autoflush now drain fund d =
     andthen (fold_err (\<lambda>i x. andthen (promote_run now i x) (\<lambda>(y, _). Inr y))
               (map run_id (filter (\<lambda>r. run_status r = RS_Queued) (t_runs d))) d) (\<lambda>d1.
     fold_err (advance_run tf autoflush now drain fund)
       (map run_id (filter (\<lambda>r. run_status r = RS_Running) (t_runs d1))) d1)"

end
