(* ===== verification/Repository.thy ===== *)
theory Repository
  imports Coverage_Properties Queue_Properties Predictions_Repo Events_Repo
begin

text \<open>
  The database as the rest of the program may change it: \<open>repo_op\<close> is one call of a repository or
  queue operation.  The orchestrator, the scheduler's jobs and the API are shown to be sequences of
  such calls, so what holds over all histories of \<open>repo_op\<close> holds for them whatever their order
  and interleaving.  \<open>aside\<close> is a step that touches none of the tables the invariants speak of
  (outbox, events, dossier index, audit, idempotency keys, job log).
\<close>

definition core_tables_same :: "db \<Rightarrow> db \<Rightarrow> bool" where
  "core_tables_same d d' \<longleftrightarrow> t_runs d' = t_runs d \<and> t_locks d' = t_locks d \<and> t_coverage d' = t_coverage d \<and>
     t_transitions d' = t_transitions d \<and> t_predictions d' = t_predictions d \<and> next_id d \<le> next_id d'"

inductive repo_op :: "db \<Rightarrow> db \<Rightarrow> bool" where
  run: "run_op d d' \<Longrightarrow> repo_op d d'"
| queue: "queue_step d d' \<Longrightarrow> repo_op d d'"
| propose: "propose_coverage now p d = Inr (d', c) \<Longrightarrow> repo_op d d'"
| transition: "transition_coverage now c a aty actor r frc notes rq d = Inr d' \<Longrightarrow> repo_op d d'"
| lead: "set_lead now c house actor r rationale d = Inr d' \<Longrightarrow> repo_op d d'"
| levels: "repo_op d (set_levels af now c ls by r d)"
| prediction: "pred_step dg sd d d' \<Longrightarrow> repo_op d d'"
| aside: "core_tables_same d d' \<Longrightarrow> repo_op d d'"

section \<open>Frames\<close>

lemma create_run_row_frame:
  "create_run_row now a d = Inr (d', r) \<Longrightarrow> t_locks d' = t_locks d \<and> t_coverage d' = t_coverage d \<and>
     t_transitions d' = t_transitions d \<and> t_predictions d' = t_predictions d \<and> next_id d \<le> next_id d' \<and>
     t_stages d' = t_stages d \<and> t_runs d' = t_runs d @ [r] \<and> run_id r = next_id d"
  by (auto simp: create_run_row_def new_id_def Let_def split: option.splits if_splits)

lemma add_stage_core: "add_stage now r s d = Inr d' \<Longrightarrow> core_tables_same d d'"
  by (auto simp: add_stage_def andthen_Inr_iff new_id_def core_tables_same_def)

lemma core_tables_same_refl: "core_tables_same d d"
  by (simp add: core_tables_same_def)

lemma core_tables_same_trans: "core_tables_same d e \<Longrightarrow> core_tables_same e f \<Longrightarrow> core_tables_same d f"
  by (simp add: core_tables_same_def)

lemma add_stages_core: "add_stages now r ss d = Inr d' \<Longrightarrow> core_tables_same d d'"
  unfolding add_stages_def
  by (erule fold_err_invariant [where I = "core_tables_same d"])
    (auto intro: core_tables_same_refl core_tables_same_trans add_stage_core)

lemma start_run_frame:
  assumes "start_run now i d = Inr (d', ok)"
  shows "t_coverage d' = t_coverage d \<and> t_transitions d' = t_transitions d \<and>
     t_predictions d' = t_predictions d \<and> next_id d' = next_id d \<and> t_stages d' = t_stages d \<and>
     t_gates d' = t_gates d \<and> t_houses d' = t_houses d"
  using assms by (cases rule: start_run_cases) (simp_all add: upd_run_def insert_lock_def)

lemma requeue_run_frame:
  assumes "requeue_run i reason d = Inr d'"
  shows "t_coverage d' = t_coverage d \<and> t_transitions d' = t_transitions d \<and>
     t_predictions d' = t_predictions d \<and> next_id d' = next_id d \<and> t_locks d' = t_locks d \<and>
     t_stages d' = t_stages d"
proof -
  from assms have "d' = upd_run i (\<lambda>r. r\<lparr>run_status := RS_Queued, run_error := Some reason\<rparr>) d"
    by (auto simp: requeue_run_def andthen_Inr_iff run_requeue_iff)
  then show ?thesis by (simp add: upd_run_def)
qed

lemma finish_run_frame:
  assumes "finish_run now i status summary err d = Inr d'"
  shows "t_coverage d' = t_coverage d \<and> t_transitions d' = t_transitions d \<and>
     t_predictions d' = t_predictions d \<and> next_id d \<le> next_id d' \<and> t_stages d' = t_stages d"
  using assms
  by (rule finish_runE) (simp add: finish_effect_def emit_def new_id_def upd_run_def release_lock_def)

lemma open_gate_full_frame:
  "open_gate i k p pl al d = Inr (d', g) \<Longrightarrow> core_tables_same d d'"
  by (cases "get_run i d") (auto simp: open_gate_def Let_def new_id_def core_tables_same_def)

lemma answer_gate_full_frame:
  assumes "answer_gate now i a x n k d = Inr (d', g)"
  shows "core_tables_same d d'"
proof -
  from assms have "d' = d \<or> d' = upd_gate i (mark_answered now a x n k) d"
    by (cases "get_gate i d") (simp_all add: answer_gate_def split: if_splits)
  then show ?thesis by (auto simp: upd_gate_def core_tables_same_def)
qed

definition quiet_tables :: "db \<Rightarrow> db \<Rightarrow> bool" where
  "quiet_tables d d' \<longleftrightarrow> t_coverage d' = t_coverage d \<and> t_transitions d' = t_transitions d \<and>
     t_predictions d' = t_predictions d \<and> next_id d \<le> next_id d'"

lemma run_op_quiet:
  assumes "run_op d d'"
  shows "quiet_tables d d'"
  using assms
proof cases
  case (stages now i ss)
  then show ?thesis by (auto dest: add_stages_core simp: core_tables_same_def quiet_tables_def)
next
  case (gate i k p pl al g)
  then show ?thesis by (auto dest: open_gate_full_frame simp: core_tables_same_def quiet_tables_def)
next
  case (answer now i a x n k g)
  then show ?thesis by (auto dest: answer_gate_full_frame simp: core_tables_same_def quiet_tables_def)
next
  case (wait i r ctx sm)
  then show ?thesis by (simp add: upd_run_def quiet_tables_def)
next
  case (bill af fl i)
  then show ?thesis by (auto simp: rollup_run_Inr upd_run_def quiet_tables_def)
qed (auto dest: create_run_row_frame start_run_frame requeue_run_frame finish_run_frame simp: quiet_tables_def)

section \<open>Queue steps\<close>

text \<open>A queue step changes stages and attempts, and at most the cost of one run.\<close>

definition queue_frame :: "db \<Rightarrow> db \<Rightarrow> bool" where
  "queue_frame d d' \<longleftrightarrow> quiet_tables d d' \<and> t_locks d' = t_locks d \<and> next_id d' = next_id d \<and>
     map (\<lambda>r. r\<lparr>run_cost := 0\<rparr>) (t_runs d') = map (\<lambda>r. r\<lparr>run_cost := 0\<rparr>) (t_runs d)"

lemma queue_frame_same_runs:
  "t_runs d' = t_runs d \<Longrightarrow> t_locks d' = t_locks d \<Longrightarrow> next_id d' = next_id d \<Longrightarrow> t_coverage d' = t_coverage d \<Longrightarrow>
     t_transitions d' = t_transitions d \<Longrightarrow> t_predictions d' = t_predictions d \<Longrightarrow> queue_frame d d'"
  by (simp add: queue_frame_def quiet_tables_def)

lemma queue_frame_trans: "queue_frame d e \<Longrightarrow> queue_frame e f \<Longrightarrow> queue_frame d f"
  by (simp add: queue_frame_def quiet_tables_def)

lemma rollup_frame: "rollup_run af fl i d = Inr d' \<Longrightarrow> queue_frame d d'"
  by (auto simp: rollup_run_Inr queue_frame_def quiet_tables_def upd_run_def map_upd_row_frame)

lemmas close_frame_simps = close_attempt_def upd_stage_def rollup_run_Inr upd_run_def queue_frame_def
  quiet_tables_def map_upd_row_frame

lemma fail_stage_frame:
  assumes "fail_stage af now jf i a retryable backoff d = Inr d'"
  shows "queue_frame d d'"
proof -
  from assms obtain s where s: "get_stage i d = Some s" by (rule fail_stageE)
  show ?thesis
  proof (cases "retryable \<and> st_attempts s < st_max_attempts s")
    case True
    with assms s show ?thesis by (auto simp: fail_stage_def andthen_Inr_iff Let_def close_frame_simps)
  next
    case False
    then have "(if retryable \<and> st_attempts s < st_max_attempts s then x else y) = y" for x y :: "error + db" by (rule if_not_P)
    with assms s show ?thesis by (simp add: fail_stage_def Let_def) (auto simp: close_frame_simps)
  qed
qed

lemma orderly_step_frame:
  assumes "orderly_step d d'"
  shows "queue_frame d d'"
  using assms
proof cases
  case (claim now locked w subs hs lease r)
  then show ?thesis
    by (auto simp: claim_stage_def Let_def upd_stage_def intro!: queue_frame_same_runs
        split: option.splits if_splits)
next
  case (beat i w now lease)
  then show ?thesis
    by (auto simp: heartbeat_def upd_stage_def intro!: queue_frame_same_runs split: option.splits)
next
  case (complete af now i a result)
  then show ?thesis by (auto simp: complete_stage_def andthen_Inr_iff Let_def close_frame_simps)
next
  case (fail i s af now jf a retryable backoff)
  then show ?thesis by (intro fail_stage_frame)
next
  case (reap now u jitters backoff)
  have "queue_frame d (fold (reap_one u jitters backoff) is d)" for "is"
  proof (induction "is" arbitrary: d)
    case Nil
    show ?case by (simp add: queue_frame_same_runs)
  next
    case (Cons i "is")
    have "queue_frame d (reap_one u jitters backoff i d)"
      by (simp add: reap_one_def upd_stage_def queue_frame_same_runs)
    then show ?case using Cons by (auto intro: queue_frame_trans)
  qed
  with reap show ?thesis by (simp add: reap_expired_def Let_def)
qed

lemma queue_step_frame: "queue_step d d' \<Longrightarrow> queue_frame d d'"
  by (cases rule: queue_step.cases) (auto intro: orderly_step_frame fail_stage_frame)

text \<open>The lock invariant does not read the cost.\<close>

lemma lock_inv_queue_frame:
  assumes inv: "lock_inv d" and fr: "queue_frame d d'"
  shows "lock_inv d'"
proof -
  let ?z = "\<lambda>r. r\<lparr>run_cost := 0\<rparr>"
  have runs: "map ?z (t_runs d') = map ?z (t_runs d)" and nx: "next_id d' = next_id d"
    and lk: "t_locks d' = t_locks d"
    using fr by (simp_all add: queue_frame_def)
  have "map run_id (map ?z rs) = map run_id rs" for rs :: "run_row list" by (simp add: o_def)
  with runs have ids: "map run_id (t_runs d') = map run_id (t_runs d)" by metis
  have h: "(\<exists>r \<in> set rs. run_id r = i \<and> holds_ticker r = Some c) \<longleftrightarrow>
      (i, Some c) \<in> set (map (\<lambda>r. (run_id r, holds_ticker r)) (map ?z rs))" for rs :: "run_row list" and i c
    by (auto simp: holds_ticker_def image_iff) 
  have "lock_owner c d' = Some (run_id r)" if "r \<in> set (t_runs d')" "holds_ticker r = Some c" for r c
  proof -
    from that have "\<exists>x \<in> set (t_runs d). run_id x = run_id r \<and> holds_ticker x = Some c"
      using h [of "t_runs d'" "run_id r" c] h [of "t_runs d" "run_id r" c] runs by auto
    with inv lk show ?thesis by (auto simp: lock_inv_def lock_owner_def)
  qed
  with inv nx lk ids show ?thesis by (simp add: lock_inv_def keys_ok_ids)
qed

text \<open>Coverage transitions.\<close>

lemma state_effect_predictions:
  "state_effect a c eff d = Inr d' \<Longrightarrow> t_predictions d' = t_predictions d"
  by (cases "ra_run a"; cases "open_gate_of (ra_run a) d"; cases "decision_answer (ra_action a)")
    (auto simp: state_effect_def Let_def new_id_def upd_gate_def upd_coverage_def split: if_splits option.splits)

lemma record_transition_frame:
  assumes "record_transition a c fs sm d = Inr d'"
  shows "t_runs d' = t_runs d \<and> t_locks d' = t_locks d \<and> next_id d \<le> next_id d' \<and>
    t_predictions d' = t_predictions d \<and> t_stages d' = t_stages d \<and> t_houses d' = t_houses d"
proof -
  have "t_predictions d' = t_predictions (trail_rows a c fs sm d)"
    using record_transition_Inr(1) [OF assms]
    by (rule fold_err_invariant [where I = "\<lambda>x. t_predictions x = t_predictions (trail_rows a c fs sm d)"])
      (simp_all add: state_effect_predictions)
  then have "t_predictions d' = t_predictions d" by (simp add: trail_rows_def)
  with record_transition_Inr(2) [OF assms] show ?thesis by (auto simp: effect_frame_def)
qed

lemma transition_coverage_frame:
  assumes "transition_coverage now c a aty actor r frc notes rq d = Inr d'"
  shows "t_runs d' = t_runs d \<and> t_locks d' = t_locks d \<and> next_id d \<le> next_id d' \<and>
    t_predictions d' = t_predictions d \<and> t_stages d' = t_stages d \<and> t_houses d' = t_houses d"
  using assms
  by (rule transition_coverageE) (auto dest!: record_transition_frame simp: upd_coverage_def)

lemma set_lead_frame:
  assumes "set_lead now c house actor r rationale d = Inr d'"
  shows "t_runs d' = t_runs d \<and> t_locks d' = t_locks d \<and> next_id d \<le> next_id d' \<and>
    t_predictions d' = t_predictions d"
  using assms by (rule set_leadE) (auto dest!: record_transition_frame simp: upd_coverage_def)

lemma propose_frame:
  assumes "propose_coverage now p d = Inr (d', c)"
  shows "t_runs d' = t_runs d \<and> t_locks d' = t_locks d \<and> next_id d \<le> next_id d' \<and>
    t_predictions d' = t_predictions d"
  using assms by (rule propose_coverageE) (auto dest!: record_transition_frame simp: new_id_def)

text \<open>Ledger steps touch predictions only.\<close>

definition ledger_frame :: "db \<Rightarrow> db \<Rightarrow> bool" where
  "ledger_frame d d' \<longleftrightarrow> t_runs d' = t_runs d \<and> t_locks d' = t_locks d \<and> t_coverage d' = t_coverage d \<and>
     t_transitions d' = t_transitions d \<and> t_stages d' = t_stages d \<and> next_id d \<le> next_id d'"

lemma register_one_frame:
  assumes "register_one dg sd now run stage e d = Inr (d', row)"
  shows "ledger_frame d d'"
  using assms by (rule register_oneE) (auto simp: new_id_def ledger_frame_def)

lemma register_all_frame:
  "register_all dg sd now run stage es d = Inr (d', rows) \<Longrightarrow> ledger_frame d d'"
proof (induction es arbitrary: d rows)
  case (Cons e es)
  then obtain d1 row rest where one: "register_one dg sd now run stage e d = Inr (d1, row)"
    and all: "register_all dg sd now run stage es d1 = Inr (d', rest)"
    by (auto simp: andthen_Inr_iff)
  from register_one_frame [OF one] Cons.IH [OF all] show ?case by (simp add: ledger_frame_def)
qed (simp add: ledger_frame_def)

lemma upd_prediction_frame: "ledger_frame d (upd_prediction i f d)"
  by (simp add: upd_prediction_def ledger_frame_def)

lemma pred_step_frame:
  assumes "pred_step dg sd d d'"
  shows "ledger_frame d d'"
  using assms
proof cases
  case (register now i es rows)
  then show ?thesis by (auto simp: register_from_stage_def andthen_Inr_iff dest: register_all_frame)
next
  case (update i kwargs)
  then show ?thesis
    by (auto simp: update_prediction_def andthen_Inr_iff Let_def upd_prediction_frame split: if_splits)
next
  case (supersede i by_id r)
  then show ?thesis by (auto simp: supersede_def andthen_Inr_iff upd_prediction_frame)
next
  case (score now i status a)
  then show ?thesis by (auto simp: score_def andthen_Inr_iff upd_prediction_frame)
qed

section \<open>The invariants over all histories\<close>

lemma repo_op_lock_inv:
  assumes "repo_op d d'" and inv: "lock_inv d"
  shows "lock_inv d'"
  using assms(1)
proof cases
  case run
  with inv show ?thesis by (blast intro: run_op_lock_inv)
next
  case queue
  with inv show ?thesis by (blast intro: lock_inv_queue_frame queue_step_frame)
next
  case (propose now p c)
  with inv show ?thesis by (blast intro: lock_inv_cong dest: propose_frame)
next
  case (transition now c a aty actor r frc nts rq)
  with inv show ?thesis by (blast intro: lock_inv_cong dest: transition_coverage_frame)
next
  case (lead now c house actor r rationale)
  with inv show ?thesis by (blast intro: lock_inv_cong dest: set_lead_frame)
next
  case (levels af now c ls sb r)
  with inv show ?thesis by (intro lock_inv_cong [OF inv]) (simp_all add: set_levels_def)
next
  case (prediction dg sd)
  then have "ledger_frame d d'" by (rule pred_step_frame)
  with inv show ?thesis by (intro lock_inv_cong [OF inv]) (simp_all add: ledger_frame_def)
next
  case aside
  with inv show ?thesis by (intro lock_inv_cong [OF inv]) (simp_all add: core_tables_same_def)
qed

lemma repo_op_coverage_inv:
  assumes "repo_op d d'" and inv: "coverage_inv d"
  shows "coverage_inv d'"
  using assms(1)
proof cases
  case run
  then have "quiet_tables d d'" by (rule run_op_quiet)
  then show ?thesis by (intro coverage_inv_other [OF inv]) (simp_all add: quiet_tables_def)
next
  case queue
  then have "queue_frame d d'" by (rule queue_step_frame)
  then show ?thesis by (intro coverage_inv_other [OF inv]) (simp_all add: queue_frame_def quiet_tables_def)
next
  case (levels af now c ls sb r)
  then show ?thesis by (intro coverage_inv_other [OF inv]) (simp_all add: set_levels_def)
next
  case (prediction dg sd)
  then have "ledger_frame d d'" by (rule pred_step_frame)
  then show ?thesis by (intro coverage_inv_other [OF inv]) (simp_all add: ledger_frame_def)
next
  case aside
  then show ?thesis by (intro coverage_inv_other [OF inv]) (simp_all add: core_tables_same_def)
qed (use inv in \<open>blast intro: propose_coverage_inv transition_coverage_inv set_lead_inv\<close>)+

lemma repo_op_ledger:
  assumes "repo_op d d'"
  shows "ledger_extends d d'"
  using assms
proof cases
  case run
  then have "quiet_tables d d'" by (rule run_op_quiet)
  then show ?thesis by (simp add: quiet_tables_def ledger_extends_def)
next
  case queue
  then have "queue_frame d d'" by (rule queue_step_frame)
  then show ?thesis by (simp add: queue_frame_def quiet_tables_def ledger_extends_def)
next
  case (propose now p c)
  then show ?thesis by (auto dest: propose_frame simp: ledger_extends_def)
next
  case (transition now c a aty actor r frc nts rq)
  then show ?thesis by (auto dest: transition_coverage_frame simp: ledger_extends_def)
next
  case (lead now c house actor r rationale)
  then show ?thesis by (auto dest: set_lead_frame simp: ledger_extends_def)
next
  case (levels af now c ls sb r)
  then show ?thesis by (simp add: set_levels_def ledger_extends_def)
next
  case (prediction dg sd)
  then show ?thesis by (rule pred_step_ledger)
next
  case aside
  then show ?thesis by (simp add: core_tables_same_def ledger_extends_def)
qed

definition desk_inv :: "db \<Rightarrow> bool" where
  "desk_inv d \<longleftrightarrow> lock_inv d \<and> coverage_inv d"

lemma repo_ops_inv: "repo_op\<^sup>*\<^sup>* d d' \<Longrightarrow> desk_inv d \<Longrightarrow> desk_inv d'"
  by (induction rule: rtranclp_induct)
    (auto simp: desk_inv_def intro: repo_op_lock_inv repo_op_coverage_inv)

lemma repo_ops_ledger: "repo_op\<^sup>*\<^sup>* d d' \<Longrightarrow> ledger_extends d d'"
  by (induction rule: rtranclp_induct) (auto intro: ledger_extends_refl ledger_extends_trans repo_op_ledger)

lemma empty_desk_inv: "desk_inv (empty_db\<lparr>t_houses := hs\<rparr>)"
  by (simp add: desk_inv_def empty_coverage_inv lock_inv_def) (simp add: empty_db_def keys_ok_def fresh_in_def)

text \<open>A loop whose every turn is a history is a history.\<close>

lemma repo_ops_fold:
  assumes "fold_err f xs d = Inr d'" and "\<And>x d d'. f x d = Inr d' \<Longrightarrow> repo_op\<^sup>*\<^sup>* d d'"
  shows "repo_op\<^sup>*\<^sup>* d d'"
  using assms(1)
  by (rule fold_err_invariant [where I = "repo_op\<^sup>*\<^sup>* d"]) (auto intro: rtranclp_trans assms(2))

end
