(* ===== verification/Engine_Correct.thy ===== *)
theory Engine_Correct
  imports Engine Repository
begin

text \<open>
  The orchestrator is a sequence of repository calls: each engine operation refines
  \<open>repo_op\<^sup>*\<^sup>*\<close>, so the lock, the audit trail and the ledger are safe under every tick whatever the
  runner does through the queue.
\<close>

section \<open>Refinement of the repository interface\<close>

lemma create_run_ops:
  assumes "create_run now fund ty c a d = Inr (d', run)"
  shows "repo_op\<^sup>*\<^sup>* d d'"
proof -
  from assms obtain ri ss d1 where "create_run_row now ri d = Inr (d1, run)"
    and "add_stages now (run_id run) ss d1 = Inr d'"
    by (auto simp: create_run_def andthen_Inr_iff Let_def)
  then have "repo_op d d1" "repo_op d1 d'"
    by (auto intro: repo_op.run run_op.create run_op.stages)
  then show ?thesis by simp
qed

lemma promote_runE:
  assumes "promote_run now i d = Inr (d', ok)"
  obtains (idle) run where "get_run i d = Some run" "run_status run \<noteq> RS_Queued" "d' = d" "\<not> ok"
  | (lost) run where "get_run i d = Some run" "run_status run = RS_Queued"
      "start_run now i d = Inr (d', False)" "\<not> ok"
  | (plain) run where "get_run i d = Some run" "run_status run = RS_Queued"
      "start_run now i d = Inr (d', True)" "ok"
      "\<forall>cov. coverage_of_run run d' = Some cov \<longrightarrow> \<not> (run_type run = RT_Initiation \<and> cov_state cov = CS_Proposed)"
  | (initiation) run d1 cov where "get_run i d = Some run" "run_status run = RS_Queued"
      "start_run now i d = Inr (d1, True)" "ok" "run_type run = RT_Initiation"
      "coverage_of_run run d1 = Some cov" "cov_state cov = CS_Proposed"
      "transition_coverage now (cov_id cov) Act_Start_Initiation AT_Run (show_nat i) (Some i) False None None d1 = Inr d'"
proof -
  from assms obtain run where run: "get_run i d = Some run" by (auto simp: promote_run_def andthen_Inr_iff)
  show thesis
  proof (cases "run_status run = RS_Queued")
    case False
    with assms run show thesis by (intro idle) (auto simp: promote_run_def)
  next
    case True
    with assms run obtain d1 ok1 where st: "start_run now i d = Inr (d1, ok1)"
      by (auto simp: promote_run_def andthen_Inr_iff)
    show thesis
    proof (cases ok1)
      case False
      with assms run True st show thesis by (intro lost) (auto simp: promote_run_def)
    next
      case ok1: True
      show thesis
      proof (cases "\<exists>cov. coverage_of_run run d1 = Some cov \<and> run_type run = RT_Initiation \<and> cov_state cov = CS_Proposed")
        case True
        then obtain cov where cov: "coverage_of_run run d1 = Some cov" "run_type run = RT_Initiation"
          "cov_state cov = CS_Proposed" by blast
        with assms run \<open>run_status run = RS_Queued\<close> st ok1 show thesis
          by (intro initiation [of run d1 cov]) (auto simp: promote_run_def coverage_of_run_def andthen_Inr_iff)
      next
        case none: False
        have "d' = d1 \<and> ok"
          using assms run \<open>run_status run = RS_Queued\<close> st ok1 none
          by (cases "coverage_of_run run d1") (auto simp: promote_run_def coverage_of_run_def split: if_splits)
        with run \<open>run_status run = RS_Queued\<close> st ok1 none show thesis by (intro plain) auto
      qed
    qed
  qed
qed

lemma promote_run_ops:
  assumes "promote_run now i d = Inr (d', ok)"
  shows "repo_op\<^sup>*\<^sup>* d d'"
  using assms
proof (cases rule: promote_runE)
  case (initiation run d1 cov)
  then have "repo_op d d1" "repo_op d1 d'"
    by (auto intro: repo_op.run run_op.start repo_op.transition)
  then show ?thesis by simp
qed (auto intro: repo_op.run run_op.start)

lemma register_predictions_ops:
  assumes "register_predictions tf now stage d = Inr (d', fl)"
  shows "repo_op\<^sup>*\<^sup>* d d'"
proof -
  from assms have "d' = d \<or> (\<exists>es rows. register_from_stage (digest tf) (show_dec tf) now (st_id stage) es d = Inr (d', rows))"
    by (auto simp: register_predictions_def andthen_Inr_iff split: if_splits)
  then show ?thesis by (auto intro: repo_op.prediction pred_step.register)
qed

lemma add_stages_ops: "add_stages now i ss d = Inr d' \<Longrightarrow> repo_op\<^sup>*\<^sup>* d d'"
  by (auto intro: repo_op.run run_op.stages)

lemma process_stage_ops:
  assumes "process_stage tf af now fund run stage (d, p) = Inr (d', p')"
  shows "repo_op\<^sup>*\<^sup>* d d'"
proof (cases "st_status stage = SS_Succeeded \<and> stage_result stage \<noteq> []")
  case True
  with assms obtain d1 fl d2 where reg: "register_predictions tf now stage d = Inr (d1, fl)"
    and flush: "(if fl then add_stages now (run_id run) p d1 else Inr d1) = Inr d2"
    and rest: "d' = d2 \<or> (\<exists>s. add_stages now (run_id run) [s] d2 = Inr d')"
    by (auto simp: process_stage_def Let_def andthen_Inr_iff split: if_splits option.splits)
  have "repo_op\<^sup>*\<^sup>* d d1" using reg by (rule register_predictions_ops)
  moreover have "repo_op\<^sup>*\<^sup>* d1 d2" using flush by (auto intro: add_stages_ops split: if_splits)
  moreover have "repo_op\<^sup>*\<^sup>* d2 d'" using rest by (auto intro: add_stages_ops)
  ultimately show ?thesis by (meson rtranclp_trans)
next
  case False
  with assms show ?thesis by (auto simp: process_stage_def split: if_splits)
qed

lemma wait_op:
  assumes "get_run i d = Some run" and "run_transition (run_status run) RA_Open_Gate ctx = Inr sm"
  shows "repo_op d (upd_run i (\<lambda>r. r\<lparr>run_status := rt_to sm\<rparr>) d)"
  using assms by (intro repo_op.run run_op.wait)

lemma pause_ops:
  assumes "pause_for_budget tf run d = Inr d'" and "get_run (run_id run) d = Some run"
  shows "repo_op\<^sup>*\<^sup>* d d'"
proof -
  from assms(1) obtain k p pl al d1 g sm where gate: "open_gate (run_id run) k p pl al d = Inr (d1, g)"
    and sm: "run_transition (run_status run) RA_Open_Gate \<lparr>ctx_attempts = 0, ctx_max_attempts = 1\<rparr> = Inr sm"
    and d': "d' = upd_run (run_id run) (\<lambda>r. r\<lparr>run_status := rt_to sm\<rparr>) d1"
    by (auto simp: pause_for_budget_def Let_def andthen_Inr_iff)
  have "get_run (run_id run) d1 = Some run"
    using open_gate_frame [OF gate] assms(2) by (simp add: get_run_def)
  then have "repo_op d1 d'" unfolding d' using sm by (rule wait_op)
  moreover have "repo_op d d1" using gate by (intro repo_op.run run_op.gate)
  ultimately show ?thesis by simp
qed

lemma finalize_runE:
  assumes "finalize_run now i d = Inr d'"
  obtains (initiation) run cov d1 where "get_run i d = Some run" "run_type run = RT_Initiation"
      "coverage_of_run run d = Some cov"
      "transition_coverage now (cov_id cov) Act_Initiation_Delivered AT_Run (show_nat i) (Some i) False None None d = Inr d1"
      "run_status run = RS_Running" "get_run i d1 = Some run"
      "d' = upd_run i (\<lambda>r. r\<lparr>run_status := RS_Waiting_PM\<rparr>) d1"
  | (plain) run where "get_run i d = Some run" "run_type run \<noteq> RT_Initiation \<or> coverage_of_run run d = None"
      "finish_run now i ''succeeded'' None None d = Inr d'"
proof -
  from assms obtain run where run: "get_run i d = Some run" by (auto simp: finalize_run_def andthen_Inr_iff)
  show thesis
  proof (cases "if run_type run = RT_Initiation then coverage_of_run run d else None")
    case None
    with assms run show thesis by (intro plain) (auto simp: finalize_run_def split: if_splits)
  next
    case (Some cov)
    with assms run obtain d1 sm where
      t: "transition_coverage now (cov_id cov) Act_Initiation_Delivered AT_Run (show_nat i) (Some i) False None None d = Inr d1"
      and sm: "run_transition (run_status run) RA_Open_Gate \<lparr>ctx_attempts = 0, ctx_max_attempts = 1\<rparr> = Inr sm"
      and d': "d' = upd_run i (\<lambda>r. r\<lparr>run_status := rt_to sm\<rparr>) d1"
      by (auto simp: finalize_run_def andthen_Inr_iff)
    from sm have "run_status run = RS_Running" "rt_to sm = RS_Waiting_PM" by (auto simp: run_open_gate_iff)
    moreover have "get_run i d1 = Some run" using transition_coverage_frame [OF t] run by (simp add: get_run_def)
    moreover have "run_type run = RT_Initiation \<and> coverage_of_run run d = Some cov"
      using Some by (auto split: if_splits)
    ultimately show thesis using run t d' by (intro initiation) auto
  qed
qed

lemma finalize_ops:
  assumes "finalize_run now i d = Inr d'"
  shows "repo_op\<^sup>*\<^sup>* d d'"
  using assms
proof (cases rule: finalize_runE)
  case (initiation run cov d1)
  from initiation have "repo_op d d1" by (intro repo_op.transition)
  moreover have "run_op d1 d'"
    unfolding initiation(7) using run_op.wait [of i d1 run default_attempt_ctx] initiation
    by (simp add: run_open_gate_iff)
  ultimately show ?thesis by (meson repo_op.run converse_rtranclp_into_rtranclp r_into_rtranclp)
next
  case (plain run)
  then show ?thesis by (auto intro: repo_op.run run_op.finish)
qed

lemma fail_runE:
  assumes "fail_run now i err d = Inr d'"
  obtains run d1 where "get_run i d = Some run"
    "d1 = d \<or> (\<exists>c. transition_coverage now c Act_Initiation_Failed AT_Run (show_nat i) (Some i) False None None d = Inr d1)"
    "finish_run now i ''failed'' None (Some err) d1 = Inr d'"
    "get_run i d1 = Some run"
proof -
  from assms obtain run where run: "get_run i d = Some run" by (auto simp: fail_run_def andthen_Inr_iff)
  with assms obtain d1 where d1: "d1 = d \<or> (\<exists>c. transition_coverage now c Act_Initiation_Failed AT_Run (show_nat i) (Some i) False None None d = Inr d1)"
    and fin: "finish_run now i ''failed'' None (Some err) d1 = Inr d'"
    by (cases "coverage_of_run run d") (auto simp: fail_run_def andthen_Inr_iff split: if_splits)
  have "get_run i d1 = Some run" using d1 run by (auto dest: transition_coverage_frame simp: get_run_def)
  with run d1 fin show thesis by (rule that)
qed

lemma fail_ops:
  assumes "fail_run now i err d = Inr d'"
  shows "repo_op\<^sup>*\<^sup>* d d'"
  using assms
proof (rule fail_runE)
  fix run d1
  assume d1: "d1 = d \<or> (\<exists>c. transition_coverage now c Act_Initiation_Failed AT_Run (show_nat i) (Some i) False None None d = Inr d1)"
    and "finish_run now i ''failed'' None (Some err) d1 = Inr d'"
  then have "repo_op d1 d'" by (intro repo_op.run run_op.finish)
  moreover from d1 have "repo_op\<^sup>*\<^sup>* d d1" by (auto intro: repo_op.transition)
  ultimately show ?thesis by simp
qed

lemma settle_runE:
  assumes "settle_run tf now i stages d = Inr d'"
  obtains (failed) run where "get_run i d = Some run" "list_ex (\<lambda>s. st_status s = SS_Failed) stages"
      "fail_run now i (first_error stages) d = Inr d'"
  | (backoff) run where "get_run i d = Some run" "\<not> list_ex (\<lambda>s. st_status s = SS_Failed) stages"
      "list_ex (backoff_pending now) stages"
      "requeue_run i ''transient stage failure; backoff pending'' d = Inr d'"
  | (budget) run where "get_run i d = Some run" "\<not> list_ex (\<lambda>s. st_status s = SS_Failed) stages"
      "\<not> list_ex (backoff_pending now) stages" "run_over_budget run" "pause_for_budget tf run d = Inr d'"
  | (open_work) run where "get_run i d = Some run" "\<not> list_ex (\<lambda>s. st_status s = SS_Failed) stages"
      "\<not> list_ex (backoff_pending now) stages" "\<not> run_over_budget run"
      "\<not> list_all (\<lambda>s. st_status s \<in> set STAGE_TERMINAL) stages" "d' = d"
  | (finished) run where "get_run i d = Some run" "\<not> list_ex (\<lambda>s. st_status s = SS_Failed) stages"
      "\<not> list_ex (backoff_pending now) stages" "\<not> run_over_budget run"
      "list_all (\<lambda>s. st_status s \<in> set STAGE_TERMINAL) stages" "finalize_run now i d = Inr d'"
proof -
  from assms obtain run where run: "get_run i d = Some run"
    by (cases "get_run i d") (simp_all add: settle_run_def)
  let ?f = "list_ex (\<lambda>s. st_status s = SS_Failed) stages"
  let ?b = "list_ex (backoff_pending now) stages"
  let ?a = "list_all (\<lambda>s. st_status s \<in> set STAGE_TERMINAL) stages"
  have eq: "(if ?f then fail_run now i (first_error stages) d
     else if ?b then requeue_run i ''transient stage failure; backoff pending'' d
     else if run_over_budget run then pause_for_budget tf run d
     else if \<not> ?a then Inr d else finalize_run now i d) = Inr d'"
    using assms run by (simp add: settle_run_def)
  show thesis
  proof (cases ?f)
    case True
    with eq have "fail_run now i (first_error stages) d = Inr d'" by (simp only: if_True)
    with run True show thesis by (rule failed)
  next
    case f: False
    show thesis
    proof (cases ?b)
      case True
      with eq f have "requeue_run i ''transient stage failure; backoff pending'' d = Inr d'" by (simp only: if_True if_False)
      with run f True show thesis by (rule backoff)
    next
      case b: False
      show thesis
      proof (cases "run_over_budget run")
        case True
        with eq f b have "pause_for_budget tf run d = Inr d'" by (simp only: if_True if_False)
        with run f b True show thesis by (rule budget)
      next
        case o: False
        show thesis
        proof (cases ?a)
          case True
          with eq f b o have "finalize_run now i d = Inr d'" by (simp only: if_False not_True_eq_False)
          with run f b o True show thesis by (rule finished)
        next
          case False
          with eq f b o have "d' = d" by (simp only: if_True if_False not_False_eq_True sum.inject)
          with run f b o False show thesis by (rule open_work)
        qed
      qed
    qed
  qed
qed

lemma settle_ops:
  assumes "settle_run tf now i stages d = Inr d'"
  shows "repo_op\<^sup>*\<^sup>* d d'"
  using assms
proof (cases rule: settle_runE)
  case (failed run)
  then show ?thesis by (intro fail_ops)
next
  case (backoff run)
  then have "repo_op d d'" by (intro repo_op.run run_op.requeue)
  then show ?thesis by simp
next
  case (budget run)
  from budget(1) have "run_id run = i" by (simp add: run_tab.fetch_SomeD)
  with budget(1) show ?thesis by (intro pause_ops [OF budget(5)]) simp
next
  case (open_work run)
  then show ?thesis by simp
next
  case (finished run)
  then show ?thesis by (intro finalize_ops)
qed

text \<open>The runner enters as any function that works through the repositories.\<close>

lemma advance_ops:
  assumes drain: "\<And>x y. drain x = Inr y \<Longrightarrow> repo_op\<^sup>*\<^sup>* x y"
    and "advance_run tf af now drain fund i d = Inr d'"
  shows "repo_op\<^sup>*\<^sup>* d d'"
proof -
  from assms(2) obtain run where run: "get_run i d = Some run" by (auto simp: advance_run_def andthen_Inr_iff)
  show ?thesis
  proof (cases "run_status run = RS_Running")
    case True
    with assms(2) run obtain d1 d2 p d3 where dr: "drain d = Inr d1"
      and fold: "fold_err (process_stage tf af now fund run) (run_stages i d1) (d1, []) = Inr (d2, p)"
      and add: "add_stages now i p d2 = Inr d3" and settle: "settle_run tf now i (run_stages i d2) d3 = Inr d'"
      by (auto simp: advance_run_def andthen_Inr_iff)
    have "repo_op\<^sup>*\<^sup>* d1 (fst (d2, p))"
      using fold
    proof (rule fold_err_invariant [where I = "\<lambda>s. repo_op\<^sup>*\<^sup>* d1 (fst s)"])
      fix s x y assume I: "repo_op\<^sup>*\<^sup>* d1 (fst x)" and p: "process_stage tf af now fund run s x = Inr y"
      have "process_stage tf af now fund run s (fst x, snd x) = Inr (fst y, snd y)" using p by simp
      then show "repo_op\<^sup>*\<^sup>* d1 (fst y)" using I process_stage_ops rtranclp_trans by metis
    qed simp
    with drain [OF dr] add_stages_ops [OF add] settle_ops [OF settle] show ?thesis
      by (metis fst_conv rtranclp_trans)
  next
    case False
    with assms(2) run show ?thesis by (simp add: advance_run_def)
  qed
qed

lemma tick_ops:
  assumes drain: "\<And>x y. drain x = Inr y \<Longrightarrow> repo_op\<^sup>*\<^sup>* x y"
    and "tick tf af now drain fund d = Inr d'"
  shows "repo_op\<^sup>*\<^sup>* d d'"
proof -
  from assms(2) obtain d1 is1 is2 where
    p: "fold_err (\<lambda>i x. andthen (promote_run now i x) (\<lambda>(y, _). Inr y)) is1 d = Inr d1"
    and a: "fold_err (advance_run tf af now drain fund) is2 d1 = Inr d'"
    by (auto simp: tick_def andthen_Inr_iff)
  have "repo_op\<^sup>*\<^sup>* d d1"
    using p by (rule repo_ops_fold) (auto simp: andthen_Inr_iff dest: promote_run_ops)
  moreover have "repo_op\<^sup>*\<^sup>* d1 d'" using a by (rule repo_ops_fold) (rule advance_ops [OF drain])
  ultimately show ?thesis by (rule rtranclp_trans)
qed

section \<open>Where an advance leaves a run\<close>

text \<open>The status of a run after its stages are processed.\<close>

definition settled_status :: "time \<Rightarrow> stage_row list \<Rightarrow> run_row \<Rightarrow> bool \<Rightarrow> run_status" where
  "settled_status now stages run has_coverage =
     (if list_ex (\<lambda>s. st_status s = SS_Failed) stages then RS_Failed
      else if list_ex (backoff_pending now) stages then RS_Queued
      else if run_over_budget run then RS_Waiting_PM
      else if \<not> list_all (\<lambda>s. st_status s \<in> set STAGE_TERMINAL) stages then RS_Running
      else if run_type run = RT_Initiation \<and> has_coverage then RS_Waiting_PM
      else RS_Succeeded)"

lemma get_run_finish:
  assumes "finish_run now i status summary err d = Inr d'" and "get_run i d = Some r"
  shows "\<exists>r'. get_run i d' = Some r' \<and> run_status_value (run_status r') = status \<and>
     run_type r' = run_type r \<and> run_coverage r' = run_coverage r"
  using assms(1)
proof (rule finish_runE)
  fix r0 st assume r0: "get_run i d = Some r0" and v: "run_status_value st = status"
    and d': "d' = finish_effect now i status r0 ''outbox:run.finished''
            (release_lock i (upd_run i (mark_finished now st summary err) d))"
  have "get_run i d' = get_run i (upd_run i (mark_finished now st summary err) d)"
    by (simp add: d' finish_effect_def emit_def new_id_def release_lock_def get_run_def)
  also have "\<dots> = map_option (mark_finished now st summary err) (get_run i d)"
    by (rule run_tab.fetch_mutate_same) simp
  finally show ?thesis using r0 v assms(2) by simp
qed

lemma lock_owner_finish:
  assumes "finish_run now i status summary err d = Inr d'" and "distinct (map lk_coverage (t_locks d))"
  shows "lock_owner c d' = (if lock_owner c d = Some i then None else lock_owner c d)"
  using assms(1)
proof (rule finish_runE)
  fix r st assume d': "d' = finish_effect now i status r ''outbox:run.finished''
            (release_lock i (upd_run i (mark_finished now st summary err) d))"
  show ?thesis using lock_owner_release [OF assms(2)]
    by (simp add: d' finish_effect_def emit_def new_id_def upd_run_def release_lock_def lock_owner_def)
qed

lemma get_run_wait:
  "get_run i d = Some r \<Longrightarrow> get_run i (upd_run i (\<lambda>r. r\<lparr>run_status := s\<rparr>) d) = Some (r\<lparr>run_status := s\<rparr>)"
  by (simp add: run_tab.fetch_mutate_same)

text \<open>
  Settling a running run on the stages its query returned; the lock goes exactly when the run ends.
\<close>

lemma settle_run_status:
  assumes "settle_run tf now i stages d = Inr d'" and "get_run i d = Some run"
    and "run_status run = RS_Running" and "distinct (map lk_coverage (t_locks d))"
  shows "\<exists>run'. get_run i d' = Some run' \<and>
     run_status run' = settled_status now stages run (coverage_of_run run d \<noteq> None) \<and>
     (\<forall>c. lock_owner c d' = (if run_status run' \<in> {RS_Failed, RS_Succeeded} \<and> lock_owner c d = Some i
                            then None else lock_owner c d))"
  using assms(1)
proof (cases rule: settle_runE)
  case (failed r)
  from failed(3) show ?thesis
  proof (rule fail_runE)
    fix run1 d1 assume r1: "get_run i d1 = Some run1"
      and fin: "finish_run now i ''failed'' None (Some (first_error stages)) d1 = Inr d'"
      and d1: "d1 = d \<or> (\<exists>c. transition_coverage now c Act_Initiation_Failed AT_Run (show_nat i) (Some i) False None None d = Inr d1)"
    have lk: "t_locks d1 = t_locks d" using d1 by (auto dest: transition_coverage_frame)
    then have lo: "lock_owner c d1 = lock_owner c d" for c by (simp add: lock_owner_def)
    from get_run_finish [OF fin r1] obtain r' where r': "get_run i d' = Some r'" "run_status_value (run_status r') = ''failed''"
      by blast
    then have "run_status r' = RS_Failed" by (cases "run_status r'") simp_all
    with r'(1) failed(2) lock_owner_finish [OF fin] lk assms(4) show ?thesis
      by (simp add: settled_status_def lo)
  qed
next
  case (backoff r)
  then have "d' = upd_run i (\<lambda>r. r\<lparr>run_status := RS_Queued, run_error := Some ''transient stage failure; backoff pending''\<rparr>) d"
    by (auto simp: requeue_run_def andthen_Inr_iff run_requeue_iff)
  with backoff assms(2) show ?thesis
    by (auto simp: settled_status_def run_tab.fetch_mutate_same lock_owner_def) (simp_all add: upd_run_def)
next
  case (budget r)
  have r: "r = run" using budget(1) assms(2) by simp
  have id: "run_id run = i" using assms(2) by (simp add: run_tab.fetch_SomeD)
  from budget(5) obtain k p pl al d1 g sm where gate: "open_gate i k p pl al d = Inr (d1, g)"
    and sm: "run_transition (run_status run) RA_Open_Gate \<lparr>ctx_attempts = 0, ctx_max_attempts = 1\<rparr> = Inr sm"
    and d': "d' = upd_run i (\<lambda>r. r\<lparr>run_status := rt_to sm\<rparr>) d1"
    by (auto simp: pause_for_budget_def Let_def andthen_Inr_iff r id)
  from gate have fr: "t_runs d1 = t_runs d" "t_locks d1 = t_locks d" by (simp_all add: open_gate_frame)
  then have "get_run i d1 = Some run" using assms(2) by (simp add: get_run_def)
  then have "get_run i d' = Some (run\<lparr>run_status := RS_Waiting_PM\<rparr>)"
    using sm by (simp add: d' run_open_gate_iff get_run_wait)
  moreover have "lock_owner c d' = lock_owner c d" for c by (simp add: d' lock_owner_def upd_run_def fr)
  ultimately show ?thesis using budget(2-4) r by (simp add: settled_status_def)
next
  case (open_work r)
  with assms(2,3) show ?thesis by (simp add: settled_status_def)
next
  case (finished r)
  from finished(6) show ?thesis
  proof (cases rule: finalize_runE)
    case (initiation run1 cov d1)
    have "get_run i d' = Some (run\<lparr>run_status := RS_Waiting_PM\<rparr>)"
      using initiation assms(2) by (simp add: get_run_wait)
    moreover have "lock_owner c d' = lock_owner c d" for c
      using transition_coverage_frame [OF initiation(4)] by (simp add: initiation(7) lock_owner_def upd_run_def)
    ultimately show ?thesis using finished initiation assms(2) by (simp add: settled_status_def)
  next
    case (plain run1)
    from get_run_finish [OF plain(3) plain(1)] obtain r' where
      r': "get_run i d' = Some r'" "run_status_value (run_status r') = ''succeeded''" by blast
    then have "run_status r' = RS_Succeeded" by (cases "run_status r'") simp_all
    with r'(1) finished plain lock_owner_finish [OF plain(3) assms(4)] assms(2) show ?thesis
      by (auto simp: settled_status_def)
  qed
qed

end
