(* ===== verification/Worker.thy ===== *)
theory Worker
  imports Repository
begin

text \<open>
  \<open>tests/fakes/runner.py\<close>: the runner the repository ships, a worker loop over the real queue
  that claims stages until none is left, fails a role a number of times and hangs on others.  The
  loop has no bound of its own, so it is a partial function with \<open>None\<close> for not returning; it is
  shown to return from every consistent queue.  The production runner is not in the repository.
\<close>

section \<open>The loop\<close>

record fake_runner =
  fr_results :: "(string \<times> json_obj) list"
  fr_fail_role :: "string option"
  fr_fail_times :: nat
  fr_hang_roles :: "string list"
  fr_cost_usd :: decimal
  fr_backoff :: backoff_policy
  fr_fail_counts :: "string \<Rightarrow> nat"
  fr_claimed :: "uuid list"

definition NO_DELAY :: backoff_policy where
  "NO_DELAY = \<lparr>base_s = 0, max_s = 0, jitter = 0\<rparr>"

definition default_result :: "string \<Rightarrow> json_obj" where
  "default_result role =
     (if role = ''author'' then
        [(''status'', JStr ''completed''), (''changes'', JArr [JStr ''author pass'']),
         (''predictions'', JArr [JObj [(''kind'', JStr ''target_price''), (''value'', JNum 2900),
            (''currency'', JStr ''JPY''), (''horizon_date'', JStr ''2027-01-01''),
            (''confidence'', JNum (3/5))]])]
      else if role = ''verifier'' then
        [(''status'', JStr ''completed''), (''changes'', JArr [JStr ''verifier pass'']), (''corrections'', JArr [])]
      else if role = ''finalizer'' then
        [(''status'', JStr ''completed''), (''changes'', JArr [JStr ''finalized'']), (''predictions'', JArr [])]
      else [(''status'', JStr ''completed''), (''changes'', JArr [JStr (role @ '' pass'')])])"

definition new_runner :: fake_runner where
  "new_runner = \<lparr>fr_results = [], fr_fail_role = None, fr_fail_times = 0, fr_hang_roles = [],
     fr_cost_usd = 1/100, fr_backoff = NO_DELAY, fr_fail_counts = (\<lambda>_. 0), fr_claimed = []\<rparr>"

definition result_for :: "fake_runner \<Rightarrow> string \<Rightarrow> json_obj" where
  "result_for rn role = (case map_of (fr_results rn) role of
     Some r \<Rightarrow> if r = [] then default_result role else r | None \<Rightarrow> default_result role)"

definition work_stage ::
  "bool \<Rightarrow> time \<Rightarrow> rat \<Rightarrow> string \<Rightarrow> stage_row \<Rightarrow> fake_runner \<Rightarrow> db \<Rightarrow> error + (fake_runner \<times> db)" where
  "work_stage autoflush now jf worker s rn d =
     (let rn1 = rn\<lparr>fr_claimed := fr_claimed rn @ [st_id s]\<rparr>;
          attempt = (default_attempt_in worker)\<lparr>ai_cost_usd := fr_cost_usd rn\<rparr>
      in if fr_fail_role rn = Some (st_role s) \<and> fr_fail_counts rn (st_role s) < fr_fail_times rn then
           andthen (fail_stage autoflush now jf (st_id s) attempt True (fr_backoff rn) d) (\<lambda>d1.
           Inr (rn1\<lparr>fr_fail_counts := (fr_fail_counts rn)(st_role s := Suc (fr_fail_counts rn (st_role s)))\<rparr>, d1))
         else
           andthen (complete_stage autoflush now (st_id s) attempt (result_for rn (st_role s)) d) (\<lambda>d1.
           Inr (rn1, d1)))"

partial_function (option) drain ::
  "bool \<Rightarrow> time \<Rightarrow> rat \<Rightarrow> string \<Rightarrow> rat \<Rightarrow> nat \<Rightarrow> fake_runner \<Rightarrow> db \<Rightarrow>
     (error + (fake_runner \<times> db \<times> nat)) option" where
  "drain autoflush now jf worker lease n rn d =
     (case claim_stage now [] worker None None lease d of
        Inl e \<Rightarrow> Some (Inl e)
      | Inr (d1, claimed) \<Rightarrow>
          (case claimed of
             None \<Rightarrow> Some (Inr (rn, d1, n))
           | Some s \<Rightarrow>
               if st_role s \<in> set (fr_hang_roles rn) then Some (Inr (rn, d1, n))
               else (case work_stage autoflush now jf worker s rn d1 of
                       Inl e \<Rightarrow> Some (Inl e)
                     | Inr (rn2, d2) \<Rightarrow> drain autoflush now jf worker lease (Suc n) rn2 d2)))"

section \<open>Progress\<close>

text \<open>The attempts the stages have left; every claim uses one up.\<close>

definition attempts_left :: "stage_row list \<Rightarrow> nat" where
  "attempts_left ss = sum_list (map (\<lambda>s. nat (st_max_attempts s - st_attempts s)) ss)"

lemma sum_list_upd_nat:
  fixes g :: "'r \<Rightarrow> nat"
  assumes "distinct (map key rows)" and "r \<in> set rows"
  shows "sum_list (map g (upd_row key (key r) f rows)) + g r = sum_list (map g rows) + g (f r)"
  using assms
proof (induction rows)
  case (Cons a rows)
  show ?case
  proof (cases "key a = key r")
    case True
    with Cons.prems have "a = r" "\<forall>b \<in> set rows. key b \<noteq> key r" by (auto simp: image_iff)
    then have "upd_row key (key r) f rows = rows" by (simp add: upd_row_def map_idI)
    with \<open>a = r\<close> show ?thesis by simp
  next
    case False
    with Cons.prems have "r \<in> set rows" by auto
    with Cons False show ?thesis by simp
  qed
qed simp

lemma attempts_left_upd:
  assumes "\<And>s. st_attempts (f s) = st_attempts s" and "\<And>s. st_max_attempts (f s) = st_max_attempts s"
  shows "attempts_left (upd_row st_id i f ss) = attempts_left ss"
  by (simp add: attempts_left_def map_upd_row_frame assms)

lemma claim_uses_attempt:
  assumes inv: "queue_inv d" and c: "claim_stage now locked w subs hs lease d = Inr (d', Some s')"
  shows "attempts_left (t_stages d) = Suc (attempts_left (t_stages d')) \<and>
     get_stage (st_id s') d' = Some s' \<and> st_status s' = SS_Running \<and> get_run (st_run s') d' \<noteq> None"
  using c
proof (rule claim_stage_Some)
  fix s
  assume s: "s \<in> set (t_stages d)" "claimable d now s" and s': "s' = mark_claimed now w lease s"
    and d': "d' = (upd_stage (st_id s) (\<lambda>_. s') d)\<lparr>t_attempts := t_attempts d @ [new_attempt w s']\<rparr>"
  have dist: "distinct (map st_id (t_stages d))" using inv by (simp add: queue_books_def)
  have ok: "stage_ok 0 (own_attempts (st_id s) (t_attempts d)) s" using inv s(1) by (simp add: queue_books_def)
  moreover have "st_status s = SS_Queued" using s(2) by (simp add: claimable_def)
  ultimately have lt: "st_attempts s < st_max_attempts s" by (simp add: stage_ok_def)
  have st: "t_stages d' = upd_row st_id (st_id s) (\<lambda>_. s') (t_stages d)" by (simp add: d' upd_stage_def)
  have "attempts_left (t_stages d') + nat (st_max_attempts s - st_attempts s) =
      attempts_left (t_stages d) + nat (st_max_attempts s' - st_attempts s')"
    unfolding attempts_left_def st by (rule sum_list_upd_nat [OF dist s(1)])
  then have left: "attempts_left (t_stages d) = Suc (attempts_left (t_stages d'))"
    using lt by (simp add: s' mark_claimed_def)
  have "get_stage (st_id s) d' = get_row st_id (st_id s) (upd_row st_id (st_id s) (mark_claimed now w lease) (t_stages d))"
    using upd_row_const [OF dist s(1), of "mark_claimed now w lease"] by (simp add: stage_tab.fetch_rows st s')
  also have "\<dots> = map_option (mark_claimed now w lease) (get_stage (st_id s) d)"
    by (simp add: stage_tab.fetch_rows get_row_upd_same)
  also have "\<dots> = Some s'" using stage_tab.fetch_member [OF dist s(1)] by (simp add: s')
  finally have got: "get_stage (st_id s') d' = Some s'" by (simp add: s')
  have "get_run (st_run s') d' \<noteq> None"
    using s(2) by (auto simp: s' d' claimable_def mark_claimed_def get_run_def upd_stage_def split: option.splits)
  with left got show "attempts_left (t_stages d) = Suc (attempts_left (t_stages d')) \<and>
     get_stage (st_id s') d' = Some s' \<and> st_status s' = SS_Running \<and> get_run (st_run s') d' \<noteq> None"
    by (simp add: s' mark_claimed_def)
qed

lemma fail_stage_accepts:
  assumes "get_stage i d = Some s" and "st_status s = SS_Running" and "get_run (st_run s) d \<noteq> None"
  shows "\<exists>d'. fail_stage af now jf i a re backoff d = Inr d'"
proof -
  have "get_run (st_run s) (upd_stage i f (upd_stage i g (close_attempt now s a x y z d))) \<noteq> None" for f g x y z
    using assms(3) by (simp add: get_run_def upd_stage_def close_attempt_def)
  with assms(1,2) show ?thesis
    by (auto simp: fail_stage_def andthen_Inr_iff stage_retry_iff rollup_run_Inr Let_def stage_ctx_def)
qed

lemma work_stage_ok:
  assumes inv: "queue_inv d" and s: "get_stage (st_id s) d = Some s" "st_status s = SS_Running"
    "get_run (st_run s) d \<noteq> None"
  shows "\<exists>rn' d'. work_stage af now jf w s rn d = Inr (rn', d') \<and> orderly_step d d' \<and>
     attempts_left (t_stages d') = attempts_left (t_stages d)"
proof (cases "fr_fail_role rn = Some (st_role s) \<and> fr_fail_counts rn (st_role s) < fr_fail_times rn")
  case True
  let ?a = "(default_attempt_in w)\<lparr>ai_cost_usd := fr_cost_usd rn\<rparr>"
  obtain d' where f: "fail_stage af now jf (st_id s) ?a True (fr_backoff rn) d = Inr d'"
    using fail_stage_accepts [OF s] by blast
  then have "attempts_left (t_stages d') = attempts_left (t_stages d)"
    by (rule fail_stageE) (simp add: attempts_left_upd)
  with f s True show ?thesis by (auto simp: work_stage_def Let_def intro: orderly_step.fail)
next
  case False
  let ?a = "(default_attempt_in w)\<lparr>ai_cost_usd := fr_cost_usd rn\<rparr>"
  obtain d' where f: "complete_stage af now (st_id s) ?a (result_for rn (st_role s)) d = Inr d'"
    using complete_stage_accepts [OF s] by blast
  then have "attempts_left (t_stages d') = attempts_left (t_stages d)"
    by (rule complete_stageE) (simp add: attempts_left_upd)
  with f False show ?thesis by (auto simp: work_stage_def Let_def intro: orderly_step.complete)
qed

text \<open>
  C12.  The worker loop terminates: from every consistent queue the drain returns without an error
  after at most as many rounds as the stages have attempts left, through queue operations only, and
  unless it hung nothing claimable is left.
\<close>

theorem drain_terminates:
  assumes "queue_inv d"
  shows "\<exists>rn' d' k. drain af now jf w lease n rn d = Some (Inr (rn', d', k)) \<and>
     n \<le> k \<and> k \<le> n + attempts_left (t_stages d) \<and> orderly_step\<^sup>*\<^sup>* d d' \<and> queue_inv d' \<and>
     (fr_hang_roles rn = [] \<longrightarrow> claim_candidates d' now [] None None = [])"
  using assms
proof (induction "attempts_left (t_stages d)" arbitrary: d n rn rule: less_induct)
  case less
  obtain d1 r where c: "claim_stage now [] w None None lease d = Inr (d1, r)"
    using claim_stage_no_error [OF less.prems]
    by (cases "claim_stage now [] w None None lease d") auto
  have step: "orderly_step d d1" using c by (rule orderly_step.claim)
  have inv1: "queue_inv d1" by (rule orderly_step_books [OF step less.prems])
  show ?case
  proof (cases r)
    case None
    with c have "d1 = d" "claim_candidates d now [] None None = []" by (auto simp: claim_stage_None_iff)
    with c None less.prems show ?thesis by (subst drain.simps) auto
  next
    case (Some s)
    have got: "attempts_left (t_stages d) = Suc (attempts_left (t_stages d1))" "get_stage (st_id s) d1 = Some s"
      "st_status s = SS_Running" "get_run (st_run s) d1 \<noteq> None"
      using claim_uses_attempt [OF less.prems c [unfolded Some]] by blast+
    show ?thesis
    proof (cases "st_role s \<in> set (fr_hang_roles rn)")
      case True
      with c Some step inv1 show ?thesis by (subst drain.simps) auto
    next
      case False
      obtain rn2 d2 where w: "work_stage af now jf w s rn d1 = Inr (rn2, d2)" and s2: "orderly_step d1 d2"
        and left: "attempts_left (t_stages d2) = attempts_left (t_stages d1)"
        using work_stage_ok [OF inv1 got(2-4)] by blast
      have hang: "fr_hang_roles rn2 = fr_hang_roles rn"
        using w by (auto simp: work_stage_def Let_def andthen_Inr_iff split: if_splits)
      have inv2: "queue_inv d2" by (rule orderly_step_books [OF s2 inv1])
      have "drain af now jf w lease n rn d = drain af now jf w lease (Suc n) rn2 d2"
        using c Some False w by (subst drain.simps) simp
      moreover obtain rn' d' k where "drain af now jf w lease (Suc n) rn2 d2 = Some (Inr (rn', d', k))"
        "Suc n \<le> k" "k \<le> Suc n + attempts_left (t_stages d2)" "orderly_step\<^sup>*\<^sup>* d2 d'" "queue_inv d'"
        "fr_hang_roles rn2 = [] \<longrightarrow> claim_candidates d' now [] None None = []"
        using less.hyps [of d2 "Suc n" rn2] got(1) left inv2 by auto
      ultimately show ?thesis using step s2 got(1) left hang
        by (auto intro: converse_rtranclp_into_rtranclp)
    qed
  qed
qed

end
