(* ===== verification/Engine_Properties.thy ===== *)
theory Engine_Properties
  imports Engine_Correct Worker
begin

text \<open>
  What the orchestrator promises, and where it does not keep its word: the run it creates, safety of
  every tick, the outcome of an advance, and the retry, backoff and cross-check flows that go wrong.
\<close>

section \<open>Created runs\<close>

lemma add_stage_row:
  assumes "add_stage now r s d = Inr d'"
  obtains h sub where "si_house s = Some h" "has_house h d" "substrate_of (si_substrate s) = Some sub"
    "\<forall>x \<in> set (t_stages d). \<not> (st_run x = r \<and> st_seq x = si_seq s)"
    "\<exists>x. t_stages d' = t_stages d @ [x] \<and> st_run x = r \<and> st_seq x = si_seq s \<and> st_role x = si_role s \<and>
       st_house x = h \<and> st_status x = SS_Queued \<and> st_depends_on_seq x = si_depends_on_seq s \<and>
       st_available_at x = now \<and> st_max_attempts x = si_max_attempts s \<and> st_attempts x = 0 \<and> st_id x = next_id d \<and>
       substrate_value (st_substrate x) = si_substrate s"
    "t_houses d' = t_houses d" "next_id d' = Suc (next_id d)" "t_attempts d' = t_attempts d"
proof -
  from assms obtain h where h: "si_house s = Some h" by (cases "si_house s") (simp_all add: add_stage_def)
  with assms have hh: "has_house h d" by (cases "has_house h d") (simp_all add: add_stage_def)
  with assms h obtain sub where sub: "substrate_of (si_substrate s) = Some sub"
    by (cases "substrate_of (si_substrate s)") (simp_all add: add_stage_def)
  let ?dup = "list_ex (\<lambda>x. st_run x = r \<and> st_seq x = si_seq s) (t_stages d)"
  from assms h hh sub have nd: "\<not> ?dup" by (cases ?dup) (simp_all add: add_stage_def)
  from sub have "substrate_value sub = si_substrate s" by (simp add: substrate_of_def substrate_enum.of_Some_iff)
  with assms h hh sub nd show thesis
    by (intro that [of h sub]) (auto simp: add_stage_def new_id_def list_ex_iff)
qed

definition stage_shape :: "stage_row \<Rightarrow> int \<times> string \<times> string option \<times> string \<times> int option \<times> int" where
  "stage_shape s = (st_seq s, st_role s, Some (st_house s), substrate_value (st_substrate s),
     st_depends_on_seq s, st_max_attempts s)"

definition planned_shape :: "stage_in \<Rightarrow> int \<times> string \<times> string option \<times> string \<times> int option \<times> int" where
  "planned_shape s = (si_seq s, si_role s, si_house s, si_substrate s, si_depends_on_seq s, si_max_attempts s)"

lemma add_stages_rows:
  assumes "add_stages now r ss d = Inr d'"
  shows "\<exists>xs. t_stages d' = t_stages d @ xs \<and> map stage_shape xs = map planned_shape ss \<and>
     list_all (\<lambda>x. st_run x = r \<and> st_status x = SS_Queued) xs"
  using assms
proof (induction ss arbitrary: d)
  case (Cons s ss)
  then obtain d1 where one: "add_stage now r s d = Inr d1" and rest: "add_stages now r ss d1 = Inr d'"
    by (auto simp: add_stages_def andthen_Inr_iff)
  from one obtain x where x: "t_stages d1 = t_stages d @ [x]" "stage_shape x = planned_shape s"
    "st_run x = r" "st_status x = SS_Queued"
    by (rule add_stage_row) (auto simp: stage_shape_def planned_shape_def)
  from Cons.IH [OF rest] obtain xs where "t_stages d' = t_stages d1 @ xs" "map stage_shape xs = map planned_shape ss"
    "list_all (\<lambda>x. st_run x = r \<and> st_status x = SS_Queued) xs" by blast
  with x show ?case by (intro exI [of _ "x # xs"]) simp
qed (simp add: add_stages_def)

lemma plan_for_types:
  assumes "plan_for fund ty pol params lead cs metas = Inr ss"
  shows "ty \<in> {''initiation'', ''deep_review'', ''event_analysis'', ''monitor_tick'', ''pm_query''}"
  using assms by (auto simp: plan_for_def Let_def split: if_splits)

lemma plan_for_plan:
  assumes "plan_for fund ty pol params lead cs metas = Inr ss"
  shows "\<exists>a. plan_stages ty a = Inr ss \<and> pa_max_attempts a = rp_max_attempts pol \<and>
     (ty \<noteq> ''monitor_tick'' \<longrightarrow> pa_meta_houses a = metas)"
proof -
  let ?base = "(default_plan_args (rp_max_attempts pol))\<lparr>pa_lead := lead, pa_meta_houses := metas\<rparr>"
  let ?mon = "(default_plan_args (rp_max_attempts pol))\<lparr>pa_monitor_house := Some (mo_house (fu_monitor fund))\<rparr>"
  from plan_for_types [OF assms] consider n where "ty = ''initiation''"
      "plan_stages ty (?base\<lparr>pa_contributors := cs, pa_verify_count := n,
         pa_include_data_checker := rp_include_data_checker pol\<rparr>) = Inr ss"
    | "ty = ''deep_review''" "plan_stages ty (?base\<lparr>pa_contributors := cs\<rparr>) = Inr ss"
    | "ty = ''event_analysis'' \<or> ty = ''pm_query''" "plan_stages ty ?base = Inr ss"
    | "ty = ''monitor_tick''" "plan_stages ty ?mon = Inr ss"
    using assms by (auto simp: plan_for_def Let_def andthen_Inr_iff)
  then show ?thesis
  proof cases
    case 1
    then show ?thesis
      by (intro exI [of _ "?base\<lparr>pa_contributors := cs, pa_verify_count := n,
         pa_include_data_checker := rp_include_data_checker pol\<rparr>"]) (simp add: default_plan_args_def)
  next
    case 2
    then show ?thesis by (intro exI [of _ "?base\<lparr>pa_contributors := cs\<rparr>"]) (simp add: default_plan_args_def)
  next
    case 3
    then show ?thesis by (intro exI [of _ ?base]) (simp add: default_plan_args_def)
  next
    case 4
    then show ?thesis by (intro exI [of _ ?mon]) (simp add: default_plan_args_def)
  qed
qed

text \<open>
  Who does what in each type of run (specs/SPEC-CORE.md 3.2): the role, house and substrate of the
  stages, in order, for a lead, its contributors, the number of verifiers, whether a data checker is
  wanted, and the monitor's house.
\<close>

definition team :: "string \<Rightarrow> string option \<Rightarrow> string list \<Rightarrow> int \<Rightarrow> bool \<Rightarrow> string option \<Rightarrow>
    (string \<times> string option \<times> string) list" where
  "team ty lead contributors verifiers checker monitor =
     (let verify = (\<lambda>k. map (\<lambda>c. (''verifier'', Some c, ''harness'')) (take k (sort contributors)))
      in if ty = ''initiation'' then
           [(''author'', lead, ''harness'')] @ verify (nat verifiers) @
           (if checker then [(''data_checker'', case contributors of [] \<Rightarrow> lead | c # _ \<Rightarrow> Some c, ''harness'')] else []) @
           [(''finalizer'', lead, ''harness'')]
         else if ty = ''deep_review'' then [(''author'', lead, ''harness'')] @ verify 1
         else if ty = ''event_analysis'' then [(''author'', lead, ''harness'')]
         else if ty = ''monitor_tick'' then [(''monitor'', monitor, ''api'')]
         else [(''pm_query'', lead, ''api'')])"

lemma plan_for_team:
  assumes "plan_for fund ty pol params lead cs metas = Inr ss"
  shows "map (\<lambda>x. (si_role x, si_house x, si_substrate x)) ss =
     team ty lead cs
       (case json_int (get_default params ''verify_count'' (JNum (of_int (rp_verify_count pol)))) of Inr n \<Rightarrow> n | Inl _ \<Rightarrow> 0)
       (rp_include_data_checker pol) (or_house (Some (mo_house (fu_monitor fund))) None)"
proof -
  let ?base = "(default_plan_args (rp_max_attempts pol))\<lparr>pa_lead := lead, pa_meta_houses := metas\<rparr>"
  from plan_for_types [OF assms] consider (init) n where "ty = ''initiation''"
      "json_int (get_default params ''verify_count'' (JNum (of_int (rp_verify_count pol)))) = Inr n"
      "plan_initiation (?base\<lparr>pa_contributors := cs, pa_verify_count := n,
         pa_include_data_checker := rp_include_data_checker pol\<rparr>) = Inr ss"
    | (deep) "ty = ''deep_review''" "plan_deep_review (?base\<lparr>pa_contributors := cs\<rparr>) = Inr ss"
    | (event) "ty = ''event_analysis''" | (tick) "ty = ''monitor_tick''" | (query) "ty = ''pm_query''"
    using assms by (auto simp: plan_for_def plan_stages_def Let_def andthen_Inr_iff)
  then show ?thesis
  proof cases
    case init
    from init(3) show ?thesis
      by (rule plan_initiationE)
        (auto simp: team_def Let_def init(1,2) default_plan_args_def dest!: verifier_stages_team split: list.split)
  next
    case deep
    from deep(2) show ?thesis
    proof (rule plan_deep_reviewE, goal_cases)
      case (1 v)
      then show ?case by (cases "sort cs") (simp_all add: team_def Let_def deep(1) default_plan_args_def)
    next
      case 2
      then show ?case by (simp add: team_def Let_def deep(1) default_plan_args_def)
    qed
  next
    case event
    from assms [unfolded this] show ?thesis
      by (auto simp: event plan_for_def plan_stages_def Let_def andthen_Inr_iff team_def default_plan_args_def)
  next
    case tick
    from assms [unfolded this] show ?thesis
      by (auto simp: tick plan_for_def plan_stages_def Let_def team_def default_plan_args_def)
  next
    case query
    from assms [unfolded this] show ?thesis
      by (auto simp: query plan_for_def plan_stages_def Let_def andthen_Inr_iff team_def default_plan_args_def)
  qed
qed

lemma plan_monitor_roles: "plan_stages ''monitor_tick'' a = Inr ss \<Longrightarrow> map si_role ss = [''monitor'']"
  by (auto simp: plan_stages_def mk_stage_def)

lemma create_runE:
  assumes "create_run now fund ty c a d = Inr (d', run)"
  obtains pol lead cs ss ri d1 where "policy fund ty = Inr pol"
    "run_lead (er_params a) (case c of None \<Rightarrow> None | Some c \<Rightarrow> get_coverage c d) = Inr lead"
    "(case (case c of None \<Rightarrow> None | Some c \<Rightarrow> get_coverage c d) of
        None \<Rightarrow> Inr [] | Some r \<Rightarrow> resolve_contributors (cov_id r) d) = Inr cs"
    "plan_for fund ty pol (er_params a) lead cs (er_meta_houses a) = Inr ss"
    "create_run_row now ri d = Inr (d1, run)" "add_stages now (run_id run) ss d1 = Inr d'"
    "ri_budget_cap ri = Some (rp_budget_cap_usd pol)" "ri_type ri = ty" "ri_coverage ri = c"
proof -
  define cov where "cov = (case c of None \<Rightarrow> None | Some c \<Rightarrow> get_coverage c d)"
  define prio where "prio = json_int (get_default (er_params a) ''priority'' (JNum 100))"
  define houses where "houses = (case cov of None \<Rightarrow> Inr [] | Some c \<Rightarrow> resolve_contributors (cov_id c) d)"
  note eq = assms [unfolded create_run_def Let_def, folded cov_def prio_def, folded houses_def]
  from eq obtain pol where pol: "policy fund ty = Inr pol" by (cases "policy fund ty") simp_all
  from eq pol obtain lead where lead: "run_lead (er_params a) cov = Inr lead"
    by (cases "run_lead (er_params a) cov") simp_all
  from eq pol lead obtain cs where cs: "houses = Inr cs" by (cases houses) simp_all
  from eq pol lead cs obtain ss where ss: "plan_for fund ty pol (er_params a) lead cs (er_meta_houses a) = Inr ss"
    by (cases "plan_for fund ty pol (er_params a) lead cs (er_meta_houses a)") simp_all
  from eq pol lead cs ss obtain p where p: "prio = Inr p" by (cases prio) simp_all
  define ri where "ri = \<lparr>ri_coverage = c, ri_type = ty, ri_trigger = er_trigger a,
     ri_params = (case lead of Some l \<Rightarrow> if l = [] then er_params a
                    else jsetdefault ''lead_house'' (JStr l) (er_params a) | None \<Rightarrow> er_params a),
     ri_priority = p, ri_budget_cap = Some (rp_budget_cap_usd pol),
     ri_requested_by = er_requested_by a, ri_trigger_ref = er_trigger_ref a\<rparr>"
  from eq pol lead cs ss p have row: "andthen (create_run_row now ri d) (\<lambda>(d1, run).
      andthen (add_stages now (run_id run) ss d1) (\<lambda>d2. Inr (d2, run))) = Inr (d', run)"
    unfolding ri_def by simp
  obtain d1 where "create_run_row now ri d = Inr (d1, run)" "add_stages now (run_id run) ss d1 = Inr d'"
    using row by (cases "create_run_row now ri d") (auto simp: andthen_Inr_iff)
  with pol ss lead [unfolded cov_def] cs [unfolded houses_def cov_def] show thesis
    by (intro that [of pol lead cs ss ri d1]) (simp_all add: ri_def)
qed

lemma create_run_row_values:
  "create_run_row now a d = Inr (d', r) \<Longrightarrow> run_status r = RS_Queued \<and> run_budget_cap r = ri_budget_cap a \<and>
     run_type_value (run_type r) = ri_type a \<and> run_coverage r = ri_coverage a"
  by (auto simp: create_run_row_def Let_def run_type_of_def run_type_enum.of_Some_iff split: option.splits if_splits)

lemma stage_chain_links:
  "stage_chain s dep st \<Longrightarrow> map (\<lambda>x. (si_seq x, si_depends_on_seq x)) st =
     map (\<lambda>k. (s + int k, if k = 0 then dep else Some (s + int k - 1))) [0..<length st]"
proof (induction st arbitrary: s dep)
  case (Cons x xs)
  have up: "[0..<Suc (length xs)] = 0 # map Suc [0..<length xs]" by (simp add: upt_conv_Cons map_Suc_upt del: upt_Suc)
  from Cons have "map (\<lambda>x. (si_seq x, si_depends_on_seq x)) xs =
      map (\<lambda>k. (s + 1 + int k, if k = 0 then Some s else Some (s + 1 + int k - 1))) [0..<length xs]"
    by simp
  then show ?case using Cons.prems by (simp add: up o_def del: upt_Suc)
qed simp

text \<open>
  C16.  A run the engine creates is queued under its policy's budget cap with exactly its team, in
  order: for an initiation the lead as author, the first \<open>verify_count\<close> contributors by name, the data
  checker where the policy wants one, and the lead as finalizer; for a deep review the author and one
  verifier; the author alone for an event analysis; the monitor's house for a monitor tick and the lead
  for a query, both through the API.  All stages are queued, numbered from one without gaps, each
  waiting for the one before it and with the policy's attempts, and none with an analyst role belongs
  to a meta house.  The lead is the one the parameters name, or the ticker's, the contributors those
  of the ticker.  No call for a lead review or a distillation succeeds: the engine omits an argument
  the planner requires.
\<close>

theorem created_run_exact:
  assumes "create_run now fund ty c a d = Inr (d', run)" and "\<forall>s \<in> set (t_stages d). st_run s \<noteq> next_id d"
  shows "ty \<notin> {''lead_review'', ''distillation''} \<and> run_status run = RS_Queued \<and>
     (\<exists>pol lead cs. policy fund ty = Inr pol \<and>
        run_lead (er_params a) (case c of None \<Rightarrow> None | Some c \<Rightarrow> get_coverage c d) = Inr lead \<and>
        (case (case c of None \<Rightarrow> None | Some c \<Rightarrow> get_coverage c d) of
           None \<Rightarrow> Inr [] | Some r \<Rightarrow> resolve_contributors (cov_id r) d) = Inr cs \<and>
        run_budget_cap run = Some (rp_budget_cap_usd pol) \<and>
        list_all (\<lambda>s. st_status s = SS_Queued \<and> st_max_attempts s = rp_max_attempts pol) (run_stages (run_id run) d') \<and>
        map (\<lambda>s. (st_role s, Some (st_house s), substrate_value (st_substrate s))) (run_stages (run_id run) d') =
          team ty lead cs
            (case json_int (get_default (er_params a) ''verify_count'' (JNum (of_int (rp_verify_count pol)))) of
               Inr n \<Rightarrow> n | Inl _ \<Rightarrow> 0)
            (rp_include_data_checker pol) (or_house (Some (mo_house (fu_monitor fund))) None)) \<and>
     map (\<lambda>s. (st_seq s, st_depends_on_seq s)) (run_stages (run_id run) d') =
       map (\<lambda>k. (1 + int k, if k = 0 then None else Some (int k))) [0..<length (run_stages (run_id run) d')] \<and>
     list_all (\<lambda>s. st_role s \<in> set analyst_roles \<longrightarrow> st_house s \<notin> set (er_meta_houses a))
       (run_stages (run_id run) d')"
  using assms(1)
proof (rule create_runE)
  fix pol lead cs ss ri d1
  assume pol: "policy fund ty = Inr pol" and plan: "plan_for fund ty pol (er_params a) lead cs (er_meta_houses a) = Inr ss"
    and row: "create_run_row now ri d = Inr (d1, run)" and add: "add_stages now (run_id run) ss d1 = Inr d'"
    and cap: "ri_budget_cap ri = Some (rp_budget_cap_usd pol)"
    and lead: "run_lead (er_params a) (case c of None \<Rightarrow> None | Some c \<Rightarrow> get_coverage c d) = Inr lead"
    and cs: "(case (case c of None \<Rightarrow> None | Some c \<Rightarrow> get_coverage c d) of
        None \<Rightarrow> Inr [] | Some r \<Rightarrow> resolve_contributors (cov_id r) d) = Inr cs"
  obtain xs where xs: "t_stages d' = t_stages d1 @ xs" "map stage_shape xs = map planned_shape ss"
    "list_all (\<lambda>x. st_run x = run_id run \<and> st_status x = SS_Queued) xs"
    using add_stages_rows [OF add] by blast
  have fr: "t_stages d1 = t_stages d" "run_id run = next_id d" using create_run_row_frame [OF row] by auto
  have own: "run_stages (run_id run) d' = xs"
    using xs(1,3) assms(2) by (auto simp: run_stages_def fr filter_empty_conv list_all_iff intro!: filter_True)
  from plan_for_plan [OF plan] obtain pa where pa: "plan_stages ty pa = Inr ss"
    "pa_max_attempts pa = rp_max_attempts pol" "ty \<noteq> ''monitor_tick'' \<longrightarrow> pa_meta_houses pa = er_meta_houses a" by blast
  note plan_ok = plan_is_chain [OF pa(1)]
  have ty: "ty \<notin> {''lead_review'', ''distillation''}" using plan_for_types [OF plan] by auto
  have chain: "map (\<lambda>x. (si_seq x, si_depends_on_seq x)) ss =
      map (\<lambda>k. (1 + int k, if k = 0 then None else Some (int k))) [0..<length ss]"
    using plan_ok ty stage_chain_links [of 1 None ss] by simp
  have seqs: "map (\<lambda>s. (st_seq s, st_depends_on_seq s)) xs = map (\<lambda>s. (si_seq s, si_depends_on_seq s)) ss" and len: "length xs = length ss"
    and maxs: "map st_max_attempts xs = map si_max_attempts ss"
    and roles: "map (\<lambda>s. (st_role s, Some (st_house s))) xs = map (\<lambda>s. (si_role s, si_house s)) ss"
    and members: "map (\<lambda>s. (st_role s, Some (st_house s), substrate_value (st_substrate s))) xs =
      map (\<lambda>s. (si_role s, si_house s, si_substrate s)) ss"
    using arg_cong [OF xs(2), of "map (\<lambda>(q, _, _, _, e, _). (q, e))"] arg_cong [OF xs(2), of length]
      arg_cong [OF xs(2), of "map (\<lambda>(_, r, h, b, _). (r, h, b))"]
      arg_cong [OF xs(2), of "map (\<lambda>(_, _, _, _, _, m). m)"] arg_cong [OF xs(2), of "map (\<lambda>(_, r, h, _). (r, h))"]
    by (simp_all add: o_def stage_shape_def planned_shape_def)
  have "st_max_attempts s = rp_max_attempts pol" if "s \<in> set xs" for s
  proof -
    from that maxs have "st_max_attempts s \<in> set (map si_max_attempts ss)" by (metis imageI list.set_map)
    with plan_ok pa(2) show ?thesis by auto
  qed
  moreover have "st_house s \<notin> set (er_meta_houses a)" if "s \<in> set xs" "st_role s \<in> set analyst_roles" for s
  proof -
    from that(1) have "(st_role s, Some (st_house s)) \<in> set (map (\<lambda>s. (st_role s, Some (st_house s))) xs)" by simp
    then obtain x where x: "x \<in> set ss" "si_role x = st_role s" "si_house x = Some (st_house s)"
      unfolding roles by auto
    have "ty \<noteq> ''monitor_tick''"
    proof
      assume "ty = ''monitor_tick''"
      with pa(1) have "map si_role ss = [''monitor'']" by (simp add: plan_monitor_roles)
      with x have "st_role s = ''monitor''" by auto
      with that(2) show False by (simp add: analyst_roles_def)
    qed
    with meta_never_analyst [OF pa(1) x(1) _ x(3)] pa(3) x(2) that(2) show ?thesis by simp
  qed
  ultimately show ?thesis
    using xs(3) ty pol lead cs cap create_run_row_values [OF row]
    unfolding own seqs len chain members plan_for_team [OF plan]
    by (intro conjI exI [of _ pol] exI [of _ lead] exI [of _ cs]) (simp_all add: list_all_iff)
qed

section \<open>A desk to try them on\<close>

definition sample_fund :: fund_config where
  "sample_fund = default_fund [(''initiation'', default_run_policy 2), (''event_analysis'', default_run_policy 2),
     (''deep_review'', default_run_policy 2), (''monitor_tick'', default_run_policy 1)]"

definition sample_texts :: text_functions where
  "sample_texts = \<lparr>digest = (\<lambda>s. s), show_dec = (\<lambda>_. ''n'')\<rparr>"

text \<open>A runner that works through up to \<open>n\<close> stages with the given result.\<close>

definition work_one :: "time \<Rightarrow> json_obj \<Rightarrow> db \<Rightarrow> error + db" where
  "work_one now result d =
     andthen (claim_stage now [] ''w'' None None 300 d) (\<lambda>(d1, s).
     case s of None \<Rightarrow> Inr d1
     | Some s \<Rightarrow> complete_stage True now (st_id s) (default_attempt_in ''w'') result d1)"

fun work_stages :: "time \<Rightarrow> json_obj \<Rightarrow> nat \<Rightarrow> db \<Rightarrow> error + db" where
  "work_stages now result 0 d = Inr d"
| "work_stages now result (Suc n) d = andthen (work_one now result d) (work_stages now result n)"

lemma work_one_ops: "work_one now result d = Inr d' \<Longrightarrow> repo_op\<^sup>*\<^sup>* d d'"
proof -
  assume w: "work_one now result d = Inr d'"
  then obtain d1 s where c: "claim_stage now [] ''w'' None None 300 d = Inr (d1, s)"
    by (cases "claim_stage now [] ''w'' None None 300 d") (auto simp: work_one_def)
  have rest: "d' = d1 \<or> (\<exists>x :: stage_row. complete_stage True now (st_id x) (default_attempt_in ''w'') result d1 = Inr d')"
    using w c by (cases s) (auto simp: work_one_def)
  have "repo_op d d1" using c by (intro repo_op.queue queue_step.orderly orderly_step.claim)
  moreover from rest have "d' = d1 \<or> repo_op d1 d'" by (auto intro: repo_op.queue queue_step.orderly orderly_step.complete)
  ultimately show ?thesis by auto
qed

lemma work_stages_ops: "work_stages now result n d = Inr d' \<Longrightarrow> repo_op\<^sup>*\<^sup>* d d'"
proof (induction n arbitrary: d)
  case (Suc n)
  then obtain d1 where "work_one now result d = Inr d1" "work_stages now result n d1 = Inr d'"
    by (auto simp: andthen_Inr_iff)
  with Suc.IH work_one_ops show ?case by (meson rtranclp_trans)
qed simp

definition sample_desk :: db where
  "sample_desk = empty_db\<lparr>t_houses := [sample_house ''gpt'', sample_house ''glm'']\<rparr>"

definition sample_initiated :: "error + (db \<times> uuid \<times> uuid)" where
  "sample_initiated =
     andthen (propose_coverage 1 sample_propose sample_desk) (\<lambda>(d1, c).
     andthen (create_run 2 sample_fund ''initiation'' (Some c)
                (default_engine_run_in\<lparr>er_params := [(''lead'', JStr ''gpt'')]\<rparr>) d1) (\<lambda>(d2, r).
     Inr (d2, c, run_id r)))"

definition sample_ticked :: "error + (db \<times> uuid \<times> uuid)" where
  "sample_ticked = andthen sample_initiated (\<lambda>(d, c, r).
     andthen (tick sample_texts False 3 (work_stages 3 [(''status'', JStr ''completed'')] 4) sample_fund d) (\<lambda>d'.
     Inr (d', c, r)))"

lemma sample_ticked_states:
  "case sample_ticked of Inl _ \<Rightarrow> False
   | Inr (d, c, r) \<Rightarrow> map cov_state (t_coverage d) = [CS_Decision_Pending] \<and>
       map run_status (t_runs d) = [RS_Waiting_PM] \<and> map st_status (t_stages d) = [SS_Succeeded, SS_Succeeded, SS_Succeeded, SS_Succeeded] \<and>
       map gt_state (t_gates d) = [GS_Open]"
  by code_simp

section \<open>Safety of the tick\<close>

text \<open>
  C2.  The orchestrator refines the repository interface: a tick, whatever its runner does through
  repository and queue calls, is a sequence of such calls.  So from a consistent desk, after any
  number of ticks, every ticker has at most one mutating run active, which owns its lock, every audit
  trail is a path of the coverage machine to the current state, and no prediction was lost or altered.
\<close>

theorem tick_is_safe:
  assumes "\<forall>x y. runner x = Inr y \<longrightarrow> repo_op\<^sup>*\<^sup>* x y" and "tick tf af now runner fund d = Inr d'" and "desk_inv d"
  shows "repo_op\<^sup>*\<^sup>* d d' \<and> desk_inv d' \<and>
     (\<forall>r1 \<in> set (t_runs d'). \<forall>r2 \<in> set (t_runs d'). \<forall>c.
        holds_ticker r1 = Some c \<longrightarrow> holds_ticker r2 = Some c \<longrightarrow> run_id r1 = run_id r2) \<and>
     (\<exists>new. map frozen (t_predictions d') = map frozen (t_predictions d) @ new)"
proof -
  have ops: "repo_op\<^sup>*\<^sup>* d d'" by (rule tick_ops [OF _ assms(2)]) (use assms(1) in blast)
  then have inv: "desk_inv d'" using assms(3) by (rule repo_ops_inv)
  then have "lock_inv d'" by (simp add: desk_inv_def)
  then have one: "run_id r1 = run_id r2" if "r1 \<in> set (t_runs d')" "r2 \<in> set (t_runs d')"
    "holds_ticker r1 = Some c" "holds_ticker r2 = Some c" for r1 r2 c
    using lock_invD [of d' r1 c] lock_invD [of d' r2 c] that by simp
  have "\<exists>new. map frozen (t_predictions d') = map frozen (t_predictions d) @ new"
    using repo_ops_ledger [OF ops] by (simp add: ledger_extends_def)
  with ops inv one show ?thesis by blast
qed

text \<open>Reading \<open>sample_ticked\<close> apart.\<close>

lemma sample_tickedE:
  obtains d0 d c r where "sample_initiated = Inr (d0, c, r)" "sample_ticked = Inr (d, c, r)"
    "tick sample_texts False 3 (work_stages 3 [(''status'', JStr ''completed'')] 4) sample_fund d0 = Inr d"
    "map cov_state (t_coverage d) = [CS_Decision_Pending]" "map run_status (t_runs d) = [RS_Waiting_PM]"
    "desk_inv d0"
proof -
  obtain d c r where t: "sample_ticked = Inr (d, c, r)" and st: "map cov_state (t_coverage d) = [CS_Decision_Pending]"
    "map run_status (t_runs d) = [RS_Waiting_PM]"
    using ok3D [OF sample_ticked_states] by (elim exE conjE) (rule that)
  from t obtain d0 where i: "sample_initiated = Inr (d0, c, r)"
    and k: "tick sample_texts False 3 (work_stages 3 [(''status'', JStr ''completed'')] 4) sample_fund d0 = Inr d"
    unfolding sample_ticked_def by (auto simp: andthen_Inr_iff)
  from i obtain d1 run where p: "propose_coverage 1 sample_propose sample_desk = Inr (d1, c)"
    and e: "create_run 2 sample_fund ''initiation'' (Some c)
                (default_engine_run_in\<lparr>er_params := [(''lead'', JStr ''gpt'')]\<rparr>) d1 = Inr (d0, run)"
    unfolding sample_initiated_def by (auto simp: andthen_Inr_iff)
  have "repo_op sample_desk d1" using p by (rule repo_op.propose)
  then have "repo_op\<^sup>*\<^sup>* sample_desk d0" using create_run_ops [OF e] by simp
  moreover have "desk_inv sample_desk" unfolding sample_desk_def by (rule empty_desk_inv)
  ultimately have "desk_inv d0" by (rule repo_ops_inv)
  with i t k st show thesis by (rule that)
qed

theorem tick_is_safe_witness:
  "\<exists>d0 d c r. sample_initiated = Inr (d0, c, r) \<and> sample_ticked = Inr (d, c, r) \<and>
     repo_op\<^sup>*\<^sup>* d0 d \<and> desk_inv d \<and> map run_status (t_runs d) = [RS_Waiting_PM]"
proof (rule sample_tickedE)
  fix d0 d c r
  assume i: "sample_initiated = Inr (d0, c, r)" and t: "sample_ticked = Inr (d, c, r)"
    and k: "tick sample_texts False 3 (work_stages 3 [(''status'', JStr ''completed'')] 4) sample_fund d0 = Inr d"
    and st: "map run_status (t_runs d) = [RS_Waiting_PM]" and inv: "desk_inv d0"
  have "\<forall>x y. work_stages 3 [(''status'', JStr ''completed'')] 4 x = Inr y \<longrightarrow> repo_op\<^sup>*\<^sup>* x y"
    using work_stages_ops by blast
  note safe = tick_is_safe [OF this k inv]
  show ?thesis
    by (intro exI conjI) (rule i, rule t, rule safe [THEN conjunct1], rule safe [THEN conjunct2, THEN conjunct1], rule st)
qed

section \<open>A retried initiation\<close>

lemma deliver_needs_initiating:
  assumes "s \<noteq> CS_Initiating"
  shows "Coverage_SM.transition (Some s) Act_Initiation_Delivered ctx =
    Inl (IllegalTransition (Some s) Act_Initiation_Delivered ''not a legal transition from this state'')"
  using assms by (cases s) (simp_all add: transition_def ENTRIES_def)

lemma coverage_of_run_same:
  "t_coverage d' = t_coverage d \<Longrightarrow> coverage_of_run run d' = coverage_of_run run d"
  by (simp add: coverage_of_run_def get_coverage_def split: option.split)

section \<open>Backoff\<close>

text \<open>
  A requeued run does not wait for the backoff it was requeued for: promoting it succeeds at any
  time, however far in the future the failed stage becomes available, so every tick starts it and
  requeues it again.
\<close>

theorem requeued_run_restarts_at_once:
  assumes "requeue_run i reason d = Inr d1" and "get_run i d = Some run"
    and "\<And>cov. run_type run = RT_Initiation \<Longrightarrow> coverage_of_run run d = Some cov \<Longrightarrow> cov_state cov \<noteq> CS_Proposed"
    and "\<And>c. run_mutates run \<Longrightarrow> run_coverage run = Some c \<Longrightarrow> lock_owner c d = Some i"
  shows "\<exists>d2 run'. promote_run now i d1 = Inr (d2, True) \<and> get_run i d2 = Some run' \<and>
     run_status run' = RS_Running \<and> t_stages d2 = t_stages d"
proof -
  let ?q = "\<lambda>r. r\<lparr>run_status := RS_Queued, run_error := Some reason\<rparr>"
  have d1: "d1 = upd_run i ?q d"
    using assms(1) by (auto simp: requeue_run_def andthen_Inr_iff run_requeue_iff)
  have r1: "get_run i d1 = Some (?q run)" using assms(2) by (simp add: d1 run_tab.fetch_mutate_same)
  have fr: "t_locks d1 = t_locks d" "t_coverage d1 = t_coverage d" "t_stages d1 = t_stages d"
    by (simp_all add: d1 upd_run_def)
  define d2 where "d2 = upd_run i (mark_started now) d1"
  have start: "start_run now i d1 = Inr (d2, True)"
  proof (cases "run_mutates run \<and> run_coverage run \<noteq> None")
    case True
    then obtain c where c: "run_mutates run" "run_coverage run = Some c" by auto
    then have own: "lock_owner c d1 = Some i" using assms(4) fr by (simp add: lock_owner_def)
    then have "insert_lock now c i d1 = d1"
      by (auto simp: lock_owner_def insert_lock_def list_ex_iff find_Some_iff)
    with c own r1 show ?thesis by (simp add: start_run_def d2_def)
  next
    case False
    with r1 show ?thesis by (auto simp: start_run_def d2_def)
  qed
  have got: "get_run i d2 = Some (mark_started now (?q run))"
    using r1 by (simp add: d2_def run_tab.fetch_mutate_same)
  have cv: "t_coverage d2 = t_coverage d" "t_stages d2 = t_stages d" using fr by (simp_all add: d2_def upd_run_def)
  have np: "\<not> (run_type run = RT_Initiation \<and> cov_state cov = CS_Proposed)" if "coverage_of_run run d2 = Some cov" for cov
    using assms(3) [of cov] that coverage_of_run_same [OF cv(1), of run] by auto
  have "promote_run now i d1 = Inr (d2, True)"
    using r1 start np
    by (cases "coverage_of_run run d2") (auto simp: promote_run_def coverage_of_run_def split: option.splits)
  with got cv show ?thesis by (intro exI [of _ d2] exI [of _ "mark_started now (?q run)"]) simp
qed

section \<open>The cross-check\<close>

lemma register_predictions_frame:
  assumes "register_predictions tf now stage d = Inr (d', fl)"
  shows "ledger_frame d d'"
proof -
  have "ledger_frame d d" by (simp add: ledger_frame_def)
  with assms show ?thesis
    by (auto simp: register_predictions_def register_from_stage_def andthen_Inr_iff
        dest!: register_all_frame split: if_splits)
qed

text \<open>What processing a succeeded event-analysis author does.\<close>

lemma process_authorE:
  assumes "process_stage tf af now fund run a (d, []) = Inr (d', p)"
    and "st_status a = SS_Succeeded" and "stage_result a \<noteq> []" and "run_type run = RT_Event_Analysis"
    and "st_role a = ''author''"
    and "auto_cross_check (stage_result a) (last_target_price (run_coverage run) d) JNull None
      (cx_tp_change_pct (fu_cross_check fund)) (cx_stance_change (fu_cross_check fund))
      (cx_thesis_tripwire (fu_cross_check fund)) = Inr True"
    and "\<And>s. s \<in> set (run_stages (run_id run) d) \<Longrightarrow> st_role s \<noteq> ''cross_check''"
  obtains d1 s where "ledger_frame d d1" "si_role s = ''cross_check''"
    "if af then add_stages now (run_id run) [s] d1 = Inr d' \<and> p = [] else d' = d1 \<and> p = [s]"
proof -
  from assms(1-5) obtain d1 fl d2 extra where
    reg: "register_predictions tf now a d = Inr (d1, fl)"
    and flush: "(if fl then add_stages now (run_id run) [] d1 else Inr d1) = Inr d2"
    and app: "maybe_append_cross_check fund run a (last_target_price (run_coverage run) d) d2 = Inr extra"
    and res: "(case extra of None \<Rightarrow> Inr (d2, if fl then [] else [])
       | Some s \<Rightarrow> if af then andthen (add_stages now (run_id run) [s] d2) (\<lambda>d3. Inr (d3, if fl then [] else []))
                  else Inr (d2, (if fl then [] else []) @ [s])) = Inr (d', p)"
    by (auto simp: process_stage_def Let_def andthen_Inr_iff)
  have fr: "ledger_frame d d1" by (rule register_predictions_frame [OF reg])
  have d2: "d2 = d1" using flush by (auto simp: add_stages_def split: if_splits)
  have "\<not> list_ex (\<lambda>s. st_role s = ''cross_check'') (run_stages (run_id run) d2)"
    using assms(7) fr by (auto simp: d2 list_ex_iff run_stages_def ledger_frame_def)
  with app assms(4-6) obtain s where s: "extra = Some s" "cross_check_stage fund run a d2 = Inr s"
    by (auto simp: maybe_append_cross_check_def Let_def andthen_Inr_iff)
  then have "si_role s = ''cross_check''" by (auto simp: cross_check_stage_def andthen_Inr_iff)
  with fr s(1) res d2 show thesis
    by (intro that [of d1 s]) (auto simp: andthen_Inr_iff split: if_splits)
qed

lemma add_one_stage:
  assumes "add_stages now r [s] d = Inr d'"
  shows "\<exists>x. t_stages d' = t_stages d @ [x] \<and> st_run x = r \<and> st_role x = si_role s \<and>
     st_status x = SS_Queued \<and> st_available_at x = now \<and> t_runs d' = t_runs d"
proof -
  from assms have one: "add_stage now r s d = Inr d'" by (auto simp: add_stages_def andthen_Inr_iff)
  moreover have "t_runs d' = t_runs d" using add_stage_frame [OF one] by simp
  ultimately show ?thesis by (elim add_stage_row) auto
qed

text \<open>
  C28.  The cross-check of a material event analysis depends on the session.  When the author's result
  calls for it and nothing else is left to do, an advance adds the queued cross-check stage; with an
  autoflushing session the run stays running, but with the production session the advance does not
  see the stage it just added, declares the run succeeded, and the stage can never be claimed.
\<close>

theorem cross_check_needs_flush:
  assumes "get_run i d = Some run" and "run_status run = RS_Running" and "run_type run = RT_Event_Analysis"
    and "runner d = Inr d1" and "get_run i d1 = Some run1" and "run_status run1 = RS_Running"
    and "run_type run1 = RT_Event_Analysis" and "\<not> run_over_budget run1"
    and "run_stages i d1 = [a]" and "st_role a = ''author''" and "st_status a = SS_Succeeded" and "stage_result a \<noteq> []"
    and "auto_cross_check (stage_result a) (last_target_price (run_coverage run) d1) JNull None
      (cx_tp_change_pct (fu_cross_check fund)) (cx_stance_change (fu_cross_check fund))
      (cx_thesis_tripwire (fu_cross_check fund)) = Inr True"
    and "advance_run tf autoflush now runner fund i d = Inr d'"
  shows "\<exists>run' x. get_run i d' = Some run' \<and> x \<in> set (t_stages d') \<and> st_run x = i \<and>
     st_role x = ''cross_check'' \<and> st_status x = SS_Queued \<and>
     run_status run' = (if autoflush then RS_Running else RS_Succeeded) \<and>
     (autoflush \<or> \<not> claimable d' later x)"
proof -
  have id: "run_id run = i" using assms(1) by (simp add: run_tab.fetch_SomeD)
  from assms(1,2,4,9,14) obtain d2 p d3 where proc: "process_stage tf autoflush now fund run a (d1, []) = Inr (d2, p)"
    and add: "add_stages now i p d2 = Inr d3" and settle: "settle_run tf now i (run_stages i d2) d3 = Inr d'"
    by (auto simp: advance_run_def andthen_Inr_iff)
  have none: "st_role s \<noteq> ''cross_check''" if "s \<in> set (run_stages (run_id run) d1)" for s
    using that assms(9,10) by (simp add: id)
  from proc assms(11,12,3,10,13) none obtain dl s where fr: "ledger_frame d1 dl" and role: "si_role s = ''cross_check''"
    and alt: "if autoflush then add_stages now (run_id run) [s] dl = Inr d2 \<and> p = [] else d2 = dl \<and> p = [s]"
    by (rule process_authorE)
  have rl: "run_stages i dl = [a]" using fr assms(9) by (simp add: ledger_frame_def run_stages_def)
  have gl: "get_run i dl = Some run1" using fr assms(5) by (simp add: ledger_frame_def get_run_def)
  show ?thesis
  proof (cases autoflush)
    case True
    with alt have add1: "add_stages now i [s] dl = Inr d2" and "p = []" by (simp_all add: id)
    then have d3: "d3 = d2" using add by (simp add: add_stages_def)
    from add_one_stage [OF add1] obtain x where x: "t_stages d2 = t_stages dl @ [x]" "st_run x = i"
      "st_role x = si_role s" "st_status x = SS_Queued" "st_available_at x = now" "t_runs d2 = t_runs dl" by blast
    have st: "run_stages i d2 = [a, x]" using x(1,2) rl by (simp add: run_stages_def)
    have g2: "get_run i d2 = Some run1" using gl x(6) by (simp add: get_run_def)
    have "settle_run tf now i (run_stages i d2) d2 = Inr d2"
      using g2 assms(8,11) x(4,5) by (simp add: settle_run_def st backoff_pending_def STAGE_TERMINAL_def)
    with settle d3 have "d' = d2" by simp
    with g2 x role assms(6) True show ?thesis by (intro exI [of _ run1] exI [of _ x]) simp
  next
    case False
    with alt have d2: "d2 = dl" and "p = [s]" by simp_all
    with add have add1: "add_stages now i [s] dl = Inr d3" by simp
    from add_one_stage [OF add1] obtain x where x: "t_stages d3 = t_stages dl @ [x]" "st_run x = i"
      "st_role x = si_role s" "st_status x = SS_Queued" "t_runs d3 = t_runs dl" by blast
    have g3: "get_run i d3 = Some run1" using gl x(5) by (simp add: get_run_def)
    have "settle_run tf now i (run_stages i d2) d3 = finalize_run now i d3"
      using g3 assms(8,11) by (simp add: settle_run_def d2 rl backoff_pending_def STAGE_TERMINAL_def)
    moreover have "finalize_run now i d3 = finish_run now i ''succeeded'' None None d3"
      using g3 assms(7) by (simp add: finalize_run_def)
    ultimately have fin: "finish_run now i ''succeeded'' None None d3 = Inr d'" using settle by simp
    from get_run_finish [OF fin g3] obtain run' where r': "get_run i d' = Some run'"
      "run_status_value (run_status run') = ''succeeded''" by blast
    then have stt: "run_status run' = RS_Succeeded" by (cases "run_status run'") simp_all
    have "t_stages d' = t_stages d3" using finish_run_frame [OF fin] by simp
    moreover have "\<not> claimable d' later x" using x(2) r'(1) stt by (simp add: claimable_def)
    ultimately show ?thesis using r'(1) stt x role False by (intro exI [of _ run'] exI [of _ x]) simp
  qed
qed

section \<open>Where an advance leaves a run\<close>

text \<open>Settling a run adds no stage.\<close>

lemma settle_run_stages:
  assumes "settle_run tf now i stages d = Inr d'"
  shows "t_stages d' = t_stages d"
  using assms
proof (cases rule: settle_runE)
  case (failed run)
  from failed(3) show ?thesis
    by (rule fail_runE) (auto dest!: finish_run_frame transition_coverage_frame)
next
  case (backoff run)
  then show ?thesis by (auto dest: requeue_run_frame)
next
  case (budget run)
  then show ?thesis
    by (auto simp: pause_for_budget_def Let_def andthen_Inr_iff upd_run_def dest!: open_gate_frame)
next
  case (finished run)
  from finished(6) show ?thesis
    by (cases rule: finalize_runE) (auto simp: upd_run_def dest!: finish_run_frame transition_coverage_frame)
qed simp

text \<open>
  What the loop over the succeeded stages of run \<open>i\<close> keeps: \<open>d\<close> is the database the runner left,
  \<open>p\<close> the stages added but not flushed, \<open>ea\<close> whether the run is an event analysis.
\<close>

definition cross_checks :: "uuid \<Rightarrow> stage_row list \<Rightarrow> bool" where
  "cross_checks i xs \<longleftrightarrow> list_all (\<lambda>x. st_run x = i \<and> st_role x = ''cross_check'' \<and> st_status x = SS_Queued) xs"

definition loop_keeps :: "bool \<Rightarrow> bool \<Rightarrow> uuid \<Rightarrow> db \<Rightarrow> db \<times> stage_in list \<Rightarrow> bool" where
  "loop_keeps ea af i d = (\<lambda>(x, p).
     t_runs x = t_runs d \<and> t_locks x = t_locks d \<and> t_coverage x = t_coverage d \<and>
     (\<exists>added. t_stages x = t_stages d @ added \<and> cross_checks i added \<and> (\<not> ea \<longrightarrow> added = [])) \<and>
     list_all (\<lambda>s. si_role s = ''cross_check'') p \<and> (af \<or> \<not> ea \<longrightarrow> p = []))"

lemma loop_keeps_flush:
  assumes "loop_keeps ea af i d (x, p)" and "add_stages now i ss y = Inr z" and "ledger_frame x y"
    and "list_all (\<lambda>s. si_role s = ''cross_check'') ss" and "\<not> ea \<longrightarrow> ss = []"
  shows "loop_keeps ea af i d (z, [])"
proof -
  from assms(1) obtain added where x: "t_stages x = t_stages d @ added" "cross_checks i added" "\<not> ea \<longrightarrow> added = []"
    "t_runs x = t_runs d" "t_locks x = t_locks d" "t_coverage x = t_coverage d"
    by (auto simp: loop_keeps_def)
  obtain xs where xs: "t_stages z = t_stages y @ xs" "map stage_shape xs = map planned_shape ss"
    "list_all (\<lambda>x. st_run x = i \<and> st_status x = SS_Queued) xs"
    using add_stages_rows [OF assms(2)] by blast
  have "map st_role xs = map si_role ss"
    using arg_cong [OF xs(2), of "map (\<lambda>(_, r, _). r)"] by (simp add: o_def stage_shape_def planned_shape_def)
  with assms(4) have "list_all (\<lambda>r. r = ''cross_check'') (map st_role xs)" by (simp add: list_all_iff)
  with xs(3) have cc: "cross_checks i xs" by (simp add: cross_checks_def list_all_iff)
  have len: "length xs = length ss" using arg_cong [OF xs(2), of length] by simp
  have fr: "t_runs z = t_runs y \<and> t_locks z = t_locks y \<and> t_coverage z = t_coverage y"
    using add_stages_frame [OF assms(2)] by simp
  show ?thesis unfolding loop_keeps_def prod.case
    using x xs(1) cc len fr assms(3,5)
    by (auto simp: ledger_frame_def cross_checks_def intro!: exI [of _ "added @ xs"])
qed

lemma process_stage_keeps:
  assumes "loop_keeps (run_type run = RT_Event_Analysis) af (run_id run) d x"
    and "process_stage tf af now fund run stage x = Inr y"
  shows "loop_keeps (run_type run = RT_Event_Analysis) af (run_id run) d y"
proof (cases "st_status stage = SS_Succeeded \<and> stage_result stage \<noteq> []")
  case False
  with assms show ?thesis by (cases x) (auto simp: process_stage_def split: if_splits)
next
  case True
  obtain x0 p where x: "x = (x0, p)" by (cases x)
  let ?ea = "run_type run = RT_Event_Analysis"
  let ?keeps = "loop_keeps ?ea af (run_id run) d"
  from assms(1) have p: "list_all (\<lambda>s. si_role s = ''cross_check'') p" "af \<or> \<not> ?ea \<longrightarrow> p = []"
    by (simp_all add: x loop_keeps_def)
  let ?tp = "if ?ea \<and> st_role stage = ''author'' then last_target_price (run_coverage run) x0 else None"
  from assms(2) True x obtain d1 fl where reg: "register_predictions tf now stage x0 = Inr (d1, fl)"
    by (cases "register_predictions tf now stage x0") (auto simp: process_stage_def Let_def)
  with assms(2) True x obtain d2 where flush: "(if fl then add_stages now (run_id run) p d1 else Inr d1) = Inr d2"
    by (cases "if fl then add_stages now (run_id run) p d1 else Inr d1") (simp_all add: process_stage_def Let_def)
  have rest: "(if ?ea \<and> st_role stage = ''author'' then
       andthen (maybe_append_cross_check fund run stage ?tp d2) (\<lambda>extra.
         case extra of None \<Rightarrow> Inr (d2, if fl then [] else p)
          | Some s \<Rightarrow> if af then andthen (add_stages now (run_id run) [s] d2) (\<lambda>d3. Inr (d3, if fl then [] else p))
                     else Inr (d2, (if fl then [] else p) @ [s]))
     else Inr (d2, if fl then [] else p)) = Inr y"
    using assms(2) True reg flush by (simp add: x process_stage_def Let_def)
  let ?left = "if fl then [] else p"
  have fr: "ledger_frame x0 d1" by (rule register_predictions_frame [OF reg])
  have k1: "?keeps (d2, ?left)"
  proof (cases fl)
    case True
    with flush have "add_stages now (run_id run) p d1 = Inr d2" by simp
    from loop_keeps_flush [OF assms(1) [unfolded x] this fr p(1)] p(2) True show ?thesis by simp
  next
    case False
    with flush fr assms(1) show ?thesis by (auto simp: x loop_keeps_def ledger_frame_def)
  qed
  show ?thesis
  proof (cases "?ea \<and> st_role stage = ''author''")
    case False
    with rest have "y = (d2, ?left)" by (simp only: if_False sum.inject)
    with k1 show ?thesis by (simp only:)
  next
    case ea: True
    with rest obtain extra where app: "maybe_append_cross_check fund run stage ?tp d2 = Inr extra"
      and y: "(case extra of None \<Rightarrow> Inr (d2, ?left)
          | Some s \<Rightarrow> if af then andthen (add_stages now (run_id run) [s] d2) (\<lambda>d3. Inr (d3, ?left))
                     else Inr (d2, ?left @ [s])) = Inr y"
      by (cases "maybe_append_cross_check fund run stage ?tp d2") simp_all
    show ?thesis
    proof (cases extra)
      case None
      with y have "y = (d2, ?left)" by (simp only: option.case sum.inject)
      with k1 show ?thesis by (simp only:)
    next
      case (Some s)
      with app have "cross_check_stage fund run stage d2 = Inr s"
        by (auto simp: maybe_append_cross_check_def Let_def andthen_Inr_iff split: if_splits)
      then have role: "si_role s = ''cross_check''" by (auto simp: cross_check_stage_def andthen_Inr_iff)
      show ?thesis
      proof (cases af)
        case True
        with p(2) y Some obtain d3 where d3: "add_stages now (run_id run) [s] d2 = Inr d3" "y = (d3, [])"
          by (auto simp: andthen_Inr_iff)
        have "ledger_frame d2 d2" by (simp add: ledger_frame_def)
        from loop_keeps_flush [OF k1 d3(1) this] role ea d3(2) show ?thesis by simp
      next
        case False
        with y Some have "y = (d2, ?left @ [s])" by simp
        with k1 role ea False show ?thesis by (simp add: loop_keeps_def)
      qed
    qed
  qed
qed

text \<open>
  C8.  An advance leaves a running run in exactly one place, judged on the stages its last query
  returns: failed as soon as one of them failed for good, requeued while one waits for its backoff,
  waiting for the PM when the run overspent or when an initiation is complete, running while work is
  left, and succeeded otherwise.  The query returns the stages the runner left, and after them
  cross-checks this advance added: no other stage is ever added, none at all but to an event
  analysis, and with an autoflushing session the query sees every one (without, it can miss the last
  ones: C28).  The ticker's lock is released exactly when the run has ended.  (A lead review or a
  distillation therefore ends succeeded, without the lead_change or doctrine_amendment gate of
  specs/SPEC-CORE.md 3.5: \<open>finalize_run\<close> knows the gate of an initiation only.)
\<close>

theorem advance_run_exact:
  assumes "advance_run tf af now runner fund i d = Inr d'"
    and "get_run i d = Some run" and "run_status run = RS_Running"
    and "runner d = Inr d1" and "get_run i d1 = Some run1" and "run_status run1 = RS_Running"
    and "distinct (map lk_coverage (t_locks d1))"
  shows "\<exists>seen added late run'.
     seen = run_stages i d1 @ added \<and> run_stages i d' = seen @ late \<and>
     list_all (\<lambda>s. st_role s = ''cross_check'' \<and> st_status s = SS_Queued) (added @ late) \<and>
     (run_type run \<noteq> RT_Event_Analysis \<longrightarrow> added @ late = []) \<and> (af \<longrightarrow> late = []) \<and>
     get_run i d' = Some run' \<and>
     run_status run' =
       (if list_ex (\<lambda>s. st_status s = SS_Failed) seen then RS_Failed
        else if list_ex (backoff_pending now) seen then RS_Queued
        else if run_over_budget run1 then RS_Waiting_PM
        else if \<not> list_all (\<lambda>s. st_status s \<in> {SS_Succeeded, SS_Failed, SS_Skipped}) seen then RS_Running
        else if run_type run1 = RT_Initiation \<and> coverage_of_run run1 d1 \<noteq> None then RS_Waiting_PM
        else RS_Succeeded) \<and>
     (\<forall>c. lock_owner c d' = (if run_status run' \<in> {RS_Failed, RS_Succeeded} \<and> lock_owner c d1 = Some i
                            then None else lock_owner c d1))"
proof -
  let ?ea = "run_type run = RT_Event_Analysis"
  have id: "run_id run = i" using assms(2) by (simp add: run_tab.fetch_SomeD)
  from assms(1-4) obtain d2 p d3 where
    fold: "fold_err (process_stage tf af now fund run) (run_stages i d1) (d1, []) = Inr (d2, p)"
    and add: "add_stages now i p d2 = Inr d3" and settle: "settle_run tf now i (run_stages i d2) d3 = Inr d'"
    by (auto simp: advance_run_def andthen_Inr_iff)
  have "loop_keeps ?ea af i d1 (d1, [])" by (auto simp: loop_keeps_def cross_checks_def)
  with fold have k2: "loop_keeps ?ea af i d1 (d2, p)"
    by (rule fold_err_invariant) (rule process_stage_keeps [of run, unfolded id])
  then obtain added where added: "t_stages d2 = t_stages d1 @ added" "cross_checks i added" "\<not> ?ea \<longrightarrow> added = []"
    and p: "list_all (\<lambda>s. si_role s = ''cross_check'') p" "af \<or> \<not> ?ea \<longrightarrow> p = []"
    and fr2: "t_runs d2 = t_runs d1" "t_locks d2 = t_locks d1" "t_coverage d2 = t_coverage d1"
    by (auto simp: loop_keeps_def)
  obtain late where late: "t_stages d3 = t_stages d2 @ late" "map stage_shape late = map planned_shape p"
    "list_all (\<lambda>x. st_run x = i \<and> st_status x = SS_Queued) late"
    using add_stages_rows [OF add] by blast
  have "map st_role late = map si_role p"
    using arg_cong [OF late(2), of "map (\<lambda>(_, r, _). r)"] by (simp add: o_def stage_shape_def planned_shape_def)
  then have "list_all (\<lambda>r. r = ''cross_check'') (map st_role late)" using p(1) by (simp add: list_all_iff)
  with late(3) have cc: "cross_checks i late" by (simp add: cross_checks_def list_all_iff)
  have "length late = length p" using arg_cong [OF late(2), of length] by simp
  with p(2) have nolate: "af \<or> \<not> ?ea \<longrightarrow> late = []" by auto
  have own: "run_stages i x = run_stages i y @ zs" if "t_stages x = t_stages y @ zs" "cross_checks i zs" for x y zs
    using that by (auto simp: run_stages_def cross_checks_def list_all_iff intro!: filter_True)
  have fr3: "t_runs d3 = t_runs d1" "t_locks d3 = t_locks d1" "t_coverage d3 = t_coverage d1"
    using add_stages_frame [OF add] fr2 by auto
  have st': "run_stages i d' = run_stages i d2 @ late"
    using settle_run_stages [OF settle] own [OF late(1) cc] by (simp add: run_stages_def)
  have g3: "get_run i d3 = Some run1" using assms(5) fr3 by (simp add: get_run_def)
  have cov: "coverage_of_run run1 d3 = coverage_of_run run1 d1" by (rule coverage_of_run_same) (rule fr3)
  have lo: "lock_owner c d3 = lock_owner c d1" for c using fr3 by (simp add: lock_owner_def)
  have dist: "distinct (map lk_coverage (t_locks d3))" using assms(7) fr3 by simp
  obtain run' where r': "get_run i d' = Some run'"
    "run_status run' = settled_status now (run_stages i d2) run1 (coverage_of_run run1 d1 \<noteq> None)"
    "\<forall>c. lock_owner c d' = (if run_status run' \<in> {RS_Failed, RS_Succeeded} \<and> lock_owner c d1 = Some i
                            then None else lock_owner c d1)"
    using settle_run_status [OF settle g3 assms(6) dist] unfolding cov lo by (elim exE conjE) (rule that)
  have ta: "set STAGE_TERMINAL = {SS_Succeeded, SS_Failed, SS_Skipped}" by (simp add: STAGE_TERMINAL_def)
  have all: "list_all (\<lambda>s. st_role s = ''cross_check'' \<and> st_status s = SS_Queued) (added @ late)"
    using added(2) cc by (auto simp: cross_checks_def list_all_iff)
  show ?thesis
    by (intro exI [of _ "run_stages i d2"] exI [of _ added] exI [of _ late] exI [of _ run'] conjI)
      (use own [OF added(1,2)] st' all added(3) nolate r' in \<open>simp_all add: settled_status_def ta\<close>)
qed

section \<open>A retried initiation that is promoted\<close>

lemma initiating_entered_by:
  assumes "Coverage_SM.transition (Some s) a ctx = Inr tr" and "ct_to tr = CS_Initiating"
  shows "s = CS_Proposed \<and> a = Act_Start_Initiation \<or> s = CS_Failed \<and> a = Act_Retry_Initiation"
  using assms by (auto simp: transition_def ENTRIES_def andthen_Inr_iff split: if_splits)

lemma finalize_needs_initiating:
  assumes "get_run i d = Some run" and "run_type run = RT_Initiation" and "coverage_of_run run d = Some cov"
    and "cov_state cov \<noteq> CS_Initiating"
  shows "finalize_run now i d = Inl (IllegalTransition (Some (cov_state cov)) Act_Initiation_Delivered
       ''not a legal transition from this state'')"
proof -
  obtain c where c: "run_coverage run = Some c" "get_coverage c d = Some cov"
    using assms(3) by (auto simp: coverage_of_run_def split: option.splits)
  then have id: "cov_id cov = c" by (simp add: coverage_tab.fetch_SomeD)
  have "transition_coverage now c Act_Initiation_Delivered AT_Run (show_nat i) (Some i) False None None d =
      Inl (IllegalTransition (Some (cov_state cov)) Act_Initiation_Delivered ''not a legal transition from this state'')"
    using c(2) deliver_needs_initiating [OF assms(4)] by (simp add: transition_coverage_def)
  then show ?thesis using assms(1,2) c by (simp add: finalize_run_def coverage_of_run_def id)
qed

text \<open>An initiation whose stages are done cannot be advanced while its ticker is not initiating.\<close>

lemma done_initiation_stuck:
  assumes "get_run i d = Some r0" and "run_status r0 = RS_Running" and "run_type r0 = RT_Initiation"
    and "runner d = Inr d1" and "get_run i d1 = Some run" and "run_type run = RT_Initiation"
    and "coverage_of_run run d1 = Some cov" and "cov_state cov \<noteq> CS_Initiating" and "\<not> run_over_budget run"
    and over: "\<forall>s \<in> set (run_stages i d1). st_status s \<in> {SS_Succeeded, SS_Skipped}"
  shows "advance_run tf af now runner fund i d \<noteq> Inr d'"
proof
  assume "advance_run tf af now runner fund i d = Inr d'"
  have id: "run_id r0 = i" using assms(1) by (simp add: run_tab.fetch_SomeD)
  from \<open>advance_run tf af now runner fund i d = Inr d'\<close> assms(1,2,4) obtain d2 p d3 where
    fold: "fold_err (process_stage tf af now fund r0) (run_stages i d1) (d1, []) = Inr (d2, p)"
    and add: "add_stages now i p d2 = Inr d3" and settle: "settle_run tf now i (run_stages i d2) d3 = Inr d'"
    by (auto simp: advance_run_def andthen_Inr_iff)
  let ?ea = "run_type r0 = RT_Event_Analysis"
  have "loop_keeps ?ea af i d1 (d1, [])" by (auto simp: loop_keeps_def cross_checks_def)
  with fold have "loop_keeps ?ea af i d1 (d2, p)"
    by (rule fold_err_invariant) (rule process_stage_keeps [of r0, unfolded id])
  then have st: "t_stages d2 = t_stages d1" and "p = []"
    and fr: "t_runs d2 = t_runs d1" "t_coverage d2 = t_coverage d1"
    using assms(3) by (auto simp: loop_keeps_def)
  with add have d3: "d3 = d2" by (simp add: add_stages_def)
  have g: "get_run i d2 = Some run" using assms(5) fr by (simp add: get_run_def)
  have c: "coverage_of_run run d2 = Some cov" using assms(7) coverage_of_run_same [OF fr(2), of run] by simp
  have all: "\<forall>s \<in> set (run_stages i d2). st_status s \<in> {SS_Succeeded, SS_Skipped}"
    using over st by (simp add: run_stages_def)
  have "settle_run tf now i (run_stages i d2) d2 = finalize_run now i d2"
    using g assms(9) all by (auto simp: settle_run_def list_ex_iff list_all_iff backoff_pending_def STAGE_TERMINAL_def)
  with settle d3 finalize_needs_initiating [OF g assms(6) c assms(8)] show False by simp
qed

text \<open>
  C29.  An initiation is stuck unless its promotion moved the ticker to initiating, which it does only
  for a proposed ticker.  Promoting a queued initiation whose ticker is neither proposed nor already
  initiating (after a first initiation that failed, say) starts the run and leaves the ticker as it
  is.  From then on, whenever the ticker is not initiating, finalising the run raises whatever its
  stages delivered, and no advance that finds its stages done within the budget returns.  Only two
  transitions make a ticker initiating: the start from proposed, and the retry from failed, which no
  function of the program performs.
\<close>

theorem retried_initiation_cannot_finish:
  assumes "get_run i d = Some run" and "run_type run = RT_Initiation" and "coverage_of_run run d = Some cov"
    and "cov_state cov \<noteq> CS_Proposed" and "cov_state cov \<noteq> CS_Initiating"
    and "promote_run now i d = Inr (d', True)"
  shows "(\<exists>run'. get_run i d' = Some run' \<and> run_status run' = RS_Running \<and> run_type run' = RT_Initiation \<and>
        coverage_of_run run' d' = Some cov) \<and>
     t_coverage d' = t_coverage d \<and>
     (\<forall>later x r c. get_run i x = Some r \<and> run_type r = RT_Initiation \<and> coverage_of_run r x = Some c \<and>
        cov_state c \<noteq> CS_Initiating \<longrightarrow>
        finalize_run later i x = Inl (IllegalTransition (Some (cov_state c)) Act_Initiation_Delivered
          ''not a legal transition from this state'') \<and>
        (\<forall>tf af runner fund y r0 z. get_run i y = Some r0 \<and> run_status r0 = RS_Running \<and>
           run_type r0 = RT_Initiation \<and> runner y = Inr x \<and> \<not> run_over_budget r \<and>
           (\<forall>s \<in> set (run_stages i x). st_status s \<in> {SS_Succeeded, SS_Skipped}) \<longrightarrow>
           advance_run tf af later runner fund i y \<noteq> Inr z)) \<and>
     (\<forall>s a ctx tr. Coverage_SM.transition (Some s) a ctx = Inr tr \<and> ct_to tr = CS_Initiating \<longrightarrow>
        s = CS_Proposed \<and> a = Act_Start_Initiation \<or> s = CS_Failed \<and> a = Act_Retry_Initiation)"
proof (intro conjI)
  have started: "start_run now i d = Inr (d', True)"
    using assms(6)
  proof (cases rule: promote_runE)
    case (initiation r d1 cv)
    have "t_coverage d1 = t_coverage d" using start_run_frame [OF initiation(3)] by simp
    from coverage_of_run_same [OF this] have "coverage_of_run run d1 = Some cov" using assms(3) by simp
    with initiation(1,6,7) assms(1,4) show ?thesis by simp
  qed simp_all
  then show fr: "t_coverage d' = t_coverage d" by (simp add: start_run_frame)
  have run': "get_run i d' = Some (mark_started now run)"
    using started
  proof (cases rule: start_run_cases)
    case (free x)
    with assms(1) show ?thesis by (simp add: run_tab.fetch_mutate_same)
  next
    case (won x c)
    have "get_run i (insert_lock now c i d) = get_run i d" by (simp add: get_run_def)
    with won assms(1) show ?thesis by (simp add: run_tab.fetch_mutate_same)
  next
    case (lost x c)
    then show ?thesis by simp
  qed
  have "coverage_of_run (mark_started now run) d' = Some cov"
    using assms(3) coverage_of_run_same [OF fr, of run] by (simp add: coverage_of_run_def)
  with run' assms(2) show "\<exists>run'. get_run i d' = Some run' \<and> run_status run' = RS_Running \<and>
      run_type run' = RT_Initiation \<and> coverage_of_run run' d' = Some cov"
    by (intro exI [of _ "mark_started now run"]) simp
next
  show "\<forall>later x r c. get_run i x = Some r \<and> run_type r = RT_Initiation \<and> coverage_of_run r x = Some c \<and>
        cov_state c \<noteq> CS_Initiating \<longrightarrow>
        finalize_run later i x = Inl (IllegalTransition (Some (cov_state c)) Act_Initiation_Delivered
          ''not a legal transition from this state'') \<and>
        (\<forall>tf af runner fund y r0 z. get_run i y = Some r0 \<and> run_status r0 = RS_Running \<and>
           run_type r0 = RT_Initiation \<and> runner y = Inr x \<and> \<not> run_over_budget r \<and>
           (\<forall>s \<in> set (run_stages i x). st_status s \<in> {SS_Succeeded, SS_Skipped}) \<longrightarrow>
           advance_run tf af later runner fund i y \<noteq> Inr z)"
    by (intro allI impI conjI; elim conjE; (rule finalize_needs_initiating | rule done_initiation_stuck)) assumption+
  show "\<forall>s a ctx tr. Coverage_SM.transition (Some s) a ctx = Inr tr \<and> ct_to tr = CS_Initiating \<longrightarrow>
        s = CS_Proposed \<and> a = Act_Start_Initiation \<or> s = CS_Failed \<and> a = Act_Retry_Initiation"
    by (intro allI impI) (elim conjE, rule initiating_entered_by)
qed

section \<open>Witnesses\<close>

lemma ok4D: "(case m of Inl _ \<Rightarrow> False | Inr (a, b, c, d) \<Rightarrow> P a b c d) \<Longrightarrow> \<exists>a b c d. m = Inr (a, b, c, d) \<and> P a b c d"
  by (cases m) auto

definition target_result :: "rat \<Rightarrow> json_obj" where
  "target_result v = [(''predictions'', JArr [JObj [(''kind'', JStr ''target_price''), (''value'', JNum v),
     (''currency'', JStr ''JPY''), (''horizon_date'', JStr ''2027-01-01'')]])]"

text \<open>A ticker whose first event analysis set a target of 100 and whose second sets one of 200.\<close>

definition sample_material :: "error + (db \<times> uuid \<times> db \<times> db)" where
  "sample_material =
     andthen (propose_coverage 1 sample_propose sample_desk) (\<lambda>(d1, c).
     andthen (create_run 2 sample_fund ''event_analysis'' (Some c)
                (default_engine_run_in\<lparr>er_params := [(''lead'', JStr ''gpt'')]\<rparr>) d1) (\<lambda>(d2, _).
     andthen (tick sample_texts False 3 (work_stages 3 (target_result 100) 1) sample_fund d2) (\<lambda>d3.
     andthen (create_run 4 sample_fund ''event_analysis'' (Some c)
                (default_engine_run_in\<lparr>er_params := [(''lead'', JStr ''gpt'')]\<rparr>) d3) (\<lambda>(d4, r).
     andthen (promote_run 5 (run_id r) d4) (\<lambda>(d5, _).
     andthen (work_stages 6 (target_result 200) 1 d5) (\<lambda>d6.
     andthen (advance_run sample_texts False 6 (work_stages 6 (target_result 200) 1) sample_fund (run_id r) d5) (\<lambda>d7.
     Inr (d5, run_id r, d6, d7))))))))"

definition material_case :: "db \<Rightarrow> uuid \<Rightarrow> db \<Rightarrow> bool" where
  "material_case d i d1 = (case (get_run i d, get_run i d1, run_stages i d1) of
     (Some run, Some run1, [a]) \<Rightarrow>
       run_status run = RS_Running \<and> run_type run = RT_Event_Analysis \<and> run_status run1 = RS_Running \<and>
       run_type run1 = RT_Event_Analysis \<and> \<not> run_over_budget run1 \<and> st_role a = ''author'' \<and>
       st_status a = SS_Succeeded \<and> stage_result a \<noteq> [] \<and>
       auto_cross_check (stage_result a) (last_target_price (run_coverage run) d1) JNull None
         (cx_tp_change_pct (fu_cross_check sample_fund)) (cx_stance_change (fu_cross_check sample_fund))
         (cx_thesis_tripwire (fu_cross_check sample_fund)) = Inr True
   | _ \<Rightarrow> False)"

lemma sample_material_ok: "case sample_material of Inl _ \<Rightarrow> False | Inr (d, i, d1, d') \<Rightarrow> material_case d i d1"
  by code_simp

theorem cross_check_needs_flush_witness:
  "\<exists>d i d1 d' run' x. sample_material = Inr (d, i, d1, d') \<and> get_run i d' = Some run' \<and>
     run_status run' = RS_Succeeded \<and> x \<in> set (t_stages d') \<and> st_role x = ''cross_check'' \<and>
     st_status x = SS_Queued \<and> \<not> claimable d' 1000 x"
proof -
  obtain d i d1 d' where m: "sample_material = Inr (d, i, d1, d')" and c: "material_case d i d1"
    using ok4D [OF sample_material_ok] by (elim exE conjE) (rule that)
  from m have w: "work_stages 6 (target_result 200) 1 d = Inr d1"
    and adv: "advance_run sample_texts False 6 (work_stages 6 (target_result 200) 1) sample_fund i d = Inr d'"
    unfolding sample_material_def by (auto simp: andthen_Inr_iff)
  from c obtain run run1 a where r: "get_run i d = Some run" "get_run i d1 = Some run1" "run_stages i d1 = [a]"
    and rest: "run_status run = RS_Running" "run_type run = RT_Event_Analysis" "run_status run1 = RS_Running"
       "run_type run1 = RT_Event_Analysis" "\<not> run_over_budget run1" "st_role a = ''author''"
       "st_status a = SS_Succeeded" "stage_result a \<noteq> []"
       "auto_cross_check (stage_result a) (last_target_price (run_coverage run) d1) JNull None
         (cx_tp_change_pct (fu_cross_check sample_fund)) (cx_stance_change (fu_cross_check sample_fund))
         (cx_thesis_tripwire (fu_cross_check sample_fund)) = Inr True"
    by (auto simp: material_case_def split: option.splits list.splits)
  obtain run' x where x: "get_run i d' = Some run'" "run_status run' = RS_Succeeded" "x \<in> set (t_stages d')"
    "st_role x = ''cross_check''" "st_status x = SS_Queued" "\<not> claimable d' 1000 x"
    using cross_check_needs_flush [OF r(1) rest(1,2) w r(2) rest(3-5) r(3) rest(6-9) adv, of 1000]
    by (elim exE conjE) (rule that, simp_all)
  with m show ?thesis by (intro exI conjI)
qed

text \<open>A first initiation whose author fails for good, and a second one.\<close>

definition sample_retry :: "error + (db \<times> uuid \<times> db \<times> db)" where
  "sample_retry = andthen sample_initiated (\<lambda>(d0, c, r).
     andthen (promote_run 3 r d0) (\<lambda>(d1, _).
     andthen (fail_run 4 r ''stage failed'' d1) (\<lambda>d2.
     andthen (create_run 5 sample_fund ''initiation'' (Some c)
                (default_engine_run_in\<lparr>er_params := [(''lead'', JStr ''gpt'')]\<rparr>) d2) (\<lambda>(d3, r2).
     andthen (promote_run 6 (run_id r2) d3) (\<lambda>(d4, ok).
     Inr (d3, run_id r2, d4, d4))))))"

definition retry_case :: "db \<Rightarrow> uuid \<Rightarrow> bool" where
  "retry_case d i = (case get_run i d of
     Some run \<Rightarrow> run_type run = RT_Initiation \<and>
       (case coverage_of_run run d of Some cov \<Rightarrow> cov_state cov = CS_Failed | None \<Rightarrow> False) \<and>
       (case promote_run 6 i d of Inr (_, True) \<Rightarrow> True | _ \<Rightarrow> False)
   | None \<Rightarrow> False)"

lemma sample_retry_ok: "case sample_retry of Inl _ \<Rightarrow> False | Inr (d, i, d1, d') \<Rightarrow> retry_case d i"
  by code_simp

theorem retried_initiation_cannot_finish_witness:
  "\<exists>d i d1 d2. sample_retry = Inr (d, i, d1, d2) \<and> (\<exists>d'. promote_run 6 i d = Inr (d', True) \<and>
     finalize_run 7 i d' = Inl (IllegalTransition (Some CS_Failed) Act_Initiation_Delivered
       ''not a legal transition from this state''))"
proof -
  obtain d i d1 d2 where m: "sample_retry = Inr (d, i, d1, d2)" and c: "retry_case d i"
    using ok4D [OF sample_retry_ok] by (elim exE conjE) (rule that)
  from c obtain run cov d' where r: "get_run i d = Some run" "run_type run = RT_Initiation"
    "coverage_of_run run d = Some cov" and st: "cov_state cov = CS_Failed" and p: "promote_run 6 i d = Inr (d', True)"
    by (auto simp: retry_case_def split: option.splits sum.splits bool.splits)
  have "cov_state cov \<noteq> CS_Proposed" "cov_state cov \<noteq> CS_Initiating" by (simp_all add: st)
  note stuck = retried_initiation_cannot_finish [OF r this p]
  obtain run' where r': "get_run i d' = Some run'" "run_type run' = RT_Initiation" "coverage_of_run run' d' = Some cov"
    using stuck [THEN conjunct1] by (elim exE conjE) (rule that)
  have "finalize_run 7 i d' = Inl (IllegalTransition (Some (cov_state cov)) Act_Initiation_Delivered
       ''not a legal transition from this state'')"
    using stuck [THEN conjunct2, THEN conjunct2, THEN conjunct1, rule_format, of d' run' cov 7] r' st by simp
  with m p st show ?thesis by (intro exI conjI) simp_all
qed

theorem created_run_exact_witness:
  "\<exists>d c r (run :: run_row). sample_initiated = Inr (d, c, r) \<and> run_id run = r \<and> run_status run = RS_Queued \<and>
     list_all (\<lambda>s. st_status s = SS_Queued) (run_stages r d)"
proof -
  obtain d0 d c r where i: "sample_initiated = Inr (d0, c, r)" by (rule sample_tickedE)
  then obtain d1 run where p: "propose_coverage 1 sample_propose sample_desk = Inr (d1, c)"
    and e: "create_run 2 sample_fund ''initiation'' (Some c)
                (default_engine_run_in\<lparr>er_params := [(''lead'', JStr ''gpt'')]\<rparr>) d1 = Inr (d0, run)" and r: "r = run_id run"
    unfolding sample_initiated_def by (auto simp: andthen_Inr_iff)
  have "t_stages d1 = []"
    using p by (rule propose_coverageE) (auto dest!: record_transition_frame simp: new_id_def sample_desk_def empty_db_def)
  then have none: "\<forall>s \<in> set (t_stages d1). st_run s \<noteq> next_id d1" by simp
  from created_run_exact [OF e none] have "run_status run = RS_Queued"
    "list_all (\<lambda>s. st_status s = SS_Queued) (run_stages r d0)" by (auto simp: r list_all_iff)
  with i r [symmetric] have "sample_initiated = Inr (d0, c, r) \<and> run_id run = r \<and> run_status run = RS_Queued \<and>
     list_all (\<lambda>s. st_status s = SS_Queued) (run_stages r d0)" by (intro conjI)
  then show ?thesis by (intro exI)
qed

text \<open>An initiation advanced by a runner that completes one stage, and by one that completes all four.\<close>

definition sample_advances :: "error + (db \<times> uuid)" where
  "sample_advances = andthen sample_initiated (\<lambda>(d0, c, r).
     andthen (promote_run 3 r d0) (\<lambda>(d, _). Inr (d, r)))"

definition advance_case :: "nat \<Rightarrow> run_status \<Rightarrow> db \<Rightarrow> uuid \<Rightarrow> bool" where
  "advance_case n st d i =
     (case (get_run i d, work_stages 3 [(''status'', JStr ''completed'')] n d,
            advance_run sample_texts False 3 (work_stages 3 [(''status'', JStr ''completed'')] n) sample_fund i d) of
        (Some run, Inr d1, Inr d') \<Rightarrow> run_status run = RS_Running \<and> run_type run = RT_Initiation \<and>
          distinct (map lk_coverage (t_locks d1)) \<and>
          (case get_run i d1 of None \<Rightarrow> False | Some run1 \<Rightarrow> run_status run1 = RS_Running \<and>
             settled_status 3 (run_stages i d1) run1 (coverage_of_run run1 d1 \<noteq> None) = st)
      | _ \<Rightarrow> False)"

lemma sample_advances_ok:
  "case sample_advances of Inl _ \<Rightarrow> False
   | Inr (d, i) \<Rightarrow> advance_case 1 RS_Running d i \<and> advance_case 4 RS_Waiting_PM d i"
  by code_simp

theorem advance_run_exact_witness:
  "\<exists>d i d1 d4 run1 run4. sample_advances = Inr (d, i) \<and>
     advance_run sample_texts False 3 (work_stages 3 [(''status'', JStr ''completed'')] 1) sample_fund i d = Inr d1 \<and>
     get_run i d1 = Some run1 \<and> run_status run1 = RS_Running \<and>
     advance_run sample_texts False 3 (work_stages 3 [(''status'', JStr ''completed'')] 4) sample_fund i d = Inr d4 \<and>
     get_run i d4 = Some run4 \<and> run_status run4 = RS_Waiting_PM"
proof -
  have reached: "\<exists>d' run'. advance_run sample_texts False 3 (work_stages 3 [(''status'', JStr ''completed'')] n)
      sample_fund i d = Inr d' \<and> get_run i d' = Some run' \<and> run_status run' = st"
    if c: "advance_case n st d i" for n st d i
  proof -
    from c obtain run run1 d1 d' where
      adv: "advance_run sample_texts False 3 (work_stages 3 [(''status'', JStr ''completed'')] n) sample_fund i d = Inr d'"
      and r: "get_run i d = Some run" "run_status run = RS_Running"
        "work_stages 3 [(''status'', JStr ''completed'')] n d = Inr d1" "get_run i d1 = Some run1"
        "run_status run1 = RS_Running" "distinct (map lk_coverage (t_locks d1))"
      and rest: "run_type run = RT_Initiation"
        "settled_status 3 (run_stages i d1) run1 (coverage_of_run run1 d1 \<noteq> None) = st"
      by (auto simp: advance_case_def split: option.splits sum.splits)
    from advance_run_exact [OF adv r] obtain seen added late run' where
      a: "seen = run_stages i d1 @ added" "run_type run \<noteq> RT_Event_Analysis \<longrightarrow> added @ late = []"
         "get_run i d' = Some run'"
      and st: "run_status run' =
       (if list_ex (\<lambda>s. st_status s = SS_Failed) seen then RS_Failed
        else if list_ex (backoff_pending 3) seen then RS_Queued
        else if run_over_budget run1 then RS_Waiting_PM
        else if \<not> list_all (\<lambda>s. st_status s \<in> {SS_Succeeded, SS_Failed, SS_Skipped}) seen then RS_Running
        else if run_type run1 = RT_Initiation \<and> coverage_of_run run1 d1 \<noteq> None then RS_Waiting_PM
        else RS_Succeeded)"
      by (elim exE conjE) (rule that)
    have "seen = run_stages i d1" using a(1,2) rest(1) by simp
    then have "run_status run' = settled_status 3 (run_stages i d1) run1 (coverage_of_run run1 d1 \<noteq> None)"
      unfolding st settled_status_def by (simp add: STAGE_TERMINAL_def)
    with adv a(3) rest(2) show ?thesis by (intro exI conjI) simp_all
  qed
  obtain d i where s: "sample_advances = Inr (d, i)" and c: "advance_case 1 RS_Running d i" "advance_case 4 RS_Waiting_PM d i"
    using ok2D [OF sample_advances_ok] by (elim exE conjE) (rule that)
  show ?thesis using s reached [OF c(1)] reached [OF c(2)] by (elim exE conjE) (intro exI conjI)
qed

definition sample_requeued :: "error + (db \<times> uuid \<times> db \<times> db)" where
  "sample_requeued = andthen sample_material (\<lambda>(d, i, _, _).
     andthen (requeue_run i ''backoff'' d) (\<lambda>d1. Inr (d, i, d1, d1)))"

definition requeue_case :: "db \<Rightarrow> uuid \<Rightarrow> bool" where
  "requeue_case d i = (case get_run i d of None \<Rightarrow> False
     | Some run \<Rightarrow> run_type run \<noteq> RT_Initiation \<and> run_mutates run \<and>
         (case run_coverage run of None \<Rightarrow> False | Some c \<Rightarrow> lock_owner c d = Some i))"

lemma sample_requeued_ok: "case sample_requeued of Inl _ \<Rightarrow> False | Inr (d, i, d1, d') \<Rightarrow> requeue_case d i"
  by code_simp

theorem requeued_run_restarts_at_once_witness:
  "\<exists>d i d1 d2 run'. sample_requeued = Inr (d, i, d1, d1) \<and> promote_run 6 i d1 = Inr (d2, True) \<and>
     get_run i d2 = Some run' \<and> run_status run' = RS_Running"
proof -
  obtain d i d1 dx where m: "sample_requeued = Inr (d, i, d1, dx)" and c: "requeue_case d i"
    using ok4D [OF sample_requeued_ok] by (elim exE conjE) (rule that)
  from m have q: "requeue_run i ''backoff'' d = Inr d1" and dx: "dx = d1"
    unfolding sample_requeued_def by (auto simp: andthen_Inr_iff)
  from c obtain run k where r: "get_run i d = Some run" "run_type run \<noteq> RT_Initiation"
    "run_coverage run = Some k" "lock_owner k d = Some i"
    by (auto simp: requeue_case_def split: option.splits)
  have "\<exists>d2 run'. promote_run 6 i d1 = Inr (d2, True) \<and> get_run i d2 = Some run' \<and>
     run_status run' = RS_Running \<and> t_stages d2 = t_stages d"
    by (rule requeued_run_restarts_at_once [OF q r(1)]) (use r in auto)
  then obtain d2 run' where "promote_run 6 i d1 = Inr (d2, True)" "get_run i d2 = Some run'"
    "run_status run' = RS_Running" by (elim exE conjE) (rule that)
  with m [unfolded dx] show ?thesis by (intro exI conjI)
qed

theorem drain_terminates_witness:
  "\<exists>rn d k. drain False 10 0 ''w'' 300 0 new_runner sample_db = Some (Inr (rn, d, k)) \<and> k \<le> 6 \<and>
     claim_candidates d 10 [] None None = []"
proof -
  have "attempts_left (t_stages sample_db) = 6" "fr_hang_roles new_runner = []"
    by (simp_all add: attempts_left_def sample_simps new_runner_def)
  with drain_terminates [OF sample_queue_inv, of False 10 0 "''w''" 300 0 new_runner] show ?thesis by auto
qed

end
