(* ===== verification/Jobs.thy ===== *)
theory Jobs
  imports Engine_Correct
begin

text \<open>
  \<open>core/scheduler/\<close>: the leader lock, the jobs and their log, the watchdog, the wrapper that runs
  a job in its own transaction, and the reading of the cron and exchange tables of fund.yaml.  The
  answer of \<open>pg_try_advisory_lock\<close> and the parsing of a cron expression (APScheduler) are
  parameters.  Jobs pending another specification raise, as in the code.
\<close>

section \<open>Leadership\<close>

definition ORCHESTRATOR_KEY :: int where "ORCHESTRATOR_KEY = 71001"

definition SCHEDULER_KEY :: int where "SCHEDULER_KEY = 71002"

text \<open>The injected predicate, whether the database is Postgres, and what the advisory lock answers per key.\<close>

record leader_env =
  le_is_leader :: "bool option"
  le_postgres :: bool
  le_granted :: "int \<Rightarrow> bool"

definition pg_try_advisory_lock :: "leader_env \<Rightarrow> int \<Rightarrow> bool" where
  "pg_try_advisory_lock le key = (if \<not> le_postgres le then True else le_granted le key)"

definition acquire_leader :: "leader_env \<Rightarrow> bool" where
  "acquire_leader le = (case le_is_leader le of
     Some b \<Rightarrow> b | None \<Rightarrow> pg_try_advisory_lock le SCHEDULER_KEY)"

section \<open>Dates\<close>

text \<open>\<open>timedelta(days=n)\<close>, and \<open>strftime("%Y-%m")\<close> of a time since the epoch (proleptic Gregorian).\<close>

definition days :: "int \<Rightarrow> time" where
  "days n = of_int (86400 * n)"

definition year_month :: "time \<Rightarrow> int \<times> int" where
  "year_month t =
     (let z = \<lfloor>t / 86400\<rfloor> + 719468; era = z div 146097; doe = z mod 146097;
          yoe = (doe - doe div 1460 + doe div 36524 - doe div 146096) div 365;
          doy = doe - (365 * yoe + yoe div 4 - yoe div 100);
          mp = (5 * doy + 2) div 153;
          mo = (if mp < 10 then mp + 3 else mp - 9)
      in (yoe + era * 400 + (if mo \<le> 2 then 1 else 0), mo))"

definition pad0 :: "nat \<Rightarrow> string \<Rightarrow> string" where
  "pad0 n s = replicate (n - length s) CHR ''0'' @ s"

definition month_text :: "time \<Rightarrow> string" where
  "month_text t = (let (y, mo) = year_month t in pad0 4 (show_nat (nat y)) @ ''-'' @ pad0 2 (show_nat (nat mo)))"

section \<open>The job log\<close>

definition has_run :: "uuid \<Rightarrow> string \<Rightarrow> string \<Rightarrow> db \<Rightarrow> bool" where
  "has_run c ty ref d \<longleftrightarrow>
     list_ex (\<lambda>r. run_coverage r = Some c \<and> run_type_value (run_type r) = ty \<and> run_trigger_ref r = Some ref) (t_runs d)"

definition log_job :: "time \<Rightarrow> string \<Rightarrow> string \<Rightarrow> nat \<Rightarrow> string option \<Rightarrow> db \<Rightarrow> db" where
  "log_job now name status created detail d =
     d\<lparr>t_joblog := t_joblog d @ [\<lparr>jl_job = name, jl_status = status, jl_detail = detail,
         jl_runs_created = created, jl_scheduled_for = None, jl_created_at = now\<rparr>]\<rparr>"

section \<open>Jobs that create runs\<close>

text \<open>The body of the loops: skip a ticker that has the run, otherwise create it and count it.\<close>

definition spawn_once ::
  "time \<Rightarrow> fund_config \<Rightarrow> string \<Rightarrow> json_obj \<Rightarrow> string \<Rightarrow> uuid \<Rightarrow> db \<times> nat \<Rightarrow> error + (db \<times> nat)" where
  "spawn_once now fund ty params ref c = (\<lambda>(d, n).
     if has_run c ty ref d then Inr (d, n)
     else andthen (create_run now fund ty (Some c)
            (default_engine_run_in\<lparr>er_trigger := ''scheduler'', er_params := params, er_trigger_ref := Some ref\<rparr>) d)
            (\<lambda>(d1, _). Inr (d1, Suc n)))"

definition coverage_where :: "(coverage_row \<Rightarrow> bool) \<Rightarrow> db \<Rightarrow> coverage_row list" where
  "coverage_where P d = filter P (t_coverage d)"

definition session_ref :: "string \<Rightarrow> string \<Rightarrow> string \<Rightarrow> string" where
  "session_ref exchange trading_date session_name =
     ''session_tick:'' @ exchange @ '':'' @ trading_date @ '':'' @ session_name"

definition session_tick ::
  "leader_env \<Rightarrow> time \<Rightarrow> fund_config \<Rightarrow> string \<Rightarrow> string \<Rightarrow> string \<Rightarrow> db \<Rightarrow> error + (db \<times> nat)" where
  "session_tick le now fund exchange trading_date session_name d =
     (if \<not> acquire_leader le then Inr (d, 0)
      else
        let name = ''session_tick:'' @ exchange; ref = session_ref exchange trading_date session_name;
            d1 = log_job now name ''started'' 0 None d in
        andthen (fold_err (\<lambda>cov. spawn_once now fund ''monitor_tick'' [] ref (cov_id cov))
                  (coverage_where (\<lambda>c. cov_exchange c = exchange \<and> cov_state c = CS_Active) d1) (d1, 0)) (\<lambda>(d2, n).
        Inr (log_job now name ''succeeded'' n None d2, n)))"

definition watch_tick :: "leader_env \<Rightarrow> time \<Rightarrow> fund_config \<Rightarrow> string \<Rightarrow> db \<Rightarrow> error + (db \<times> nat)" where
  "watch_tick le now fund trading_date d =
     (if \<not> acquire_leader le then Inr (d, 0)
      else
        let ref = ''watch_tick:'' @ trading_date in
        andthen (fold_err (\<lambda>cov. spawn_once now fund ''monitor_tick'' [(''news_only'', JBool True)] ref (cov_id cov))
                  (coverage_where (\<lambda>c. cov_state c = CS_Watch) d) (d, 0)) (\<lambda>(d1, n).
        Inr (log_job now ''watch_tick'' ''succeeded'' n None d1, n)))"

definition reviewed_since :: "time \<Rightarrow> uuid \<Rightarrow> db \<Rightarrow> bool" where
  "reviewed_since cutoff c d \<longleftrightarrow>
     list_ex (\<lambda>r. run_coverage r = Some c \<and> run_type r = RT_Deep_Review \<and> cutoff \<le> run_created_at r) (t_runs d)"

definition sweep_ref :: "coverage_row \<Rightarrow> time \<Rightarrow> string" where
  "sweep_ref cov now = ''quarterly_sweep:'' @ cov_dossier_slug cov @ '':'' @ month_text now"

definition sweep_step :: "time \<Rightarrow> fund_config \<Rightarrow> time \<Rightarrow> coverage_row \<Rightarrow> db \<times> nat \<Rightarrow> error + (db \<times> nat)" where
  "sweep_step now fund cutoff cov = (\<lambda>(d, n).
     if reviewed_since cutoff (cov_id cov) d then Inr (d, n)
     else spawn_once now fund ''deep_review'' [] (sweep_ref cov now) (cov_id cov) (d, n))"

definition quarterly_sweep :: "leader_env \<Rightarrow> time \<Rightarrow> fund_config \<Rightarrow> int \<Rightarrow> db \<Rightarrow> error + (db \<times> nat)" where
  "quarterly_sweep le now fund stale_days d =
     (if \<not> acquire_leader le then Inr (d, 0)
      else
        let cutoff = now - days stale_days in
        andthen (fold_err (sweep_step now fund cutoff) (coverage_where (\<lambda>c. cov_state c = CS_Active) d) (d, 0)) (\<lambda>(d1, n).
        Inr (log_job now ''quarterly_sweep'' ''succeeded'' n None d1, n)))"

section \<open>Retention\<close>

text \<open>\<open>int(v)\<close>: a float is cut towards zero, a text must be a numeral.\<close>

definition to_int :: "json \<Rightarrow> error + int" where
  "to_int v = (case v of
     JNum q \<Rightarrow> Inr (if 0 \<le> q then \<lfloor>q\<rfloor> else \<lceil>q\<rceil>)
   | JBool b \<Rightarrow> Inr (if b then 1 else 0)
   | JStr s \<Rightarrow> (let (sg, t) = signed s; (a, n, rest) = digits t 0 0
                in if n = 0 \<or> rest \<noteq> [] then Inl (ValueError ''invalid literal for int() with base 10'')
                   else Inr (if sg < 0 then - int a else int a))
   | _ \<Rightarrow> Inl (TypeError ''int() argument must be a string or a real number''))"

definition retention :: "leader_env \<Rightarrow> time \<Rightarrow> fund_config \<Rightarrow> db \<Rightarrow> error + (db \<times> nat)" where
  "retention le now fund d =
     (if \<not> acquire_leader le then Inr (d, 0)
      else
        andthen (to_int (get_default (fu_retention fund) ''news_days'' (JNum 180))) (\<lambda>news_days.
        andthen (to_int (get_default (fu_retention fund) ''idempotency_days'' (JNum 30))) (\<lambda>idem_days.
        let expired = (\<lambda>k. ik_expires_at k < now - days idem_days);
            aged = (\<lambda>a. nw_created_at a < now - days news_days);
            n = length (filter expired (t_idem d)) + length (filter aged (t_news d));
            d1 = d\<lparr>t_idem := filter (\<lambda>k. \<not> expired k) (t_idem d),
                   t_news := filter (\<lambda>a. \<not> aged a) (t_news d)\<rparr> in
        Inr (log_job now ''retention'' ''succeeded'' 0 (Some (''deleted '' @ show_nat n @ '' rows'')) d1, n))))"

section \<open>Pending jobs and the registry\<close>

text \<open>The texts outside ASCII of the code's messages are spelled with its closest ASCII.\<close>

definition pending_job :: "string \<Rightarrow> error" where
  "pending_job spec = NotImplementedError (''scheduler job pending its owning spec: '' @ spec)"

definition earnings_sweep :: "db \<Rightarrow> error + (db \<times> nat)" where
  "earnings_sweep d = Inl (pending_job ''SPEC-MARKETDATA earnings calendar / data-source port (design/05 s.4)'')"

definition prediction_scoring :: "db \<Rightarrow> error + (db \<times> nat)" where
  "prediction_scoring d = Inl (pending_job ''SPEC-TRACKREC (s.6.1) -- the scoring math owns this'')"

definition lead_review_candidacy :: "db \<Rightarrow> error + (db \<times> nat)" where
  "lead_review_candidacy d = Inl (pending_job ''SPEC-TRACKREC track-record views (s.6.3)'')"

definition distillation :: "db \<Rightarrow> error + (db \<times> nat)" where
  "distillation d = Inl (pending_job ''SPEC-DISTILLATION (s.7.1) -- gates + citation rule own this'')"

definition cost_rollup :: "db \<Rightarrow> error + (db \<times> nat)" where
  "cost_rollup d = Inl (pending_job ''cost reconciliation (SPEC-RUNNER usage APIs / phase 7.2 cost port)'')"

definition JOBS :: "leader_env \<Rightarrow> time \<Rightarrow> fund_config \<Rightarrow> (string \<times> (db \<Rightarrow> error + (db \<times> nat))) list" where
  "JOBS le now fund =
     [(''earnings_sweep'', earnings_sweep), (''quarterly_sweep'', quarterly_sweep le now fund 90),
      (''prediction_scoring'', prediction_scoring), (''lead_review_candidacy'', lead_review_candidacy),
      (''distillation'', distillation), (''cost_rollup'', cost_rollup), (''retention'', retention le now fund)]"

definition job_names :: "string list" where
  "job_names = [''earnings_sweep'', ''quarterly_sweep'', ''prediction_scoring'', ''lead_review_candidacy'',
     ''distillation'', ''cost_rollup'', ''retention'']"

section \<open>The watchdog\<close>

definition last_success :: "string \<Rightarrow> db \<Rightarrow> time option" where
  "last_success job d =
     map_option jl_created_at (first_min (\<lambda>l. - jl_created_at l)
       (filter (\<lambda>l. jl_job l = job \<and> jl_status l = ''succeeded'') (t_joblog d)))"

definition schedule_watchdog :: "(string \<times> rat) list \<Rightarrow> time \<Rightarrow> db \<Rightarrow> string list" where
  "schedule_watchdog job_intervals now d =
     map fst (filter (\<lambda>(job, interval). case last_success job d of
       None \<Rightarrow> True | Some t \<Rightarrow> now - t > interval * 2) job_intervals)"

section \<open>Running a job\<close>

text \<open>A job in its own transaction: what is committed, and what is raised.\<close>

definition run_job :: "leader_env \<Rightarrow> time \<Rightarrow> fund_config \<Rightarrow> string \<Rightarrow> db \<Rightarrow> db \<times> error option" where
  "run_job le now fund job d =
     (case (case map_of (JOBS le now fund) job of None \<Rightarrow> Inl (KeyError job) | Some f \<Rightarrow> f d) of
        Inr (d1, _) \<Rightarrow> (d1, None)
      | Inl (NotImplementedError s) \<Rightarrow> (log_job now job ''skipped'' 0 (Some s) d, None)
      | Inl e \<Rightarrow> (log_job now job ''failed'' 0 None d, Some e))"

definition build_scheduler :: "(string \<Rightarrow> error + 'trigger) \<Rightarrow> fund_config \<Rightarrow> error + (string \<times> 'trigger) list" where
  "build_scheduler parse_cron fund =
     fold_err (\<lambda>(job, cron) sched.
       if job \<notin> set job_names then
         Inl (ValueError (''fund.scheduler references unknown job '' @ repr_str job @ ''; known: '' @
           repr_list (sort job_names)))
       else andthen (parse_cron cron) (\<lambda>t. Inr (sched @ [(job, t)]))) (fu_scheduler fund) []"

section \<open>The exchange calendar\<close>

text \<open>\<open>list(v)\<close> of a configuration value.\<close>

definition py_list :: "json \<Rightarrow> error + json list" where
  "py_list v = (case v of
     JArr xs \<Rightarrow> Inr xs
   | JObj kvs \<Rightarrow> Inr (map (JStr \<circ> fst) kvs)
   | JStr s \<Rightarrow> Inr (map (\<lambda>c. JStr [c]) s)
   | _ \<Rightarrow> Inl (TypeError ''object is not iterable''))"

definition exchange_sessions :: "fund_config \<Rightarrow> string \<Rightarrow> error + json list" where
  "exchange_sessions fund exchange =
     (case get_default (fu_exchanges fund) exchange (JObj []) of
        JObj entry \<Rightarrow> py_list (get_default entry ''sessions'' (JArr []))
      | _ \<Rightarrow> Inl AttributeError)"

definition all_exchanges :: "fund_config \<Rightarrow> string list" where
  "all_exchanges fund = map fst (fu_exchanges fund)"

end
