(* ===== verification/Jobs_Properties.thy ===== *)
theory Jobs_Properties
  imports Jobs Engine_Properties
begin

text \<open>
  What the scheduler's jobs guarantee: a tick fires once per ticker and session whatever happens in
  between, a sweep once per ticker and month, retention removes exactly the expired rows, the
  watchdog reports exactly the jobs without a recent success, and every job is a sequence of
  repository calls.
\<close>

section \<open>Runs are never lost\<close>

definition run_identity :: "run_row \<Rightarrow> uuid option \<times> run_type \<times> string option \<times> time" where
  "run_identity r = (run_coverage r, run_type r, run_trigger_ref r, run_created_at r)"

definition runs_extend :: "db \<Rightarrow> db \<Rightarrow> bool" where
  "runs_extend d d' \<longleftrightarrow> (\<exists>new. map run_identity (t_runs d') = map run_identity (t_runs d) @ new)"

lemma runs_extend_same: "t_runs d' = t_runs d \<Longrightarrow> runs_extend d d'"
  by (simp add: runs_extend_def)

lemma runs_extend_trans: "runs_extend d e \<Longrightarrow> runs_extend e f \<Longrightarrow> runs_extend d f"
  by (auto simp: runs_extend_def)

lemma runs_extend_upd:
  "(\<And>r. run_identity (f r) = run_identity r) \<Longrightarrow> t_runs d' = upd_row run_id i f (t_runs d) \<Longrightarrow> runs_extend d d'"
  by (simp add: runs_extend_def map_upd_row_frame)

lemma run_op_runs:
  assumes "run_op d d'"
  shows "runs_extend d d'"
  using assms
proof cases
  case (create now a r)
  then show ?thesis by (auto dest!: create_run_row_frame simp: runs_extend_def)
next
  case (stages now i ss)
  then show ?thesis by (auto dest!: add_stages_core simp: core_tables_same_def intro!: runs_extend_same)
next
  case (start now i ok)
  then show ?thesis
    by (cases rule: start_run_cases)
      (simp_all add: runs_extend_def upd_run_def insert_lock_def map_upd_row_frame run_identity_def mark_started_def)
next
  case (requeue i reason)
  then have "d' = upd_run i (\<lambda>r. r\<lparr>run_status := RS_Queued, run_error := Some reason\<rparr>) d"
    by (auto simp: requeue_run_def andthen_Inr_iff run_requeue_iff)
  then show ?thesis
    by (intro runs_extend_upd [of "\<lambda>r. r\<lparr>run_status := RS_Queued, run_error := Some reason\<rparr>"])
      (simp_all add: upd_run_def run_identity_def)
next
  case (finish now i status summary err)
  then show ?thesis
    by (rule finish_runE)
      (auto simp: finish_effect_def emit_def new_id_def upd_run_def release_lock_def runs_extend_def
        map_upd_row_frame run_identity_def mark_finished_def)
next
  case (gate i k p pl al g)
  then show ?thesis by (auto dest!: open_gate_full_frame simp: core_tables_same_def intro!: runs_extend_same)
next
  case (answer now i a x n k g)
  then show ?thesis by (auto dest!: answer_gate_full_frame simp: core_tables_same_def intro!: runs_extend_same)
next
  case (wait i r ctx sm)
  then show ?thesis
    by (intro runs_extend_upd [of "\<lambda>r. r\<lparr>run_status := rt_to sm\<rparr>"]) (simp_all add: upd_run_def run_identity_def)
next
  case (bill af fl i)
  then show ?thesis by (auto simp: rollup_run_Inr upd_run_def runs_extend_def map_upd_row_frame run_identity_def)
qed

lemma queue_runs:
  assumes "queue_frame d d'"
  shows "runs_extend d d'"
proof -
  let ?z = "\<lambda>r. r\<lparr>run_cost := 0\<rparr>"
  have z: "map run_identity rs = map run_identity (map ?z rs)" for rs by (simp add: run_identity_def)
  have "map ?z (t_runs d') = map ?z (t_runs d)" using assms by (simp add: queue_frame_def)
  then show ?thesis unfolding runs_extend_def z [of "t_runs d"] z [of "t_runs d'"] by simp
qed

lemma repo_op_runs:
  assumes "repo_op d d'"
  shows "runs_extend d d'"
  using assms
proof cases
  case run
  then show ?thesis by (rule run_op_runs)
next
  case queue
  then show ?thesis by (intro queue_runs queue_step_frame)
next
  case (propose now p c)
  then show ?thesis by (auto dest: propose_frame intro: runs_extend_same)
next
  case (transition now c a aty actor r frc nts rq)
  then show ?thesis by (auto dest: transition_coverage_frame intro: runs_extend_same)
next
  case (lead now c house actor r rationale)
  then show ?thesis by (auto dest: set_lead_frame intro: runs_extend_same)
next
  case (levels af now c ls sb r)
  then show ?thesis by (simp add: set_levels_def runs_extend_def)
next
  case (prediction dg sd)
  then show ?thesis by (auto dest!: pred_step_frame simp: ledger_frame_def intro!: runs_extend_same)
next
  case aside
  then show ?thesis by (simp add: core_tables_same_def runs_extend_same)
qed

lemma repo_ops_runs: "repo_op\<^sup>*\<^sup>* d d' \<Longrightarrow> runs_extend d d'"
  by (induction rule: rtranclp_induct) (auto intro: runs_extend_same runs_extend_trans repo_op_runs)

lemma has_run_alt:
  "has_run c ty ref d \<longleftrightarrow>
     list_ex (\<lambda>(k, t, tr, _). k = Some c \<and> run_type_value t = ty \<and> tr = Some ref) (map run_identity (t_runs d))"
  by (simp add: has_run_def list_ex_iff run_identity_def)

lemma has_run_extend: "runs_extend d d' \<Longrightarrow> has_run c ty ref d \<Longrightarrow> has_run c ty ref d'"
  by (auto simp: has_run_alt runs_extend_def)

lemma run_type_of_value: "run_type_of ty = Some t \<Longrightarrow> run_type_value t = ty"
  by (auto simp: run_type_of_def enum_of_def find_Some_iff)

lemma create_run_runs:
  assumes "create_run now fund ty c a d = Inr (d', run)"
  shows "t_runs d' = t_runs d @ [run]" "run_coverage run = c" "run_type_value (run_type run) = ty"
    "run_trigger_ref run = er_trigger_ref a" "run_created_at run = now" "t_coverage d' = t_coverage d"
    "t_joblog d' = t_joblog d" "run_trigger run = er_trigger a" "run_status run = RS_Queued"
proof -
  from assms obtain ri ss d1 where row: "create_run_row now ri d = Inr (d1, run)"
    and st: "add_stages now (run_id run) ss d1 = Inr d'"
    and ri: "ri_coverage ri = c" "ri_type ri = ty" "ri_trigger_ref ri = er_trigger_ref a" "ri_trigger ri = er_trigger a"
    by (auto simp: create_run_def andthen_Inr_iff Let_def)
  have core: "core_tables_same d1 d'" using st by (rule add_stages_core)
  with create_run_row_frame [OF row] show "t_runs d' = t_runs d @ [run]" "t_coverage d' = t_coverage d"
    by (simp_all add: core_tables_same_def)
  from row obtain t where t: "run_type_of ty = Some t" "run_type run = t"
    by (auto simp: create_run_row_def ri Let_def split: option.splits if_splits)
  then show "run_type_value (run_type run) = ty" by (simp add: run_type_of_value)
  from row show "run_coverage run = c" "run_trigger_ref run = er_trigger_ref a" "run_created_at run = now"
    "run_trigger run = er_trigger a" "run_status run = RS_Queued"
    by (auto simp: create_run_row_def ri Let_def split: option.splits if_splits)
  have "t_joblog d' = t_joblog d1" using st unfolding add_stages_def
    by (rule fold_err_invariant [where I = "\<lambda>x. t_joblog x = t_joblog d1"])
      (auto simp: add_stage_def andthen_Inr_iff new_id_def)
  with row show "t_joblog d' = t_joblog d"
    by (auto simp: create_run_row_def new_id_def Let_def split: option.splits if_splits)
qed

section \<open>Loops that do their work once\<close>

text \<open>
  The shape of the jobs' loops: an item that is finished is skipped; one that is not is worked on and
  counted, which finishes it and no other item and appends its entry to what the loop writes.
\<close>

locale once_loop =
  fixes key :: "'x \<Rightarrow> uuid"
    and finished :: "'x \<Rightarrow> db \<Rightarrow> bool"
    and body :: "'x \<Rightarrow> db \<times> nat \<Rightarrow> error + (db \<times> nat)"
    and written :: "db \<Rightarrow> 'w list"
    and entry :: "'x \<Rightarrow> 'w"
    and own :: "uuid \<Rightarrow> db \<Rightarrow> 'o"
  assumes skip: "finished x d \<Longrightarrow> body x (d, n) = Inr (d, n)"
    and work: "\<not> finished x d \<Longrightarrow> body x (d, n) = Inr (d', n') \<Longrightarrow>
      n' = Suc n \<and> finished x d' \<and> written d' = written d @ [entry x]"
    and stable: "body x (d, n) = Inr (d', n') \<Longrightarrow> finished y d \<Longrightarrow> finished y d'"
    and separate: "body x (d, n) = Inr (d', n') \<Longrightarrow> key x \<noteq> key y \<Longrightarrow> finished y d' \<Longrightarrow> finished y d"
    and apart: "body x (d, n) = Inr (d', n') \<Longrightarrow> key x \<noteq> c \<Longrightarrow> own c d' = own c d"
begin

lemma idle: "\<forall>x \<in> set xs. finished x d \<Longrightarrow> fold_err body xs (d, n) = Inr (d, n)"
  by (induction xs) (simp_all add: skip)

lemma keeps: "fold_err body xs (d, n) = Inr (d', n') \<Longrightarrow> finished y d \<Longrightarrow> finished y d'"
  by (induction xs arbitrary: d n) (auto simp: andthen_Inr_iff dest: stable)

lemma counts:
  "fold_err body xs (d, n) = Inr (d', n') \<Longrightarrow> distinct (map key xs) \<Longrightarrow>
     n' = n + length (filter (\<lambda>x. \<not> finished x d) xs) \<and> (\<forall>x \<in> set xs. finished x d') \<and>
     written d' = written d @ map entry (filter (\<lambda>x. \<not> finished x d) xs)"
proof (induction xs arbitrary: d n)
  case (Cons x xs)
  from Cons.prems(1) obtain d1 n1 where b: "body x (d, n) = Inr (d1, n1)"
    and rest: "fold_err body xs (d1, n1) = Inr (d', n')" by (auto simp: andthen_Inr_iff)
  have x: "finished x d1 \<and> n1 = (if finished x d then n else Suc n) \<and>
      written d1 = written d @ (if finished x d then [] else [entry x])"
    using b skip [of x d n] work [of x d n d1 n1] by auto
  have "finished y d1 = finished y d" if "y \<in> set xs" for y
    using stable [OF b, of y] separate [OF b, of y] that Cons.prems(2) by (auto simp: image_iff)
  then have "filter (\<lambda>y. \<not> finished y d1) xs = filter (\<lambda>y. \<not> finished y d) xs" by (intro filter_cong) auto
  with Cons.IH [OF rest] Cons.prems(2) x keeps [OF rest, of x] show ?case by simp
qed simp

lemma untouched:
  "fold_err body xs (d, n) = Inr (d', n') \<Longrightarrow> \<forall>x \<in> set xs. key x = c \<longrightarrow> finished x d \<Longrightarrow> own c d' = own c d"
proof (induction xs arbitrary: d n)
  case (Cons x xs)
  from Cons.prems(1) obtain d1 n1 where b: "body x (d, n) = Inr (d1, n1)"
    and rest: "fold_err body xs (d1, n1) = Inr (d', n')" by (auto simp: andthen_Inr_iff)
  have "own c d' = own c d1"
    using Cons.prems(2) stable [OF b] by (intro Cons.IH [OF rest]) simp
  also have "own c d1 = own c d"
  proof (cases "key x = c")
    case True
    with Cons.prems(2) b skip [of x d n] show ?thesis by simp
  qed (rule apart [OF b])
  finally show ?case .
qed simp

end

text \<open>What a job says of a run it creates, and the runs of a ticker.\<close>

definition run_shape :: "run_row \<Rightarrow> uuid option \<times> string \<times> string option \<times> string \<times> run_status \<times> time" where
  "run_shape r = (run_coverage r, run_type_value (run_type r), run_trigger_ref r, run_trigger r, run_status r, run_created_at r)"

definition runs_of :: "uuid \<Rightarrow> db \<Rightarrow> run_row list" where
  "runs_of c d = filter (\<lambda>r. run_coverage r = Some c) (t_runs d)"

lemma has_run_append:
  "has_run c ty ref (d\<lparr>t_runs := t_runs d @ [r]\<rparr>) \<longleftrightarrow> has_run c ty ref d \<or>
     (run_coverage r = Some c \<and> run_type_value (run_type r) = ty \<and> run_trigger_ref r = Some ref)"
  by (auto simp: has_run_def)

lemma spawn_onceE:
  assumes "spawn_once now fund ty ps ref c (d, n) = Inr (d', n')"
  obtains (skipped) "has_run c ty ref d" "d' = d" "n' = n"
  | (created) r where "\<not> has_run c ty ref d" "n' = Suc n" "t_runs d' = t_runs d @ [r]" "run_coverage r = Some c"
      "run_type_value (run_type r) = ty" "run_trigger_ref r = Some ref"
      "run_shape r = (Some c, ty, Some ref, ''scheduler'', RS_Queued, now)"
      "t_coverage d' = t_coverage d" "t_joblog d' = t_joblog d" "repo_op\<^sup>*\<^sup>* d d'"
proof (cases "has_run c ty ref d")
  case True
  with assms show thesis by (intro skipped) (simp_all add: spawn_once_def)
next
  case False
  with assms obtain r where c: "create_run now fund ty (Some c)
      (default_engine_run_in\<lparr>er_trigger := ''scheduler'', er_params := ps, er_trigger_ref := Some ref\<rparr>) d = Inr (d', r)"
    and n: "n' = Suc n" by (auto simp: spawn_once_def andthen_Inr_iff)
  from create_run_runs [OF c] create_run_ops [OF c] False n show thesis
    by (intro created [of r]) (simp_all add: run_shape_def)
qed

interpretation spawn: once_loop "cov_id :: coverage_row \<Rightarrow> uuid" "\<lambda>cov. has_run (cov_id cov) ty ref"
  "\<lambda>cov. spawn_once now fund ty ps ref (cov_id cov)" "\<lambda>d. map run_shape (t_runs d)"
  "\<lambda>cov. (Some (cov_id cov), ty, Some ref, ''scheduler'', RS_Queued, now)" runs_of for ty ref now fund ps
proof
  fix x y :: coverage_row and c and d d' n n'
  let ?body = "\<lambda>cov. spawn_once now fund ty ps ref (cov_id cov)"
  show "?body x (d, n) = Inr (d, n)" if "has_run (cov_id x) ty ref d"
    using that by (simp add: spawn_once_def)
  show "n' = Suc n \<and> has_run (cov_id x) ty ref d' \<and>
      map run_shape (t_runs d') = map run_shape (t_runs d) @ [(Some (cov_id x), ty, Some ref, ''scheduler'', RS_Queued, now)]"
    if "\<not> has_run (cov_id x) ty ref d" "?body x (d, n) = Inr (d', n')"
    using that(2) by (rule spawn_onceE) (use that(1) in \<open>auto simp: has_run_def\<close>)
  show "has_run (cov_id y) ty ref d'" if "?body x (d, n) = Inr (d', n')" "has_run (cov_id y) ty ref d"
    using that(1) by (rule spawn_onceE) (use that(2) in \<open>auto simp: has_run_def\<close>)
  show "has_run (cov_id y) ty ref d"
    if "?body x (d, n) = Inr (d', n')" "cov_id x \<noteq> cov_id y" "has_run (cov_id y) ty ref d'"
    using that(1) by (rule spawn_onceE) (use that(2,3) in \<open>auto simp: has_run_def\<close>)
  show "runs_of c d' = runs_of c d" if "?body x (d, n) = Inr (d', n')" "cov_id x \<noteq> c"
    using that(1) by (rule spawn_onceE) (use that(2) in \<open>auto simp: runs_of_def\<close>)
qed

interpretation sweep: once_loop cov_id
  "\<lambda>cov d. reviewed_since cutoff (cov_id cov) d \<or> has_run (cov_id cov) ''deep_review'' (sweep_ref cov now) d"
  "sweep_step now fund cutoff" "\<lambda>d. map run_shape (t_runs d)"
  "\<lambda>cov. (Some (cov_id cov), ''deep_review'', Some (sweep_ref cov now), ''scheduler'', RS_Queued, now)" runs_of
  for cutoff now fund
proof
  fix x y :: coverage_row and c and d d' n n'
  let ?fin = "\<lambda>cov d. reviewed_since cutoff (cov_id cov) d \<or> has_run (cov_id cov) ''deep_review'' (sweep_ref cov now) d"
  let ?entry = "(Some (cov_id x), ''deep_review'', Some (sweep_ref x now), ''scheduler'', RS_Queued, now)"
  show "sweep_step now fund cutoff x (d, n) = Inr (d, n)" if "?fin x d"
    using that by (auto simp: sweep_step_def spawn_once_def)
  have step: "(?fin x d \<and> d' = d \<and> n' = n) \<or> (\<not> ?fin x d \<and> n' = Suc n \<and>
      (\<exists>r. t_runs d' = t_runs d @ [r] \<and> run_coverage r = Some (cov_id x) \<and> run_type_value (run_type r) = ''deep_review'' \<and>
         run_trigger_ref r = Some (sweep_ref x now) \<and> run_shape r = ?entry))"
    if s: "sweep_step now fund cutoff x (d, n) = Inr (d', n')"
  proof (cases "reviewed_since cutoff (cov_id x) d")
    case False
    with s have "spawn_once now fund ''deep_review'' [] (sweep_ref x now) (cov_id x) (d, n) = Inr (d', n')"
      by (simp add: sweep_step_def)
    then show ?thesis by (rule spawn_onceE) (use False in auto)
  qed (use s in \<open>simp add: sweep_step_def\<close>)
  show "n' = Suc n \<and> ?fin x d' \<and> map run_shape (t_runs d') = map run_shape (t_runs d) @ [?entry]"
    if "\<not> ?fin x d" "sweep_step now fund cutoff x (d, n) = Inr (d', n')"
    using step [OF that(2)] that(1) by (auto simp: has_run_def)
  show "?fin y d'" if "sweep_step now fund cutoff x (d, n) = Inr (d', n')" "?fin y d"
    using step [OF that(1)] that(2) by (auto simp: has_run_def reviewed_since_def)
  show "?fin y d" if "sweep_step now fund cutoff x (d, n) = Inr (d', n')" "cov_id x \<noteq> cov_id y" "?fin y d'"
    using step [OF that(1)] that(2,3) by (auto simp: has_run_def reviewed_since_def)
  show "runs_of c d' = runs_of c d" if "sweep_step now fund cutoff x (d, n) = Inr (d', n')" "cov_id x \<noteq> c"
    using step [OF that(1)] that(2) by (auto simp: runs_of_def)
qed

section \<open>Jobs as histories of repository calls\<close>

lemma log_job_simps [simp]:
  "t_runs (log_job now name st n dt d) = t_runs d" "t_coverage (log_job now name st n dt d) = t_coverage d"
  "t_stages (log_job now name st n dt d) = t_stages d" "t_idem (log_job now name st n dt d) = t_idem d"
  "t_news (log_job now name st n dt d) = t_news d" "has_run c ty ref (log_job now name st n dt d) = has_run c ty ref d"
  "coverage_where P (log_job now name st n dt d) = coverage_where P d"
  by (simp_all add: log_job_def has_run_def coverage_where_def)

lemma log_job_op: "repo_op d (log_job now name st n dt d)"
  by (intro repo_op.aside) (simp add: core_tables_same_def log_job_def)

definition job_history :: "db \<Rightarrow> db \<times> nat \<Rightarrow> bool" where
  "job_history d = (\<lambda>(x, n). repo_op\<^sup>*\<^sup>* d x \<and> t_coverage x = t_coverage d \<and> t_joblog x = t_joblog d)"

lemma job_history_iff [simp]:
  "job_history d (x, n) \<longleftrightarrow> repo_op\<^sup>*\<^sup>* d x \<and> t_coverage x = t_coverage d \<and> t_joblog x = t_joblog d"
  by (simp add: job_history_def)

lemma spawn_once_history:
  "spawn_once now fund ty ps ref c (x, n) = Inr (y, k) \<Longrightarrow> job_history d (x, n) \<Longrightarrow> job_history d (y, k)"
  by (erule spawn_onceE) (auto intro: rtranclp_trans)

lemma spawn_loop_history:
  assumes "fold_err (\<lambda>cov. spawn_once now fund ty ps ref (cov_id cov)) xs (d, n) = Inr (d', n')"
  shows "job_history d (d', n')"
  using assms
proof (rule fold_err_invariant)
  fix cov and a b :: "db \<times> nat"
  assume "spawn_once now fund ty ps ref (cov_id cov) a = Inr b" and "job_history d a"
  then show "job_history d b" by (cases a; cases b) (blast dest: spawn_once_history)
qed simp

lemma sweep_loop_history:
  assumes "fold_err (sweep_step now fund cutoff) xs (d, n) = Inr (d', n')"
  shows "job_history d (d', n')"
  using assms
proof (rule fold_err_invariant)
  fix cov and a b :: "db \<times> nat"
  assume b: "sweep_step now fund cutoff cov a = Inr b" and a: "job_history d a"
  obtain x k where x: "a = (x, k)" by (cases a)
  show "job_history d b"
  proof (cases "reviewed_since cutoff (cov_id cov) x")
    case True
    with a b show ?thesis by (auto simp: x sweep_step_def)
  next
    case False
    with a b show ?thesis unfolding x by (cases b) (auto simp: sweep_step_def dest!: spawn_once_history)
  qed
qed simp

lemma session_tickE:
  assumes "session_tick le now fund ex dt s d = Inr (d', n)"
  obtains (standby) "\<not> acquire_leader le" "d' = d" "n = 0"
  | (fired) d1 d2 where "acquire_leader le" "d1 = log_job now (''session_tick:'' @ ex) ''started'' 0 None d"
      "fold_err (\<lambda>cov. spawn_once now fund ''monitor_tick'' [] (session_ref ex dt s) (cov_id cov))
         (coverage_where (\<lambda>c. cov_exchange c = ex \<and> cov_state c = CS_Active) d) (d1, 0) = Inr (d2, n)"
      "d' = log_job now (''session_tick:'' @ ex) ''succeeded'' n None d2"
proof (cases "acquire_leader le")
  case False
  with assms show thesis by (intro standby) (simp_all add: session_tick_def)
next
  case True
  with assms obtain d2 where "fold_err (\<lambda>cov. spawn_once now fund ''monitor_tick'' [] (session_ref ex dt s) (cov_id cov))
         (coverage_where (\<lambda>c. cov_exchange c = ex \<and> cov_state c = CS_Active) d)
         (log_job now (''session_tick:'' @ ex) ''started'' 0 None d, 0) = Inr (d2, n)"
      "d' = log_job now (''session_tick:'' @ ex) ''succeeded'' n None d2"
    by (auto simp: session_tick_def Let_def andthen_Inr_iff)
  with True show thesis by (intro fired [OF _ refl])
qed

lemma watch_tickE:
  assumes "watch_tick le now fund dt d = Inr (d', n)"
  obtains (standby) "\<not> acquire_leader le" "d' = d" "n = 0"
  | (fired) d1 where "acquire_leader le"
      "fold_err (\<lambda>cov. spawn_once now fund ''monitor_tick'' [(''news_only'', JBool True)] (''watch_tick:'' @ dt) (cov_id cov))
         (coverage_where (\<lambda>c. cov_state c = CS_Watch) d) (d, 0) = Inr (d1, n)"
      "d' = log_job now ''watch_tick'' ''succeeded'' n None d1"
  using assms by (cases "acquire_leader le") (auto simp: watch_tick_def Let_def andthen_Inr_iff)

lemma quarterly_sweepE:
  assumes "quarterly_sweep le now fund stale d = Inr (d', n)"
  obtains (standby) "\<not> acquire_leader le" "d' = d" "n = 0"
  | (fired) d1 where "acquire_leader le"
      "fold_err (sweep_step now fund (now - days stale)) (coverage_where (\<lambda>c. cov_state c = CS_Active) d) (d, 0) = Inr (d1, n)"
      "d' = log_job now ''quarterly_sweep'' ''succeeded'' n None d1"
  using assms by (cases "acquire_leader le") (auto simp: quarterly_sweep_def Let_def andthen_Inr_iff)

lemma retentionE:
  assumes "retention le now fund d = Inr (d', n)"
  obtains (standby) "\<not> acquire_leader le" "d' = d" "n = 0"
  | (fired) nd idd dt where "acquire_leader le"
      "to_int (get_default (fu_retention fund) ''news_days'' (JNum 180)) = Inr nd"
      "to_int (get_default (fu_retention fund) ''idempotency_days'' (JNum 30)) = Inr idd"
      "d' = log_job now ''retention'' ''succeeded'' 0 (Some dt)
         (d\<lparr>t_idem := filter (\<lambda>k. \<not> ik_expires_at k < now - days idd) (t_idem d),
            t_news := filter (\<lambda>a. \<not> nw_created_at a < now - days nd) (t_news d)\<rparr>)"
      "n = length (filter (\<lambda>k. ik_expires_at k < now - days idd) (t_idem d)) +
         length (filter (\<lambda>a. nw_created_at a < now - days nd) (t_news d))"
  using assms by (cases "acquire_leader le") (auto simp: retention_def Let_def andthen_Inr_iff)

lemma session_tick_ops:
  assumes "session_tick le now fund ex dt s d = Inr (d', n)"
  shows "repo_op\<^sup>*\<^sup>* d d'"
  using assms
proof (cases rule: session_tickE)
  case (fired d1 d2)
  have "repo_op d d1" "repo_op d2 d'" unfolding fired(2,4) by (rule log_job_op)+
  moreover have "repo_op\<^sup>*\<^sup>* d1 d2" using spawn_loop_history [OF fired(3)] by simp
  ultimately show ?thesis by (meson converse_rtranclp_into_rtranclp rtranclp.rtrancl_into_rtrancl)
qed simp

lemma watch_tick_ops: "watch_tick le now fund dt d = Inr (d', n) \<Longrightarrow> repo_op\<^sup>*\<^sup>* d d'"
  by (erule watch_tickE)
    (auto dest!: spawn_loop_history intro: rtranclp.rtrancl_into_rtrancl log_job_op)

lemma quarterly_sweep_ops: "quarterly_sweep le now fund stale d = Inr (d', n) \<Longrightarrow> repo_op\<^sup>*\<^sup>* d d'"
  by (erule quarterly_sweepE)
    (auto dest!: sweep_loop_history intro: rtranclp.rtrancl_into_rtrancl log_job_op)

lemma retention_ops: "retention le now fund d = Inr (d', n) \<Longrightarrow> repo_op\<^sup>*\<^sup>* d d'"
  by (erule retentionE) (auto simp: log_job_def core_tables_same_def intro!: r_into_rtranclp repo_op.aside)

lemma job_result_ops:
  assumes "map_of (JOBS le now fund) job = Some f" and "f d = Inr (d', n)"
  shows "repo_op\<^sup>*\<^sup>* d d'"
  using assms
  by (auto simp: JOBS_def earnings_sweep_def prediction_scoring_def lead_review_candidacy_def distillation_def
      cost_rollup_def dest: quarterly_sweep_ops retention_ops split: if_splits)

lemma run_job_ops: "repo_op\<^sup>*\<^sup>* d (fst (run_job le now fund job d))"
  by (auto simp: run_job_def intro: job_result_ops log_job_op split: sum.split option.split error.split)

section \<open>Properties\<close>

text \<open>
  C13.  A session tick fires once per ticker: the runs it adds are one queued monitor tick, triggered
  by the scheduler under the session's reference, for exactly the active tickers of the exchange that
  have none for that session, and it returns their number.  Firing it again at any later time, in any
  process, whatever repository calls came in between (a change of lead or of state, a new ticker),
  adds no run to a ticker it covered, and does nothing while no further ticker is active there.
\<close>

theorem session_tick_once:
  assumes "session_tick le now fund ex dt s d = Inr (d', n)" and "acquire_leader le"
    and "distinct (map cov_id (t_coverage d))"
  shows "map run_shape (t_runs d') = map run_shape (t_runs d) @
       map (\<lambda>c. (Some (cov_id c), ''monitor_tick'', Some (session_ref ex dt s), ''scheduler'', RS_Queued, now))
         (filter (\<lambda>c. cov_exchange c = ex \<and> cov_state c = CS_Active \<and>
            \<not> has_run (cov_id c) ''monitor_tick'' (session_ref ex dt s) d) (t_coverage d)) \<and>
     length (t_runs d') = length (t_runs d) + n \<and>
     (\<forall>d2 le2 later fund2 d3 m. repo_op\<^sup>*\<^sup>* d' d2 \<longrightarrow> session_tick le2 later fund2 ex dt s d2 = Inr (d3, m) \<longrightarrow>
        (\<forall>c \<in> set (t_coverage d). cov_exchange c = ex \<longrightarrow> cov_state c = CS_Active \<longrightarrow>
           runs_of (cov_id c) d3 = runs_of (cov_id c) d2)) \<and>
     (\<forall>d2 later. repo_op\<^sup>*\<^sup>* d' d2 \<longrightarrow>
        cov_id ` set (coverage_where (\<lambda>c. cov_exchange c = ex \<and> cov_state c = CS_Active) d2)
          \<subseteq> cov_id ` set (coverage_where (\<lambda>c. cov_exchange c = ex \<and> cov_state c = CS_Active) d) \<longrightarrow>
        (\<exists>d3. session_tick le later fund ex dt s d2 = Inr (d3, 0) \<and> t_runs d3 = t_runs d2 \<and> t_stages d3 = t_stages d2))"
  using assms(1)
proof (cases rule: session_tickE)
  case (fired d1 d2)
  let ?on = "\<lambda>c. cov_exchange c = ex \<and> cov_state c = CS_Active"
  let ?ref = "session_ref ex dt s"
  have dist: "distinct (map cov_id (coverage_where ?on d))"
    using assms(3) by (simp add: coverage_where_def distinct_map_filter)
  from spawn.counts [OF fired(3) dist] fired(2)
  have n: "n = length (filter (\<lambda>c. \<not> has_run (cov_id c) ''monitor_tick'' ?ref d) (coverage_where ?on d))"
    and fin: "\<forall>c \<in> set (coverage_where ?on d). has_run (cov_id c) ''monitor_tick'' ?ref d2"
    and new: "map run_shape (t_runs d') = map run_shape (t_runs d) @
      map (\<lambda>c. (Some (cov_id c), ''monitor_tick'', Some ?ref, ''scheduler'', RS_Queued, now))
        (filter (\<lambda>c. \<not> has_run (cov_id c) ''monitor_tick'' ?ref d) (coverage_where ?on d))"
    by (simp_all add: fired(4))
  have len: "length (t_runs d') = length (t_runs d) + n"
    using arg_cong [OF new, where f = length] n by simp
  have marked: "has_run (cov_id c) ''monitor_tick'' ?ref d3"
    if "repo_op\<^sup>*\<^sup>* d' d3" "c \<in> set (coverage_where ?on d)" for d3 c
    using fin that(2) by (intro has_run_extend [OF repo_ops_runs [OF that(1)]]) (auto simp: fired(4))
  have kept: "runs_of (cov_id c) d4 = runs_of (cov_id c) d3"
    if hist: "repo_op\<^sup>*\<^sup>* d' d3" and again: "session_tick le2 later fund2 ex dt s d3 = Inr (d4, m)"
      and c: "c \<in> set (coverage_where ?on d)" for d3 le2 later fund2 d4 m c
    using again
  proof (cases rule: session_tickE)
    case (fired e1 e2)
    have "runs_of (cov_id c) e2 = runs_of (cov_id c) e1"
      by (rule spawn.untouched [OF fired(3)]) (use marked [OF hist c] fired(2) in auto)
    then show ?thesis by (simp add: fired(2,4) runs_of_def)
  qed simp
  have idle: "\<exists>d4. session_tick le later fund ex dt s d3 = Inr (d4, 0) \<and> t_runs d4 = t_runs d3 \<and> t_stages d4 = t_stages d3"
    if hist: "repo_op\<^sup>*\<^sup>* d' d3" and sub: "cov_id ` set (coverage_where ?on d3) \<subseteq> cov_id ` set (coverage_where ?on d)" for d3 later
  proof -
    have "has_run (cov_id c) ''monitor_tick'' ?ref d3" if "c \<in> set (coverage_where ?on d3)" for c
    proof -
      from sub that obtain x where "x \<in> set (coverage_where ?on d)" "cov_id c = cov_id x" by blast
      with marked [OF hist] show ?thesis by simp
    qed
    then have "fold_err (\<lambda>cov. spawn_once later fund ''monitor_tick'' [] ?ref (cov_id cov)) (coverage_where ?on d3)
        (log_job later (''session_tick:'' @ ex) ''started'' 0 None d3, 0) =
        Inr (log_job later (''session_tick:'' @ ex) ''started'' 0 None d3, 0)"
      by (intro spawn.idle) simp
    then show ?thesis using fired(1) by (simp add: session_tick_def Let_def)
  qed
  have flt: "filter (\<lambda>c. \<not> has_run (cov_id c) ''monitor_tick'' ?ref d) (coverage_where ?on d) =
      filter (\<lambda>c. cov_exchange c = ex \<and> cov_state c = CS_Active \<and> \<not> has_run (cov_id c) ''monitor_tick'' ?ref d) (t_coverage d)"
    by (simp add: coverage_where_def conj_ac)
  show ?thesis
    using new [unfolded flt] len kept idle by (intro conjI allI impI ballI) (auto simp: coverage_where_def)
qed (use assms(2) in simp)

lemma sweep_step_cases:
  assumes "sweep_step now fund cutoff x (d, n) = Inr (d', n')"
  obtains (skipped) "d' = d" "n' = n"
  | (created) r where "\<not> reviewed_since cutoff (cov_id x) d" "\<not> has_run (cov_id x) ''deep_review'' (sweep_ref x now) d"
      "n' = Suc n" "t_runs d' = t_runs d @ [r]" "run_coverage r = Some (cov_id x)"
proof (cases "reviewed_since cutoff (cov_id x) d")
  case True
  with assms show thesis by (intro skipped) (simp_all add: sweep_step_def)
next
  case False
  with assms have "spawn_once now fund ''deep_review'' [] (sweep_ref x now) (cov_id x) (d, n) = Inr (d', n')"
    by (simp add: sweep_step_def)
  then show thesis by (rule spawn_onceE) (use False in \<open>auto intro: skipped created\<close>)
qed

lemma sweep_marks:
  "fold_err (sweep_step now fund cutoff) xs (d, n) = Inr (d', n') \<Longrightarrow> x \<in> set xs \<Longrightarrow>
     \<not> reviewed_since cutoff (cov_id x) d \<Longrightarrow> distinct (map cov_id xs) \<Longrightarrow>
     has_run (cov_id x) ''deep_review'' (sweep_ref x now) d'"
proof (induction xs arbitrary: d n)
  case (Cons y ys)
  from Cons.prems(1) obtain d1 n1 where b: "sweep_step now fund cutoff y (d, n) = Inr (d1, n1)"
    and rest: "fold_err (sweep_step now fund cutoff) ys (d1, n1) = Inr (d', n')" by (auto simp: andthen_Inr_iff)
  show ?case
  proof (cases "x = y")
    case True
    have "\<not> reviewed_since cutoff (cov_id y) d" using Cons.prems(3) True by simp
    with b have "has_run (cov_id y) ''deep_review'' (sweep_ref y now) d1"
      by (auto simp: sweep_step_def elim!: spawn_onceE) (simp_all add: has_run_def)
    moreover have "runs_extend d1 d'" using sweep_loop_history [OF rest] by (simp add: repo_ops_runs)
    ultimately show ?thesis unfolding True by (rule has_run_extend [rotated])
  next
    case False
    with Cons.prems(2,4) have x: "x \<in> set ys" "cov_id y \<noteq> cov_id x" by auto
    from b have "\<not> reviewed_since cutoff (cov_id x) d1"
      by (cases rule: sweep_step_cases) (use Cons.prems(3) x(2) in \<open>auto simp: reviewed_since_def\<close>)
    with Cons.IH [OF rest x(1)] Cons.prems(4) show ?thesis by simp
  qed
qed simp

text \<open>
  C20.  The quarterly sweep adds one queued deep review, triggered by the scheduler under this month's
  reference, for exactly the active tickers with neither a review since the cutoff nor one of this
  month's sweep, and returns their number.  No later sweep of the same month, in any process, adds a
  run to a ticker that had no recent review, whatever repository calls came in between, unless the
  ticker was given another dossier slug.
\<close>

theorem quarterly_sweep_once:
  assumes "quarterly_sweep le now fund stale d = Inr (d', n)" and "acquire_leader le"
    and "distinct (map cov_id (t_coverage d))"
  shows "map run_shape (t_runs d') = map run_shape (t_runs d) @
       map (\<lambda>c. (Some (cov_id c), ''deep_review'', Some (sweep_ref c now), ''scheduler'', RS_Queued, now))
         (filter (\<lambda>c. cov_state c = CS_Active \<and> \<not> reviewed_since (now - days stale) (cov_id c) d \<and>
            \<not> has_run (cov_id c) ''deep_review'' (sweep_ref c now) d) (t_coverage d)) \<and>
     length (t_runs d') = length (t_runs d) + n \<and>
     (\<forall>c \<in> set (coverage_where (\<lambda>c. cov_state c = CS_Active) d). \<forall>d2 le2 later fund2 stale2 d3 m.
        \<not> reviewed_since (now - days stale) (cov_id c) d \<longrightarrow> repo_op\<^sup>*\<^sup>* d' d2 \<longrightarrow>
        month_text later = month_text now \<longrightarrow>
        (\<forall>x \<in> set (t_coverage d2). cov_id x = cov_id c \<longrightarrow> cov_dossier_slug x = cov_dossier_slug c) \<longrightarrow>
        quarterly_sweep le2 later fund2 stale2 d2 = Inr (d3, m) \<longrightarrow>
        runs_of (cov_id c) d3 = runs_of (cov_id c) d2)"
  using assms(1)
proof (cases rule: quarterly_sweepE)
  case (fired d1)
  let ?on = "\<lambda>c. cov_state c = CS_Active"
  let ?new = "\<lambda>c. \<not> (reviewed_since (now - days stale) (cov_id c) d \<or> has_run (cov_id c) ''deep_review'' (sweep_ref c now) d)"
  have dist: "distinct (map cov_id (coverage_where ?on d))"
    using assms(3) by (simp add: coverage_where_def distinct_map_filter)
  from sweep.counts [OF fired(2) dist]
  have n: "n = length (filter ?new (coverage_where ?on d))"
    and new: "map run_shape (t_runs d') = map run_shape (t_runs d) @
      map (\<lambda>c. (Some (cov_id c), ''deep_review'', Some (sweep_ref c now), ''scheduler'', RS_Queued, now))
        (filter ?new (coverage_where ?on d))" by (simp_all add: fired(3))
  have len: "length (t_runs d') = length (t_runs d) + n"
    using arg_cong [OF new, where f = length] n by simp
  have own: "has_run (cov_id c) ''deep_review'' (sweep_ref c now) d'"
    if c: "c \<in> set (coverage_where ?on d)" "\<not> reviewed_since (now - days stale) (cov_id c) d" for c
    using sweep_marks [OF fired(2) c dist] by (simp add: fired(3))
  have again: "runs_of (cov_id c) d3 = runs_of (cov_id c) d2"
    if "c \<in> set (coverage_where ?on d)" "\<not> reviewed_since (now - days stale) (cov_id c) d" and hist: "repo_op\<^sup>*\<^sup>* d' d2"
      and month: "month_text later = month_text now"
      and slug: "\<forall>x \<in> set (t_coverage d2). cov_id x = cov_id c \<longrightarrow> cov_dossier_slug x = cov_dossier_slug c"
      and sw: "quarterly_sweep le2 later fund2 stale2 d2 = Inr (d3, m)" for c d2 le2 later fund2 stale2 d3 m
    using sw
  proof (cases rule: quarterly_sweepE)
    case (fired e1)
    have "has_run (cov_id c) ''deep_review'' (sweep_ref c now) d2"
      using own that(1,2) has_run_extend [OF repo_ops_runs [OF hist]] by blast
    then have "\<forall>x \<in> set (coverage_where ?on d2). cov_id x = cov_id c \<longrightarrow>
        reviewed_since (later - days stale2) (cov_id x) d2 \<or> has_run (cov_id x) ''deep_review'' (sweep_ref x later) d2"
      using slug month by (auto simp: coverage_where_def sweep_ref_def)
    with sweep.untouched [OF fired(2)] show ?thesis by (simp add: fired(3) runs_of_def)
  qed simp
  have flt: "filter ?new (coverage_where ?on d) = filter (\<lambda>c. cov_state c = CS_Active \<and>
      \<not> reviewed_since (now - days stale) (cov_id c) d \<and> \<not> has_run (cov_id c) ''deep_review'' (sweep_ref c now) d) (t_coverage d)"
    by (simp add: coverage_where_def conj_ac)
  show ?thesis using new [unfolded flt] len again by (intro conjI allI impI ballI) blast+
qed (use assms(2) in simp)

lemma last_success_None: "last_success job d = None \<longleftrightarrow> (\<forall>l \<in> set (t_joblog d). \<not> (jl_job l = job \<and> jl_status l = ''succeeded''))"
  by (auto simp: last_success_def filter_empty_conv)

lemma last_success_Some:
  assumes "last_success job d = Some t"
  shows "(\<exists>l \<in> set (t_joblog d). jl_job l = job \<and> jl_status l = ''succeeded'' \<and> jl_created_at l = t) \<and>
     (\<forall>l \<in> set (t_joblog d). jl_job l = job \<longrightarrow> jl_status l = ''succeeded'' \<longrightarrow> jl_created_at l \<le> t)"
proof -
  from assms obtain l where l: "first_min (\<lambda>l. - jl_created_at l)
      (filter (\<lambda>l. jl_job l = job \<and> jl_status l = ''succeeded'') (t_joblog d)) = Some l" and t: "t = jl_created_at l"
    by (auto simp: last_success_def)
  from first_min_SomeD [OF l] show ?thesis by (auto simp: t)
qed

lemma stale_iff:
  "(case last_success job d of None \<Rightarrow> True | Some t \<Rightarrow> now - t > interval * 2) \<longleftrightarrow>
     (\<forall>l \<in> set (t_joblog d). jl_job l = job \<longrightarrow> jl_status l = ''succeeded'' \<longrightarrow> jl_created_at l < now - 2 * interval)"
proof (cases "last_success job d")
  case None
  with last_success_None [of job d] show ?thesis by auto
next
  case (Some t)
  then obtain l where l: "l \<in> set (t_joblog d)" "jl_job l = job" "jl_status l = ''succeeded''" "jl_created_at l = t"
    and most: "\<forall>l \<in> set (t_joblog d). jl_job l = job \<longrightarrow> jl_status l = ''succeeded'' \<longrightarrow> jl_created_at l \<le> t"
    using last_success_Some by blast
  have "now - t > interval * 2 \<longleftrightarrow> t < now - 2 * interval" by linarith
  also have "\<dots> \<longleftrightarrow> (\<forall>l \<in> set (t_joblog d). jl_job l = job \<longrightarrow> jl_status l = ''succeeded'' \<longrightarrow> jl_created_at l < now - 2 * interval)"
  proof
    assume "t < now - 2 * interval"
    with most show "\<forall>l \<in> set (t_joblog d). jl_job l = job \<longrightarrow> jl_status l = ''succeeded'' \<longrightarrow> jl_created_at l < now - 2 * interval"
      by (auto intro: le_less_trans)
  next
    assume "\<forall>l \<in> set (t_joblog d). jl_job l = job \<longrightarrow> jl_status l = ''succeeded'' \<longrightarrow> jl_created_at l < now - 2 * interval"
    from bspec [OF this l(1)] l(2-4) show "t < now - 2 * interval" by simp
  qed
  finally show ?thesis by (simp add: Some)
qed

lemma watchdog_stale:
  "schedule_watchdog ivs now d = map fst (filter (\<lambda>(job, interval).
     \<not> list_ex (\<lambda>l. jl_job l = job \<and> jl_status l = ''succeeded'' \<and> now - 2 * interval \<le> jl_created_at l) (t_joblog d)) ivs)"
proof -
  have "(case last_success job d of None \<Rightarrow> True | Some t \<Rightarrow> now - t > interval * 2) \<longleftrightarrow>
      \<not> list_ex (\<lambda>l. jl_job l = job \<and> jl_status l = ''succeeded'' \<and> now - 2 * interval \<le> jl_created_at l) (t_joblog d)"
    for job and interval :: rat
    unfolding stale_iff by (auto simp: list_ex_iff not_le [symmetric])
  then show ?thesis by (simp add: schedule_watchdog_def)
qed

lemma watchdog_iff:
  "job \<in> set (schedule_watchdog ivs now d) \<longleftrightarrow>
     (\<exists>interval. (job, interval) \<in> set ivs \<and>
        (\<forall>l \<in> set (t_joblog d). jl_job l = job \<longrightarrow> jl_status l = ''succeeded'' \<longrightarrow> jl_created_at l < now - 2 * interval))"
  unfolding stale_iff [symmetric] by (force simp: schedule_watchdog_def)

definition PENDING :: "string list" where
  "PENDING = [''earnings_sweep'', ''prediction_scoring'', ''lead_review_candidacy'', ''distillation'', ''cost_rollup'']"

lemma list_memE:
  "x \<in> set (y # ys) \<Longrightarrow> (x = y \<Longrightarrow> P) \<Longrightarrow> (x \<in> set ys \<Longrightarrow> P) \<Longrightarrow> P" "x \<in> set [] \<Longrightarrow> P"
  by auto

lemmas pending_defs = earnings_sweep_def prediction_scoring_def pending_job_def
  lead_review_candidacy_def distillation_def cost_rollup_def

lemma pending_raises:
  "job \<in> set PENDING \<Longrightarrow> \<exists>f. map_of (JOBS le now fund) job = Some f \<and> (\<forall>d. \<exists>s. f d = Inl (NotImplementedError s))"
  unfolding PENDING_def JOBS_def by (elim list_memE) (simp_all add: pending_defs)

lemma names_PENDING: "set job_names = insert ''quarterly_sweep'' (insert ''retention'' (set PENDING))"
  by (auto simp: job_names_def PENDING_def)

lemma run_jobE:
  obtains (ok) f d' n where "map_of (JOBS le now fund) job = Some f" "f d = Inr (d', n)"
      "run_job le now fund job d = (d', None)"
  | (pending) s where "run_job le now fund job d = (log_job now job ''skipped'' 0 (Some s) d, None)"
      "\<exists>f. map_of (JOBS le now fund) job = Some f \<and> f d = Inl (NotImplementedError s)"
  | (raised) e where "run_job le now fund job d = (log_job now job ''failed'' 0 None d, Some e)"
      "map_of (JOBS le now fund) job = None \<and> e = KeyError job \<or>
       (\<exists>f. map_of (JOBS le now fund) job = Some f \<and> f d = Inl e \<and> (\<forall>s. e \<noteq> NotImplementedError s))"
proof (cases "map_of (JOBS le now fund) job")
  case None
  then show thesis by (intro raised [of "KeyError job"]) (simp_all add: run_job_def)
next
  case (Some f)
  show thesis
  proof (cases "f d")
    case (Inl e)
    with Some show thesis
      by (cases e) (auto simp: run_job_def intro: pending raised)
  next
    case (Inr r)
    with Some show thesis by (cases r) (auto simp: run_job_def intro: ok)
  qed
qed

lemma job_succeeded_log:
  assumes "map_of (JOBS le now fund) job = Some f" and "f d = Inr (d', n)"
  shows "job \<notin> set PENDING \<and> (if acquire_leader le
     then \<exists>l. t_joblog d' = t_joblog d @ [l] \<and> jl_job l = job \<and> jl_status l = ''succeeded'' \<and> jl_created_at l = now
     else d' = d)"
proof -
  have np: "job \<notin> set PENDING"
  proof
    assume "job \<in> set PENDING"
    from pending_raises [OF this, of le now fund] obtain s where "f d = Inl (NotImplementedError s)"
      using assms(1) by force
    with assms(2) show False by simp
  qed
  with assms(1) have "job = ''quarterly_sweep'' \<and> f = quarterly_sweep le now fund 90 \<or>
      job = ''retention'' \<and> f = retention le now fund"
    by (auto simp: JOBS_def PENDING_def split: if_splits)
  then show ?thesis
  proof (elim disjE conjE)
    assume j: "job = ''quarterly_sweep''" "f = quarterly_sweep le now fund 90"
    from assms(2) have "quarterly_sweep le now fund 90 d = Inr (d', n)" by (simp add: j)
    then show ?thesis by (rule quarterly_sweepE) (use np in \<open>auto dest!: sweep_loop_history simp: log_job_def j\<close>)
  next
    assume j: "job = ''retention''" "f = retention le now fund"
    from assms(2) have "retention le now fund d = Inr (d', n)" by (simp add: j)
    then show ?thesis by (rule retentionE) (use np in \<open>auto simp: log_job_def j\<close>)
  qed
qed

text \<open>A history of the scheduler: jobs run one after another, by the leader or by a standby.\<close>

definition scheduled :: "fund_config \<Rightarrow> (leader_env \<times> time \<times> string) list \<Rightarrow> db \<Rightarrow> db" where
  "scheduled fund ts d = fold (\<lambda>(le, now, job) x. fst (run_job le now fund job x)) ts d"

lemma run_job_log:
  assumes "job \<in> set PENDING"
  shows "(\<exists>l \<in> set (t_joblog (fst (run_job le now fund job' d))). jl_job l = job \<and> jl_status l = ''succeeded'') \<longleftrightarrow>
     (\<exists>l \<in> set (t_joblog d). jl_job l = job \<and> jl_status l = ''succeeded'')"
proof (rule run_jobE [of le now fund job' d])
  fix f d' n assume f: "map_of (JOBS le now fund) job' = Some f" "f d = Inr (d', n)"
    and r: "run_job le now fund job' d = (d', None)"
  from job_succeeded_log [OF f] assms show ?thesis by (cases "acquire_leader le") (auto simp: r)
qed (auto simp: log_job_def)

lemma scheduled_none:
  assumes "job \<in> set PENDING" and "last_success job d = None"
  shows "last_success job (scheduled fund ts d) = None"
proof (induction ts rule: rev_induct)
  case Nil
  show ?case using assms(2) by (simp add: scheduled_def)
next
  case (snoc x ts)
  obtain le now j where x: "x = (le, now, j)" by (cases x)
  have "scheduled fund (ts @ [x]) d = fst (run_job le now fund j (scheduled fund ts d))"
    by (simp add: scheduled_def x)
  with snoc.IH show ?case
    unfolding last_success_None using run_job_log [OF assms(1), of le now fund j "scheduled fund ts d"] by auto
qed

text \<open>
  C31.  The watchdog reports, in the order of the configuration, exactly the jobs that have no success
  as recent as twice their interval.  A pending job that never succeeded is therefore reported for
  ever: running it only logs that it was skipped, and no history of scheduler runs, by leaders or
  standbys, takes it off.
\<close>

theorem pending_jobs_stay_stale:
  assumes "job \<in> set PENDING" and "last_success job d = None" and "(job, interval) \<in> set ivs"
  shows "(\<forall>x. schedule_watchdog ivs t x = map fst (filter (\<lambda>(j, iv). \<not> list_ex (\<lambda>l. jl_job l = j \<and>
            jl_status l = ''succeeded'' \<and> t - 2 * iv \<le> jl_created_at l) (t_joblog x)) ivs)) \<and>
     (\<exists>s. run_job le now fund job d = (log_job now job ''skipped'' 0 (Some s) d, None)) \<and>
     job \<in> set (schedule_watchdog ivs t (scheduled fund ts d))"
proof (intro conjI allI)
  from pending_raises [OF assms(1), of le now fund] obtain f s where
    "map_of (JOBS le now fund) job = Some f" "f d = Inl (NotImplementedError s)" by blast
  then show "\<exists>s. run_job le now fund job d = (log_job now job ''skipped'' 0 (Some s) d, None)"
    by (auto simp: run_job_def)
  show "job \<in> set (schedule_watchdog ivs t (scheduled fund ts d))"
    using scheduled_none [OF assms(1,2), of fund ts] assms(3)
    unfolding watchdog_iff last_success_None by blast
qed (rule watchdog_stale)

text \<open>The jobs that are built never claim to be pending: what they raise is an error.\<close>

lemma verifier_stages_loud: "verifier_stages a s cs \<noteq> Inl (NotImplementedError x)"
  by (induction a s cs rule: verifier_stages.induct)
    (auto simp: andthen_Inl_iff chk_def split: option.splits if_splits)

lemma plan_for_loud: "plan_for fund ''deep_review'' pol ps lead cs ms \<noteq> Inl (NotImplementedError x)"
  by (auto simp: plan_for_def plan_stages_def plan_deep_review_def Let_def andthen_Inl_iff chk_def
      split: option.splits if_splits list.splits)

lemma add_stages_loud: "add_stages now r ss d \<noteq> Inl (NotImplementedError x)"
  unfolding add_stages_def
  by (induction ss arbitrary: d)
    (auto simp: andthen_Inl_iff add_stage_def require_def split: option.splits)

lemma create_run_row_loud: "create_run_row now a d \<noteq> Inl (NotImplementedError x)"
  by (auto simp: create_run_row_def Let_def split: option.splits if_splits)

lemma create_review_loud: "create_run now fund ''deep_review'' c a d \<noteq> Inl (NotImplementedError x)"
proof -
  have "policy fund ''deep_review'' \<noteq> Inl (NotImplementedError x)"
    "run_lead ps cov \<noteq> Inl (NotImplementedError x)" "json_int v \<noteq> Inl (NotImplementedError x)"
    "resolve_contributors i d \<noteq> Inl (NotImplementedError x)" for ps cov v i
    by (auto simp: policy_def run_lead_def json_house_def json_int_def resolve_contributors_def require_def
        Let_def andthen_Inl_iff split: option.splits json.splits if_splits)
  then show ?thesis
    by (auto simp: create_run_def Let_def andthen_Inl_iff plan_for_loud add_stages_loud create_run_row_loud
        split: option.splits)
qed

lemma sweep_loop_loud: "fold_err (sweep_step now fund cutoff) xs s \<noteq> Inl (NotImplementedError x)"
  by (induction xs arbitrary: s)
    (auto simp: andthen_Inl_iff sweep_step_def spawn_once_def create_review_loud split: if_splits)

lemma to_int_loud: "to_int v \<noteq> Inl (NotImplementedError x)"
  by (auto simp: to_int_def Let_def split: json.splits prod.splits if_splits)

lemma built_jobs_loud:
  "quarterly_sweep le now fund stale d \<noteq> Inl (NotImplementedError x)" "retention le now fund d \<noteq> Inl (NotImplementedError x)"
  by (auto simp: quarterly_sweep_def retention_def Let_def andthen_Inl_iff sweep_loop_loud to_int_loud)

text \<open>
  C21.  Every job runs isolated.  A name that is not registered raises a key error and a pending job
  ends quietly; each leaves one row in the log and nothing else.  Of the two jobs that are built, one
  that raises is undone: one row says that it failed and its own error reaches the caller.  One that
  ends is committed as it is, a sequence of repository calls: in the leader the watchdog does not report
  the job within twice its interval, and in a standby nothing has changed.
\<close>

theorem run_job_isolates:
  "(job \<notin> set job_names \<longrightarrow> run_job le now fund job d = (log_job now job ''failed'' 0 None d, Some (KeyError job))) \<and>
   (job \<in> set PENDING \<longrightarrow> (\<exists>s. run_job le now fund job d = (log_job now job ''skipped'' 0 (Some s) d, None))) \<and>
   (\<forall>body. (job, body) \<in> {(''quarterly_sweep'', quarterly_sweep le now fund 90), (''retention'', retention le now fund)} \<longrightarrow>
      (case body d of
         Inl e \<Rightarrow> run_job le now fund job d = (log_job now job ''failed'' 0 None d, Some e)
       | Inr (d', n) \<Rightarrow> run_job le now fund job d = (d', None) \<and> repo_op\<^sup>*\<^sup>* d d' \<and>
           (if acquire_leader le
            then \<forall>ivs t. (\<forall>interval. (job, interval) \<in> set ivs \<longrightarrow> t \<le> now + 2 * interval) \<longrightarrow>
                   job \<notin> set (schedule_watchdog ivs t d')
            else d' = d)))"
proof (intro conjI impI allI)
  assume "job \<notin> set job_names"
  then have "map_of (JOBS le now fund) job = None" by (simp add: JOBS_def job_names_def)
  then show "run_job le now fund job d = (log_job now job ''failed'' 0 None d, Some (KeyError job))"
    by (simp add: run_job_def)
next
  assume "job \<in> set PENDING"
  from pending_raises [OF this, of le now fund] obtain f s where
    "map_of (JOBS le now fund) job = Some f" "f d = Inl (NotImplementedError s)" by blast
  then show "\<exists>s. run_job le now fund job d = (log_job now job ''skipped'' 0 (Some s) d, None)"
    by (auto simp: run_job_def)
next
  fix body
  assume b: "(job, body) \<in> {(''quarterly_sweep'', quarterly_sweep le now fund 90), (''retention'', retention le now fund)}"
  then have f: "map_of (JOBS le now fund) job = Some body" by (auto simp: JOBS_def)
  have loud: "body d \<noteq> Inl (NotImplementedError x)" for x using b by (auto simp: built_jobs_loud)
  show "case body d of
         Inl e \<Rightarrow> run_job le now fund job d = (log_job now job ''failed'' 0 None d, Some e)
       | Inr (d', n) \<Rightarrow> run_job le now fund job d = (d', None) \<and> repo_op\<^sup>*\<^sup>* d d' \<and>
           (if acquire_leader le
            then \<forall>ivs t. (\<forall>interval. (job, interval) \<in> set ivs \<longrightarrow> t \<le> now + 2 * interval) \<longrightarrow>
                   job \<notin> set (schedule_watchdog ivs t d')
            else d' = d)"
  proof (cases "body d")
    case (Inl e)
    with f loud show ?thesis by (cases e) (auto simp: run_job_def)
  next
    case (Inr r)
    obtain d' n where r: "body d = Inr (d', n)" using Inr by (cases r) simp
    have "job \<notin> set (schedule_watchdog ivs t d')" if "acquire_leader le"
      "\<forall>interval. (job, interval) \<in> set ivs \<longrightarrow> t \<le> now + 2 * interval" for ivs t
    proof -
      from job_succeeded_log [OF f r] that(1) obtain l where l: "t_joblog d' = t_joblog d @ [l]" "jl_job l = job"
        "jl_status l = ''succeeded''" "jl_created_at l = now" by (elim conjE) (simp, blast)
      have "\<not> jl_created_at l < t - 2 * interval" if "(job, interval) \<in> set ivs" for interval
        using \<open>\<forall>interval. (job, interval) \<in> set ivs \<longrightarrow> t \<le> now + 2 * interval\<close> that l(4) by force
      with l show ?thesis unfolding watchdog_iff by auto
    qed
    with r job_succeeded_log [OF f r] job_result_ops [OF f r] f show ?thesis by (simp add: run_job_def)
  qed
qed

section \<open>Witnesses\<close>

definition standalone :: leader_env where
  "standalone = \<lparr>le_is_leader = None, le_postgres = False, le_granted = (\<lambda>_. False)\<rparr>"

lemma standalone_leads: "acquire_leader standalone"
  by (simp add: acquire_leader_def standalone_def pg_try_advisory_lock_def)

definition sample_active :: "error + db" where
  "sample_active = andthen sample_ticked (\<lambda>(d, c, r).
     transition_coverage 4 c Act_Decide_Active AT_PM ''pm'' (Some r) False None None d)"

lemma sample_active_ticks:
  "case andthen sample_active (\<lambda>d. andthen (session_tick standalone 5 sample_fund ''TSE'' ''2026-01-05'' ''pre'' d)
       (\<lambda>(d', n). Inr (d, d', n))) of
     Inl _ \<Rightarrow> False
   | Inr (d, d', n) \<Rightarrow> n = 1 \<and> distinct (map cov_id (t_coverage d))"
  by code_simp

theorem session_tick_once_witness:
  "\<exists>d d' d3. sample_active = Inr d \<and>
     session_tick standalone 5 sample_fund ''TSE'' ''2026-01-05'' ''pre'' d = Inr (d', 1) \<and>
     map run_shape (t_runs d') = map run_shape (t_runs d) @
       map (\<lambda>c. (Some (cov_id c), ''monitor_tick'', Some (session_ref ''TSE'' ''2026-01-05'' ''pre''), ''scheduler'', RS_Queued, 5))
         (filter (\<lambda>c. cov_exchange c = ''TSE'' \<and> cov_state c = CS_Active \<and>
            \<not> has_run (cov_id c) ''monitor_tick'' (session_ref ''TSE'' ''2026-01-05'' ''pre'') d) (t_coverage d)) \<and>
     length (t_runs d') = Suc (length (t_runs d)) \<and>
     session_tick standalone 9 sample_fund ''TSE'' ''2026-01-05'' ''pre'' d' = Inr (d3, 0) \<and> t_runs d3 = t_runs d'"
proof -
  obtain d d' n where r: "andthen sample_active (\<lambda>d. andthen (session_tick standalone 5 sample_fund ''TSE'' ''2026-01-05'' ''pre'' d)
       (\<lambda>(d', n). Inr (d, d', n))) = Inr (d, d', n)" and n: "n = 1" "distinct (map cov_id (t_coverage d))"
    using ok3D [OF sample_active_ticks] by (elim exE conjE) (rule that)
  from r have a: "sample_active = Inr d"
    and t: "session_tick standalone 5 sample_fund ''TSE'' ''2026-01-05'' ''pre'' d = Inr (d', 1)"
    by (auto simp: andthen_Inr_iff n)
  have cov: "t_coverage d' = t_coverage d"
    using t by (rule session_tickE) (auto dest!: spawn_loop_history)
  have "cov_id ` set (coverage_where P d') \<subseteq> cov_id ` set (coverage_where P d)" for P by (simp add: coverage_where_def cov)
  then have sub: "cov_id ` set (coverage_where P d') \<subseteq> cov_id ` set (coverage_where P d)" for P .
  note once = session_tick_once [OF t standalone_leads n(2)]
  have new: "length (t_runs d') = Suc (length (t_runs d))" using once [THEN conjunct2, THEN conjunct1] by simp
  obtain d3 where "session_tick standalone 9 sample_fund ''TSE'' ''2026-01-05'' ''pre'' d' = Inr (d3, 0)"
    "t_runs d3 = t_runs d'"
    using once [THEN conjunct2, THEN conjunct2, THEN conjunct2, rule_format, OF rtranclp.rtrancl_refl sub, of 9]
    by (elim exE conjE) (rule that)
  with a t new once [THEN conjunct1] show ?thesis by (intro exI conjI)
qed

lemma sample_active_sweeps:
  "case andthen sample_active (\<lambda>d. andthen (quarterly_sweep standalone 8000000 sample_fund 90 d)
       (\<lambda>(d', n). andthen (quarterly_sweep standalone 8000100 sample_fund 90 d') (\<lambda>(d3, m). Inr (d, d', d3)))) of
     Inl _ \<Rightarrow> False
   | Inr (d, d', d3) \<Rightarrow> distinct (map cov_id (t_coverage d)) \<and>
       map cov_state (t_coverage d) = [CS_Active] \<and> \<not> reviewed_since (8000000 - days 90) (cov_id (hd (t_coverage d))) d"
  by code_simp

theorem quarterly_sweep_once_witness:
  "\<exists>d d' n d3 m c. sample_active = Inr d \<and> quarterly_sweep standalone 8000000 sample_fund 90 d = Inr (d', n) \<and>
     quarterly_sweep standalone 8000100 sample_fund 90 d' = Inr (d3, m) \<and> t_coverage d = [c] \<and>
     runs_of (cov_id c) d3 = runs_of (cov_id c) d'"
proof -
  obtain d d' d3 where r: "andthen sample_active (\<lambda>d. andthen (quarterly_sweep standalone 8000000 sample_fund 90 d)
       (\<lambda>(d', n). andthen (quarterly_sweep standalone 8000100 sample_fund 90 d') (\<lambda>(d3, m). Inr (d, d', d3)))) = Inr (d, d', d3)"
    and n: "distinct (map cov_id (t_coverage d))" "map cov_state (t_coverage d) = [CS_Active]"
      "\<not> reviewed_since (8000000 - days 90) (cov_id (hd (t_coverage d))) d"
    using ok3D [OF sample_active_sweeps] by (elim exE conjE) (rule that)
  from r obtain n m where a: "sample_active = Inr d" and q: "quarterly_sweep standalone 8000000 sample_fund 90 d = Inr (d', n)"
    and q2: "quarterly_sweep standalone 8000100 sample_fund 90 d' = Inr (d3, m)"
    by (auto simp: andthen_Inr_iff)
  obtain c where c: "t_coverage d = [c]" "cov_state c = CS_Active" using n(2) by auto
  have cov: "t_coverage d' = t_coverage d"
    using q by (rule quarterly_sweepE) (auto dest!: sweep_loop_history)
  have mem: "c \<in> set (coverage_where (\<lambda>c. cov_state c = CS_Active) d)"
    and new: "\<not> reviewed_since (8000000 - days 90) (cov_id c) d"
    and slug: "\<forall>x \<in> set (t_coverage d'). cov_id x = cov_id c \<longrightarrow> cov_dossier_slug x = cov_dossier_slug c"
    using c n(3) by (simp_all add: coverage_where_def cov)
  have month: "month_text 8000100 = month_text 8000000" by code_simp
  have "runs_of (cov_id c) d3 = runs_of (cov_id c) d'"
    by (rule quarterly_sweep_once [OF q standalone_leads n(1), THEN conjunct2, THEN conjunct2, rule_format,
          OF mem new rtranclp.rtrancl_refl month _ q2]) (use slug in blast)
  with a q q2 c(1) show ?thesis by (intro exI conjI)
qed

theorem pending_jobs_stay_stale_witness:
  "''cost_rollup'' \<in> set (schedule_watchdog [(''cost_rollup'', 60)] 5
     (scheduled sample_fund [(standalone, 1, ''cost_rollup''), (standalone, 2, ''retention'')] sample_desk))"
proof -
  have "''cost_rollup'' \<in> set PENDING" "last_success ''cost_rollup'' sample_desk = None"
    "(''cost_rollup'', 60) \<in> set [(''cost_rollup'', 60 :: rat)]"
    by (simp_all add: PENDING_def last_success_def sample_desk_def empty_db_def)
  from pending_jobs_stay_stale [OF this] show ?thesis by blast
qed

theorem run_job_isolates_witness:
  "(\<exists>d'. run_job standalone 7 sample_fund ''retention'' sample_desk = (d', None) \<and>
     ''retention'' \<notin> set (schedule_watchdog [(''retention'', 60)] 100 d')) \<and>
   run_job standalone 7 sample_fund ''nightly'' sample_desk =
     (log_job 7 ''nightly'' ''failed'' 0 None sample_desk, Some (KeyError ''nightly''))"
proof
  have "case retention standalone 7 sample_fund sample_desk of Inl _ \<Rightarrow> False | Inr (d', n) \<Rightarrow> True" by code_simp
  then obtain d' n where r: "retention standalone 7 sample_fund sample_desk = Inr (d', n)" by (auto dest!: ok2D)
  have "(''retention'', retention standalone 7 sample_fund) \<in>
      {(''quarterly_sweep'', quarterly_sweep standalone 7 sample_fund 90), (''retention'', retention standalone 7 sample_fund)}"
    by simp
  from run_job_isolates [THEN conjunct2, THEN conjunct2, rule_format, OF this, of sample_desk] standalone_leads
  show "\<exists>d'. run_job standalone 7 sample_fund ''retention'' sample_desk = (d', None) \<and>
     ''retention'' \<notin> set (schedule_watchdog [(''retention'', 60)] 100 d')"
    by (auto simp: r)
  show "run_job standalone 7 sample_fund ''nightly'' sample_desk =
     (log_job 7 ''nightly'' ''failed'' 0 None sample_desk, Some (KeyError ''nightly''))"
    by (rule run_job_isolates [THEN conjunct1, rule_format]) (simp add: job_names_def)
qed

end
