(* ===== verification/Api.thy ===== *)
theory Api
  imports Engine
begin

text \<open>
  \<open>core/api/deps.py\<close> and \<open>core/api/errors.py\<close>: authorisation, idempotency, auditing, the
  error body and the transaction a request runs in.  The HTTP server, routing and the parsing of
  bodies and parameters into the declared types are FastAPI and pydantic; a request arrives here with
  its headers, the hash of its body and its typed body.
\<close>

section \<open>Requests and responses\<close>

record app =
  ap_core_api_token :: string
  ap_pm_user_ids :: "string list"
  ap_fund :: fund_config
  ap_meta_houses :: "string list"

record request =
  rq_authorization :: "string option"
  rq_pm_user :: "string option"
  rq_idempotency_key :: "string option"
  rq_body_hash :: string
  rq_request_id :: string

record response =
  rs_status :: nat
  rs_body :: json

definition error_body :: "string \<Rightarrow> string \<Rightarrow> string \<Rightarrow> json" where
  "error_body code message request_id =
     JObj [(''error'', JObj [(''code'', JStr code), (''message'', JStr message), (''request_id'', JStr request_id)])]"

text \<open>The handlers of \<open>app.py\<close>: an \<open>ApiError\<close> keeps its status, anything else is a 500.\<close>

definition error_response :: "request \<Rightarrow> error \<Rightarrow> response" where
  "error_response rq e = (case e of
     ApiError code message st \<Rightarrow> \<lparr>rs_status = st, rs_body = error_body code message (rq_request_id rq)\<rparr>
   | _ \<Rightarrow> \<lparr>rs_status = 500, rs_body = error_body ''internal_error'' ''internal error'' []\<rparr>)"

text \<open>
  The session of a request: commit when the handler returns, roll back when it raises.  No route sets
  a status code of its own, so every success is a 200.
\<close>

definition in_session :: "request \<Rightarrow> (db \<Rightarrow> error + (db \<times> json)) \<Rightarrow> db \<Rightarrow> db \<times> response" where
  "in_session rq f d = (case f d of
     Inl e \<Rightarrow> (d, error_response rq e)
   | Inr (d1, r) \<Rightarrow> (d1, \<lparr>rs_status = 200, rs_body = r\<rparr>))"

section \<open>Authorisation\<close>

text \<open>\<open>str.strip\<close> over the first 256 code points.\<close>

definition is_space :: "char \<Rightarrow> bool" where
  "is_space c = (let n = of_char c :: nat in (9 \<le> n \<and> n \<le> 13) \<or> (28 \<le> n \<and> n \<le> 32) \<or> n = 133 \<or> n = 160)"

definition strip_space :: "string \<Rightarrow> string" where
  "strip_space s = rev (dropWhile is_space (rev (dropWhile is_space s)))"

definition bearer_token :: "string option \<Rightarrow> string option" where
  "bearer_token authorization = (case authorization of
     None \<Rightarrow> None
   | Some a \<Rightarrow>
       if a = [] \<or> \<not> starts_with ''bearer '' (map lower_char a) then None
       else Some (strip_space (after_first (CHR '' '') a)))"

definition require_pm :: "app \<Rightarrow> request \<Rightarrow> error + string" where
  "require_pm ap rq =
     (case bearer_token (rq_authorization rq) of
        None \<Rightarrow> Inl (ApiError ''unauthorized'' ''valid bearer token required'' 401)
      | Some token \<Rightarrow>
          if token = [] \<or> token \<noteq> ap_core_api_token ap
          then Inl (ApiError ''unauthorized'' ''valid bearer token required'' 401)
          else (case rq_pm_user rq of
              None \<Rightarrow> Inl (ApiError ''forbidden'' ''caller is not in pm_user_ids'' 403)
            | Some u \<Rightarrow>
                if u = [] \<or> u \<notin> set (ap_pm_user_ids ap)
                then Inl (ApiError ''forbidden'' ''caller is not in pm_user_ids'' 403) else Inr u))"

section \<open>Idempotency\<close>

text \<open>\<open>datetime.max\<close> in UTC.\<close>

definition DATETIME_MAX :: time where
  "DATETIME_MAX = 253402300799999999 / 1000000"

record idem =
  id_key :: string
  id_body_hash :: string
  id_replay :: "json option"
  id_record :: "idem_row option"

definition get_idem :: "string \<Rightarrow> db \<Rightarrow> idem_row option" where
  "get_idem k d = find (\<lambda>r. ik_key r = k) (t_idem d)"

definition idempotency :: "request \<Rightarrow> db \<Rightarrow> error + idem" where
  "idempotency rq d =
     (case rq_idempotency_key rq of
        None \<Rightarrow> Inl (ApiError ''missing_idempotency_key'' ''Idempotency-Key header required'' 400)
      | Some k \<Rightarrow>
          if k = [] then Inl (ApiError ''missing_idempotency_key'' ''Idempotency-Key header required'' 400)
          else (case get_idem k d of
              None \<Rightarrow> Inr \<lparr>id_key = k, id_body_hash = rq_body_hash rq, id_replay = None, id_record = None\<rparr>
            | Some r \<Rightarrow>
                if ik_body_hash r \<noteq> rq_body_hash rq
                then Inl (ApiError ''idempotency_conflict'' ''same Idempotency-Key, different body'' 409)
                else Inr \<lparr>id_key = k, id_body_hash = rq_body_hash rq,
                       id_replay = (if ik_body r = JNull then None else Some (ik_body r)),
                       id_record = Some r\<rparr>))"

definition store :: "idem \<Rightarrow> json \<Rightarrow> nat \<Rightarrow> string \<Rightarrow> string \<Rightarrow> db \<Rightarrow> db" where
  "store i response status_code route actor d =
     (case id_record i of
        Some _ \<Rightarrow> d
      | None \<Rightarrow> d\<lparr>t_idem := t_idem d @ [\<lparr>ik_key = id_key i, ik_route = route, ik_actor = actor,
                   ik_body = response, ik_body_hash = id_body_hash i, ik_status_code = status_code,
                   ik_expires_at = DATETIME_MAX\<rparr>]\<rparr>)"

definition write_audit :: "request \<Rightarrow> string \<Rightarrow> string \<Rightarrow> string option \<Rightarrow> json \<Rightarrow> db \<Rightarrow> db" where
  "write_audit rq act actor target after d = d\<lparr>t_audit := t_audit d @ [\<lparr>au_action = act,
     au_actor_type = ''pm'', au_actor = actor, au_target = target, au_before = JNull, au_after = after,
     au_request_id = Some (rq_request_id rq)\<rparr>]\<rparr>"

text \<open>
  A mutating route: its dependencies in the order FastAPI resolves them, the replay check every
  handler starts with, and the audit row and stored response every handler ends with.
\<close>

definition endpoint ::
  "app \<Rightarrow> request \<Rightarrow> (string \<Rightarrow> idem \<Rightarrow> db \<Rightarrow> error + (db \<times> json)) \<Rightarrow> db \<Rightarrow> error + (db \<times> json)" where
  "endpoint ap rq handler d =
     andthen (require_pm ap rq) (\<lambda>pm.
     andthen (idempotency rq d) (\<lambda>i.
     case id_replay i of Some r \<Rightarrow> Inr (d, r) | None \<Rightarrow> handler pm i d))"

definition conclude ::
  "request \<Rightarrow> string \<Rightarrow> idem \<Rightarrow> string \<Rightarrow> string \<Rightarrow> json \<Rightarrow> nat \<Rightarrow> json \<Rightarrow> db \<Rightarrow> error + (db \<times> json)" where
  "conclude rq pm i route target after status_code response d =
     Inr (store i response status_code route pm (write_audit rq route pm (Some target) after d), response)"

end
