(* ===== verification/Routes.thy ===== *)
theory Routes
  imports Api
begin

text \<open>
  \<open>core/api/routes.py\<close>: every route.  The mutating ones are one definition each over the endpoint
  of \<open>Api\<close>, collected in \<open>handle\<close>; the reading ones are collected in \<open>read\<close>.  \<open>show_dec\<close>
  and \<open>show_time\<close> stand for \<open>str\<close> of a Decimal and of a datetime.
\<close>

section \<open>Errors and lookups\<close>

text \<open>The text of an \<open>IllegalTransition\<close>: the \<open>repr\<close> of a string enum names its class, member and value.\<close>

definition member_name :: "string \<Rightarrow> string" where
  "member_name v = map (\<lambda>c. let n = of_char c :: nat in
     if 97 \<le> n \<and> n \<le> 122 then char_of (n - 32) else if c = CHR '':'' then CHR ''_'' else c) v"

definition enum_repr :: "string \<Rightarrow> string \<Rightarrow> string" where
  "enum_repr cls v = ''<'' @ cls @ ''.'' @ member_name v @ '': '' @ repr_str v @ ''>''"

definition illegal_text :: "coverage_state option \<Rightarrow> action \<Rightarrow> string \<Rightarrow> string" where
  "illegal_text s a reason = ''illegal transition '' @
     (case s of None \<Rightarrow> ''None'' | Some x \<Rightarrow> enum_repr ''CoverageState'' (coverage_state_value x)) @
     '' --'' @ enum_repr ''Action'' (action_value a) @ ''--> '' @ reason"

definition conflict :: "error + 'a \<Rightarrow> error + 'a" where
  "conflict m = (case m of
     Inl (IllegalTransition s a reason) \<Rightarrow> Inl (ApiError ''conflict'' (illegal_text s a reason) 409)
   | _ \<Rightarrow> m)"

definition route_transition ::
  "time \<Rightarrow> uuid \<Rightarrow> action \<Rightarrow> string \<Rightarrow> uuid option \<Rightarrow> bool \<Rightarrow> string option \<Rightarrow> db \<Rightarrow> error + db" where
  "route_transition now c a pm r frc notes d = conflict (transition_coverage now c a AT_PM pm r frc notes None d)"

definition require_coverage :: "string \<Rightarrow> db \<Rightarrow> error + coverage_row" where
  "require_coverage slug d =
     require (ApiError ''not_found'' (''no coverage for slug '' @ repr_str slug) 404) (get_by_slug slug d)"

section \<open>Bodies\<close>

record propose_body =
  pb_ticker :: string
  pb_exchange :: string
  pb_name :: string
  pb_currency :: string
  pb_isin :: "string option"
  pb_lead :: "string option"
  pb_notes :: "string option"

record initiate_body =
  ib_lead :: "string option"
  ib_verify_count :: "int option"

record decide_body =
  db_decision :: string
  db_notes :: "string option"

record simple_notes =
  sb_notes :: "string option"
  sb_force :: bool

record lead_body =
  lb_house :: string
  lb_rationale :: "string option"

record run_body =
  rb_type :: string
  rb_coverage :: "string option"
  rb_params :: json_obj

record answer_body =
  ab_answer :: string
  ab_notes :: "string option"

record query_body =
  qb_coverage :: string
  qb_question :: string

section \<open>Coverage\<close>

definition opt_json :: "string option \<Rightarrow> json" where
  "opt_json v = (case v of None \<Rightarrow> JNull | Some s \<Rightarrow> JStr s)"

definition opt_id :: "uuid option \<Rightarrow> json" where
  "opt_id v = (case v of None \<Rightarrow> JNull | Some i \<Rightarrow> JStr (show_nat i))"

definition cov_dict :: "coverage_row \<Rightarrow> json" where
  "cov_dict c = JObj [(''id'', JStr (show_nat (cov_id c))), (''ticker'', JStr (cov_ticker c)),
     (''exchange'', JStr (cov_exchange c)), (''name'', JStr (cov_name c)), (''currency'', JStr (cov_currency c)),
     (''state'', JStr (coverage_state_value (cov_state c))), (''lead_house'', opt_json (cov_lead_house c)),
     (''dossier_slug'', JStr (cov_dossier_slug c))]"

definition coverage_target :: "uuid \<Rightarrow> string" where
  "coverage_target c = ''coverage:'' @ show_nat c"

definition run_target :: "uuid \<Rightarrow> string" where
  "run_target r = ''run:'' @ show_nat r"

definition propose_route :: "app \<Rightarrow> time \<Rightarrow> request \<Rightarrow> propose_body \<Rightarrow> db \<Rightarrow> error + (db \<times> json)" where
  "propose_route ap now rq b = endpoint ap rq (\<lambda>pm i d.
     andthen (propose_coverage now \<lparr>pi_ticker = pb_ticker b, pi_exchange = pb_exchange b, pi_name = pb_name b,
                pi_currency = pb_currency b, pi_actor = pm, pi_notes = pb_notes b, pi_isin = pb_isin b,
                pi_request = None\<rparr> d) (\<lambda>(d1, c).
     andthen (require AttributeError (get_coverage c d1)) (\<lambda>cov.
     conclude rq pm i ''coverage.propose'' (coverage_target c) (cov_dict cov) 201 (cov_dict cov) d1)))"

definition run_created :: "run_row \<Rightarrow> json" where
  "run_created run = JObj [(''run_id'', JStr (show_nat (run_id run))),
     (''status'', JStr (run_status_value (run_status run)))]"

definition pm_run :: "app \<Rightarrow> string \<Rightarrow> json_obj \<Rightarrow> engine_run_in" where
  "pm_run ap pm params = default_engine_run_in\<lparr>er_trigger := ''pm'', er_params := params,
     er_requested_by := Some pm, er_meta_houses := ap_meta_houses ap\<rparr>"

definition initiate_params :: "initiate_body \<Rightarrow> json_obj" where
  "initiate_params b =
     (case ib_lead b of None \<Rightarrow> [] | Some l \<Rightarrow> if l = [] then [] else [(''lead'', JStr l)]) @
     (case ib_verify_count b of None \<Rightarrow> [] | Some n \<Rightarrow> [(''verify_count'', JNum (of_int n))])"

definition initiate_route :: "app \<Rightarrow> time \<Rightarrow> request \<Rightarrow> string \<Rightarrow> initiate_body \<Rightarrow> db \<Rightarrow> error + (db \<times> json)" where
  "initiate_route ap now rq slug b = endpoint ap rq (\<lambda>pm i d.
     andthen (require_coverage slug d) (\<lambda>cov.
     andthen (create_run now (ap_fund ap) ''initiation'' (Some (cov_id cov)) (pm_run ap pm (initiate_params b)) d) (\<lambda>(d1, run).
     conclude rq pm i ''coverage.initiate'' (run_target (run_id run)) (run_created run) 201 (run_created run) d1)))"

definition decision_action :: "string \<Rightarrow> error + action" where
  "decision_action s =
     require (ApiError ''bad_decision'' ''decision must be active|watch|reject'' 400)
       (map_of [(''active'', Act_Decide_Active), (''watch'', Act_Decide_Watch), (''reject'', Act_Decide_Reject)] s)"

definition open_coverage_gate :: "uuid \<Rightarrow> db \<Rightarrow> gate_row option" where
  "open_coverage_gate c d = find (\<lambda>g. gt_coverage g = Some c \<and> gt_state g = GS_Open) (t_gates d)"

definition state_response :: "string \<Rightarrow> uuid \<Rightarrow> db \<Rightarrow> error + json" where
  "state_response slug c d =
     andthen (require AttributeError (get_coverage c d)) (\<lambda>cov.
     Inr (JObj [(''slug'', JStr slug), (''state'', JStr (coverage_state_value (cov_state cov)))]))"

definition decide_route :: "app \<Rightarrow> time \<Rightarrow> request \<Rightarrow> string \<Rightarrow> decide_body \<Rightarrow> db \<Rightarrow> error + (db \<times> json)" where
  "decide_route ap now rq slug b = endpoint ap rq (\<lambda>pm i d.
     andthen (require_coverage slug d) (\<lambda>cov.
     andthen (decision_action (db_decision b)) (\<lambda>act.
     let r = map_option gt_run (open_coverage_gate (cov_id cov) d) in
     andthen (route_transition now (cov_id cov) act pm r False (db_notes b) d) (\<lambda>d1.
     andthen (case r of None \<Rightarrow> Inr d1 | Some k \<Rightarrow> finish_run now k ''succeeded'' None None d1) (\<lambda>d2.
     andthen (state_response slug (cov_id cov) d2) (\<lambda>res.
     conclude rq pm i ''coverage.decide'' (coverage_target (cov_id cov)) (JObj [(''decision'', JStr (db_decision b))]) 200 res d2))))))"

text \<open>The routes that only fire a transition.\<close>

definition transition_route ::
  "action \<Rightarrow> string \<Rightarrow> bool \<Rightarrow> app \<Rightarrow> time \<Rightarrow> request \<Rightarrow> string \<Rightarrow> string option \<Rightarrow> db \<Rightarrow> error + (db \<times> json)" where
  "transition_route act route frc ap now rq slug notes = endpoint ap rq (\<lambda>pm i d.
     andthen (require_coverage slug d) (\<lambda>cov.
     andthen (route_transition now (cov_id cov) act pm None frc notes d) (\<lambda>d1.
     andthen (state_response slug (cov_id cov) d1) (\<lambda>res.
     conclude rq pm i route (coverage_target (cov_id cov)) JNull 200 res d1))))"

definition promote_route :: "app \<Rightarrow> time \<Rightarrow> request \<Rightarrow> string \<Rightarrow> simple_notes \<Rightarrow> db \<Rightarrow> error + (db \<times> json)" where
  "promote_route ap now rq slug b = transition_route Act_Promote ''coverage.promote'' False ap now rq slug (sb_notes b)"

definition demote_route :: "app \<Rightarrow> time \<Rightarrow> request \<Rightarrow> string \<Rightarrow> simple_notes \<Rightarrow> db \<Rightarrow> error + (db \<times> json)" where
  "demote_route ap now rq slug b = transition_route Act_Demote ''coverage.demote'' False ap now rq slug (sb_notes b)"

definition exit_route :: "app \<Rightarrow> time \<Rightarrow> request \<Rightarrow> string \<Rightarrow> simple_notes \<Rightarrow> db \<Rightarrow> error + (db \<times> json)" where
  "exit_route ap now rq slug b = transition_route Act_Exit ''coverage.exit'' (sb_force b) ap now rq slug (sb_notes b)"

definition re_propose_route :: "app \<Rightarrow> time \<Rightarrow> request \<Rightarrow> string \<Rightarrow> simple_notes \<Rightarrow> db \<Rightarrow> error + (db \<times> json)" where
  "re_propose_route ap now rq slug b = transition_route Act_Re_Propose ''coverage.re_propose'' False ap now rq slug (sb_notes b)"

definition set_lead_route :: "app \<Rightarrow> time \<Rightarrow> request \<Rightarrow> string \<Rightarrow> lead_body \<Rightarrow> db \<Rightarrow> error + (db \<times> json)" where
  "set_lead_route ap now rq slug b = endpoint ap rq (\<lambda>pm i d.
     andthen (require_coverage slug d) (\<lambda>cov.
     andthen (conflict (set_lead now (cov_id cov) (lb_house b) pm None (lb_rationale b) d)) (\<lambda>d1.
     conclude rq pm i ''coverage.set_lead'' (coverage_target (cov_id cov)) JNull 200
       (JObj [(''slug'', JStr slug), (''lead_house'', JStr (lb_house b))]) d1)))"

text \<open>The flush at the end of the request checks the rows \<open>set_levels\<close> added.\<close>

definition set_levels_route ::
  "bool \<Rightarrow> app \<Rightarrow> time \<Rightarrow> request \<Rightarrow> string \<Rightarrow> level_in list \<Rightarrow> db \<Rightarrow> error + (db \<times> json)" where
  "set_levels_route autoflush ap now rq slug levels = endpoint ap rq (\<lambda>pm i d.
     andthen (require_coverage slug d) (\<lambda>cov.
     let d1 = set_levels autoflush now (cov_id cov) levels ''pm'' None d in
     andthen (ensure (IntegrityError ''ck_coverage_levels'') (list_all ck_coverage_levels (drop (length (t_levels d)) (t_levels d1)))) (\<lambda>_.
     conclude rq pm i ''coverage.set_levels'' (coverage_target (cov_id cov)) JNull 200
       (JObj [(''slug'', JStr slug), (''set'', JNum (of_nat (length levels)))]) d1)))"

section \<open>Runs and gates\<close>

definition new_run_route :: "app \<Rightarrow> time \<Rightarrow> request \<Rightarrow> run_body \<Rightarrow> db \<Rightarrow> error + (db \<times> json)" where
  "new_run_route ap now rq b = endpoint ap rq (\<lambda>pm i d.
     andthen (case rb_coverage b of
                None \<Rightarrow> Inr None
              | Some slug \<Rightarrow> if slug = [] then Inr None
                  else andthen (require_coverage slug d) (\<lambda>cov. Inr (Some (cov_id cov)))) (\<lambda>c.
     andthen (create_run now (ap_fund ap) (rb_type b) c (pm_run ap pm (rb_params b)) d) (\<lambda>(d1, run).
     conclude rq pm i ''run.create'' (run_target (run_id run)) (run_created run) 201 (run_created run) d1)))"

definition cancel_run_route :: "app \<Rightarrow> time \<Rightarrow> request \<Rightarrow> uuid \<Rightarrow> simple_notes \<Rightarrow> db \<Rightarrow> error + (db \<times> json)" where
  "cancel_run_route ap now rq r b = endpoint ap rq (\<lambda>pm i d.
     andthen (finish_run now r ''cancelled'' None (sb_notes b) d) (\<lambda>d1.
     conclude rq pm i ''run.cancel'' (run_target r) JNull 200
       (JObj [(''run_id'', JStr (show_nat r)), (''status'', JStr ''cancelled'')]) d1))"

definition gate_state_value :: "gate_state \<Rightarrow> string" where
  "gate_state_value s = (case s of GS_Open \<Rightarrow> ''open'' | GS_Answered \<Rightarrow> ''answered'' | GS_Cancelled \<Rightarrow> ''cancelled'')"

definition answer_gate_route :: "app \<Rightarrow> time \<Rightarrow> request \<Rightarrow> uuid \<Rightarrow> answer_body \<Rightarrow> db \<Rightarrow> error + (db \<times> json)" where
  "answer_gate_route ap now rq g b = endpoint ap rq (\<lambda>pm i d.
     andthen (answer_gate now g (ab_answer b) pm (ab_notes b) (id_key i) d) (\<lambda>(d1, gate).
     conclude rq pm i ''gate.answer'' (''gate:'' @ show_nat g) (JObj [(''answer'', JStr (ab_answer b))]) 200
       (JObj [(''gate_id'', JStr (show_nat (gt_id gate))), (''state'', JStr (gate_state_value (gt_state gate))),
              (''answer'', opt_json (gt_answer gate))]) d1))"

definition retry_run_route :: "app \<Rightarrow> time \<Rightarrow> request \<Rightarrow> uuid \<Rightarrow> db \<Rightarrow> error + (db \<times> json)" where
  "retry_run_route ap now rq r = endpoint ap rq (\<lambda>pm i d.
     andthen (require (ApiError ''not_found'' ''run not found'' 404) (get_run r d)) (\<lambda>old.
     andthen (ensure (ApiError ''not_retryable'' ''only failed runs can be retried'' 400) (run_status old = RS_Failed)) (\<lambda>_.
     andthen (create_run now (ap_fund ap) (run_type_value (run_type old)) (run_coverage old) (pm_run ap pm (run_params old)) d) (\<lambda>(d1, run).
     let res = JObj [(''run_id'', JStr (show_nat (run_id run))), (''status'', JStr (run_status_value (run_status run))),
                     (''retried_from'', JStr (show_nat r))] in
     conclude rq pm i ''run.retry'' (run_target (run_id run)) res 201 res d1))))"

definition rate_event_route :: "app \<Rightarrow> time \<Rightarrow> request \<Rightarrow> uuid \<Rightarrow> int \<Rightarrow> db \<Rightarrow> error + (db \<times> json)" where
  "rate_event_route ap now rq e rating = endpoint ap rq (\<lambda>pm i d.
     andthen (require (ApiError ''not_found'' ''event not found'' 404) (get_event e d)) (\<lambda>_.
     conclude rq pm i ''event.rate'' (''event:'' @ show_nat e) (JObj [(''rating'', JNum (of_int rating))]) 200
       (JObj [(''event_id'', JStr (show_nat e)), (''rating'', JNum (of_int rating))])
       (upd_event e (\<lambda>x. x\<lparr>ev_pm_rating := Some rating, ev_pm_rated_at := Some now, ev_pm_rated_by := Some pm\<rparr>) d)))"

definition new_query_route :: "app \<Rightarrow> time \<Rightarrow> request \<Rightarrow> query_body \<Rightarrow> db \<Rightarrow> error + (db \<times> json)" where
  "new_query_route ap now rq b = endpoint ap rq (\<lambda>pm i d.
     andthen (require_coverage (qb_coverage b) d) (\<lambda>cov.
     andthen (create_run now (ap_fund ap) ''pm_query'' (Some (cov_id cov)) (pm_run ap pm [(''question'', JStr (qb_question b))]) d) (\<lambda>(d1, run).
     conclude rq pm i ''query.create'' (run_target (run_id run)) (run_created run) 201 (run_created run) d1)))"

section \<open>The mutating calls\<close>

datatype api_call =
    Propose propose_body
  | Initiate string initiate_body
  | Decide string decide_body
  | Promote string simple_notes
  | Demote string simple_notes
  | Exit string simple_notes
  | RePropose string simple_notes
  | SetLead string lead_body
  | SetLevels string "level_in list"
  | NewRun run_body
  | CancelRun uuid simple_notes
  | AnswerGate uuid answer_body
  | RetryRun uuid
  | RateEvent uuid int
  | NewQuery query_body

fun handle :: "app \<Rightarrow> bool \<Rightarrow> time \<Rightarrow> request \<Rightarrow> api_call \<Rightarrow> db \<Rightarrow> error + (db \<times> json)" where
  "handle ap af now rq (Propose b) = propose_route ap now rq b"
| "handle ap af now rq (Initiate slug b) = initiate_route ap now rq slug b"
| "handle ap af now rq (Decide slug b) = decide_route ap now rq slug b"
| "handle ap af now rq (Promote slug b) = promote_route ap now rq slug b"
| "handle ap af now rq (Demote slug b) = demote_route ap now rq slug b"
| "handle ap af now rq (Exit slug b) = exit_route ap now rq slug b"
| "handle ap af now rq (RePropose slug b) = re_propose_route ap now rq slug b"
| "handle ap af now rq (SetLead slug b) = set_lead_route ap now rq slug b"
| "handle ap af now rq (SetLevels slug ls) = set_levels_route af ap now rq slug ls"
| "handle ap af now rq (NewRun b) = new_run_route ap now rq b"
| "handle ap af now rq (CancelRun r b) = cancel_run_route ap now rq r b"
| "handle ap af now rq (AnswerGate g b) = answer_gate_route ap now rq g b"
| "handle ap af now rq (RetryRun r) = retry_run_route ap now rq r"
| "handle ap af now rq (RateEvent e n) = rate_event_route ap now rq e n"
| "handle ap af now rq (NewQuery b) = new_query_route ap now rq b"

definition serve :: "app \<Rightarrow> bool \<Rightarrow> time \<Rightarrow> request \<Rightarrow> api_call \<Rightarrow> db \<Rightarrow> db \<times> response" where
  "serve ap af now rq call = in_session rq (handle ap af now rq call)"

section \<open>The reading routes\<close>

definition list_coverage :: "string option \<Rightarrow> db \<Rightarrow> json" where
  "list_coverage st d = JArr (map cov_dict (filter (\<lambda>c. case st of None \<Rightarrow> True
     | Some s \<Rightarrow> s = [] \<or> coverage_state_value (cov_state c) = s) (t_coverage d)))"

definition show_coverage :: "string \<Rightarrow> db \<Rightarrow> error + json" where
  "show_coverage slug d = andthen (require_coverage slug d) (\<lambda>c. Inr (cov_dict c))"

definition list_runs :: "string option \<Rightarrow> db \<Rightarrow> json" where
  "list_runs st d = JArr (map (\<lambda>r. JObj [(''id'', JStr (show_nat (run_id r))),
       (''type'', JStr (run_type_value (run_type r))), (''status'', JStr (run_status_value (run_status r))),
       (''coverage_id'', opt_id (run_coverage r))])
     (filter (\<lambda>r. case st of None \<Rightarrow> True | Some s \<Rightarrow> s = [] \<or> run_status_value (run_status r) = s) (t_runs d)))"

definition list_gates :: "string \<Rightarrow> db \<Rightarrow> json" where
  "list_gates st d = JArr (map (\<lambda>g. JObj [(''id'', JStr (show_nat (gt_id g))), (''run_id'', JStr (show_nat (gt_run g))),
       (''kind'', JStr (gt_kind g)), (''state'', JStr (gate_state_value (gt_state g))),
       (''allowed_answers'', JArr (map JStr (gt_allowed g)))])
     (filter (\<lambda>g. gate_state_value (gt_state g) = st) (t_gates d)))"

definition health :: "db \<Rightarrow> json" where
  "health d = JObj [(''status'', JStr ''ok''), (''queue_pending'', JBool (list_ex (\<lambda>s. st_status s = SS_Queued) (t_stages d)))]"

definition truthy_decimal :: "(decimal \<Rightarrow> string) \<Rightarrow> decimal option \<Rightarrow> json" where
  "truthy_decimal sd v = (case v of None \<Rightarrow> JNull | Some q \<Rightarrow> if q = 0 then JNull else JStr (sd q))"

definition show_run :: "(decimal \<Rightarrow> string) \<Rightarrow> uuid \<Rightarrow> db \<Rightarrow> error + json" where
  "show_run sd i d =
     andthen (require (ApiError ''not_found'' ''run not found'' 404) (get_run i d)) (\<lambda>run.
     Inr (JObj [(''id'', JStr (show_nat (run_id run))), (''type'', JStr (run_type_value (run_type run))),
       (''status'', JStr (run_status_value (run_status run))), (''coverage_id'', opt_id (run_coverage run)),
       (''cost_usd'', JStr (sd (run_cost run))), (''budget_cap_usd'', truthy_decimal sd (run_budget_cap run)),
       (''trigger'', JStr (run_trigger run)), (''error'', opt_json (run_error run)),
       (''stages'', JArr (map (\<lambda>s. JObj [(''seq'', JNum (of_int (st_seq s))), (''role'', JStr (st_role s)),
           (''house'', JStr (st_house s)), (''status'', JStr (stage_status_value (st_status s))),
           (''attempts'', JNum (of_int (st_attempts s))), (''cost_usd'', JStr (sd (st_cost s)))])
         (sort_key st_seq (run_stages i d))))]))"

definition show_dossier :: "(decimal \<Rightarrow> string) \<Rightarrow> string \<Rightarrow> db \<Rightarrow> error + json" where
  "show_dossier sd slug d =
     andthen (require_coverage slug d) (\<lambda>cov.
     andthen (require (ApiError ''not_found'' ''no dossier index for this coverage'' 404)
                (find (\<lambda>x. di_coverage x = cov_id cov) (t_dossiers d))) (\<lambda>x.
     Inr (JObj [(''slug'', JStr (di_slug x)), (''stance'', opt_json (di_stance x)),
       (''conviction'', opt_json (di_conviction x)), (''target_price'', truthy_decimal sd (di_target_price x)),
       (''as_of'', opt_json (di_as_of x)), (''tripwire_count'', JNum (of_int (di_tripwire_count x)))])))"

definition list_predictions ::
  "(decimal \<Rightarrow> string) \<Rightarrow> uuid option \<Rightarrow> string option \<Rightarrow> string option \<Rightarrow> db \<Rightarrow> json" where
  "list_predictions sd c house st d =
     JArr (map (\<lambda>p. JObj [(''id'', JStr (show_nat (pr_id p))), (''kind'', JStr (prediction_kind_value (pr_kind p))),
       (''value'', truthy_decimal sd (pr_value p)), (''currency'', opt_json (pr_currency p)), (''house'', JStr (pr_house p)),
       (''status'', JStr (prediction_status_value (pr_status p))), (''horizon_date'', JStr (pr_horizon p)),
       (''confidence'', truthy_decimal sd (pr_confidence p))])
     (take 200 (filter (\<lambda>p. (case c of None \<Rightarrow> True | Some k \<Rightarrow> pr_coverage p = k) \<and>
         (case house of None \<Rightarrow> True | Some h \<Rightarrow> h = [] \<or> pr_house p = h) \<and>
         (case st of None \<Rightarrow> True | Some s \<Rightarrow> s = [] \<or> prediction_status_value (pr_status p) = s)) (t_predictions d))))"

definition list_events :: "(time \<Rightarrow> string) \<Rightarrow> uuid option \<Rightarrow> string option \<Rightarrow> db \<Rightarrow> json" where
  "list_events show_time c severity d =
     JArr (map (\<lambda>e. JObj [(''id'', JStr (show_nat (ev_id e))), (''kind'', JStr (ev_kind e)), (''severity'', JStr (ev_severity e)),
       (''title'', JStr (ev_title e)), (''action'', opt_json (ev_action e)), (''occurred_at'', JStr (show_time (ev_occurred_at e)))])
     (take 100 (sort_key (\<lambda>e. - ev_occurred_at e)
       (filter (\<lambda>e. (case c of None \<Rightarrow> True | Some k \<Rightarrow> ev_coverage e = Some k) \<and>
          (case severity of None \<Rightarrow> True | Some s \<Rightarrow> s = [] \<or> ev_severity e = s)) (t_events d)))))"

text \<open>\<open>GROUP BY\<close>: the groups in order of their first row, the NULL column left out.\<close>

definition group_sums :: "(usage_row \<Rightarrow> string option) \<Rightarrow> usage_row list \<Rightarrow> (string \<times> decimal) list" where
  "group_sums col rows =
     map (\<lambda>k. (k, sum_list (map (\<lambda>u. case us_cost u of None \<Rightarrow> 0 | Some q \<Rightarrow> q) (filter (\<lambda>u. col u = Some k) rows))))
       (remdups (List.map_filter col rows))"

definition costs :: "(decimal \<Rightarrow> string) \<Rightarrow> string \<Rightarrow> db \<Rightarrow> error + json" where
  "costs sd grouping d =
     andthen (if grouping = ''house'' then Inr us_house
              else if grouping = ''run'' then Inr (\<lambda>u. map_option show_nat (us_run u))
              else Inl (ApiError ''bad_param'' (''by must be '' @ repr_str ''house'' @ '' or '' @ repr_str ''run'') 400)) (\<lambda>col.
     Inr (JArr (map (\<lambda>(k, q). JObj [(''key'', JStr k), (''cost_usd'', JStr (sd q))]) (group_sums col (t_usage d)))))"

text \<open>\<open>store\<close> is the configuration snapshot; the settings are read from the environment.\<close>

definition config_check :: "config option \<Rightarrow> (error + settings) \<Rightarrow> (string \<times> string) list \<Rightarrow> error + json" where
  "config_check cfg st env = (case get_config cfg of
     Inl _ \<Rightarrow> Inr (JObj [(''status'', JStr ''FAIL''), (''detail'', JStr ''config not loaded'')])
   | Inr c \<Rightarrow> andthen st (\<lambda>s.
       Inr (JObj [(''results'', JArr (map (\<lambda>(n, v, dt). JObj [(''check'', JStr n), (''status'', JStr v), (''detail'', JStr dt)])
         (run_checks c s env)))])))"

end
