(* ===== verification/Api_Properties.thy ===== *)
theory Api_Properties
  imports Routes Engine_Properties
begin

text \<open>
  What the API guarantees: every mutating call is authorised, audited, a sequence of repository calls
  and all or nothing; a key replays its response; a decision ends the initiation it belongs to; and a
  ticker whose initiation is cancelled can never be decided.
\<close>

section \<open>What a handler may do\<close>

definition gates_only_close :: "db \<Rightarrow> db \<Rightarrow> bool" where
  "gates_only_close d d' \<longleftrightarrow> (\<forall>g \<in> set (t_gates d'). gt_state g = GS_Open \<longrightarrow> g \<in> set (t_gates d))"

text \<open>A ticker waiting for a decision whose open gates all belong to runs that have ended.\<close>

definition stranded :: "uuid \<Rightarrow> db \<Rightarrow> bool" where
  "stranded c d \<longleftrightarrow> map_option cov_state (get_coverage c d) = Some CS_Decision_Pending \<and>
     (\<forall>g \<in> set (t_gates d). gt_state g = GS_Open \<and> gt_coverage g = Some c \<longrightarrow>
        (\<exists>run. get_run (gt_run g) d = Some run \<and> run_final (run_status run)))"

definition core_step :: "db \<Rightarrow> db \<Rightarrow> bool" where
  "core_step d d' \<longleftrightarrow> repo_op\<^sup>*\<^sup>* d d' \<and> t_idem d' = t_idem d \<and> (\<exists>xs. t_audit d' = t_audit d @ xs) \<and>
     (\<forall>c. stranded c d \<longrightarrow> stranded c d')"

lemma core_stepI:
  assumes "repo_op\<^sup>*\<^sup>* d d'" "t_idem d' = t_idem d" "\<exists>xs. t_audit d' = t_audit d @ xs"
    and "gates_only_close d d'"
    and "\<And>c. stranded c d \<Longrightarrow> map_option cov_state (get_coverage c d') = map_option cov_state (get_coverage c d)"
    and "\<And>i run. get_run i d = Some run \<Longrightarrow> run_final (run_status run) \<Longrightarrow> \<exists>run'. get_run i d' = Some run' \<and> run_final (run_status run')"
  shows "core_step d d'"
  using assms unfolding core_step_def stranded_def gates_only_close_def by (metis (no_types, lifting))

lemma get_row_extend: "get_row key i rows = Some r \<Longrightarrow> get_row key i (rows @ ys) = Some r"
  by (simp add: get_row_append)

lemma get_run_extend: "t_runs d' = t_runs d @ ys \<Longrightarrow> get_run i d = Some r \<Longrightarrow> get_run i d' = Some r"
  by (simp add: get_run_def get_row_extend)

lemma coverage_state_same:
  assumes "map (\<lambda>x. (cov_id x, cov_state x)) (t_coverage d') = map (\<lambda>x. (cov_id x, cov_state x)) (t_coverage d)"
  shows "map_option cov_state (get_coverage c d') = map_option cov_state (get_coverage c d)"
proof -
  have "map_option cov_state (get_row cov_id c xs) = map_option snd (find (\<lambda>p. fst p = c) (map (\<lambda>x. (cov_id x, cov_state x)) xs))"
    for xs :: "coverage_row list" by (induction xs) auto
  with assms show ?thesis by (simp add: get_coverage_def)
qed

section \<open>The operations\<close>

lemma gates_close_trans: "gates_only_close d e \<Longrightarrow> gates_only_close e f \<Longrightarrow> gates_only_close d f"
  by (auto simp: gates_only_close_def)

lemma gates_close_same: "t_gates d' = t_gates d \<Longrightarrow> gates_only_close d d'"
  by (simp add: gates_only_close_def)

lemma state_effect_gates:
  assumes "state_effect a c eff d = Inr d'" and "eff \<noteq> ''open_gate:initiation_decision''"
  shows "gates_only_close d d'"
proof -
  consider (out) "starts_with ''outbox:'' eff" | (cancel) "eff = ''cancel_open_gate''"
    | (answer) "eff = ''answer_gate''" | (lead) "eff = ''set_lead_house''"
    | (other) "\<not> starts_with ''outbox:'' eff" "eff \<noteq> ''cancel_open_gate''" "eff \<noteq> ''answer_gate''" "eff \<noteq> ''set_lead_house''"
    by fast
  then show ?thesis
  proof cases
    case out
    let ?k = "after_first (CHR '':'') eff"
    from out assms(1) have "d' = (if ?k = ''coverage.state_changed'' then d else emit (ra_now a) ?k (Some c) (ra_run a)
        [(''request_id'', JStr (ra_request a)), (''coverage_id'', JStr (show_nat c))]
        (?k @ '':'' @ show_nat c @ '':'' @ uuid_hex d) d)"
      by (simp add: state_effect_def Let_def)
    then show ?thesis by (intro gates_close_same) simp
  next
    case cancel
    with assms(1) show ?thesis
      by (simp add: state_effect_def) (drule sym, auto simp: gates_only_close_def)
  next
    case answer
    show ?thesis
    proof (cases "open_gate_of (ra_run a) d")
      case None
      with answer assms show ?thesis by (simp add: state_effect_def gates_close_same)
    next
      case (Some g)
      then obtain ans where "decision_answer (ra_action a) = Inr ans"
        using answer assms by (cases "decision_answer (ra_action a)") (simp_all add: state_effect_def)
      with Some answer assms show ?thesis
        by (simp add: state_effect_def) (drule sym, auto simp: gates_only_close_def upd_gate_def set_upd_row)
    qed
  next
    case lead
    show ?thesis
    proof (cases "case ra_run a of None \<Rightarrow> None | Some r \<Rightarrow> get_run r d")
      case None
      with lead assms show ?thesis by (simp add: state_effect_def gates_close_same)
    next
      case (Some r)
      with lead assms show ?thesis
        by (simp add: state_effect_def) (drule sym, simp add: gates_only_close_def upd_coverage_def)
    qed
  next
    case other
    with assms show ?thesis by (simp add: state_effect_def gates_close_same)
  qed
qed

lemma record_transition_gates:
  assumes "record_transition a c fs sm d = Inr d'" and "''open_gate:initiation_decision'' \<notin> set (ct_effects sm)"
  shows "gates_only_close d d'"
  using record_transition_Inr(1) [OF assms(1)]
proof (rule fold_err_invariant)
  show "gates_only_close d (trail_rows a c fs sm d)" by (simp add: gates_close_same)
  fix eff x y assume eff: "eff \<in> set (ct_effects sm)" and x: "gates_only_close d x" and y: "state_effect a c eff x = Inr y"
  have "eff \<noteq> ''open_gate:initiation_decision''"
  proof
    assume e: "eff = ''open_gate:initiation_decision''"
    from assms(2) eff show False unfolding e by blast
  qed
  with y have "gates_only_close x y" by (rule state_effect_gates)
  with x show "gates_only_close d y" by (rule gates_close_trans)
qed

lemma only_delivery_opens:
  assumes "transition s a ctx = Inr sm" and "a \<noteq> Act_Initiation_Delivered"
  shows "''open_gate:initiation_decision'' \<notin> set (ct_effects sm)"
proof -
  have "list_all (\<lambda>((f, a), (t, k, effs)). a \<noteq> Act_Initiation_Delivered \<longrightarrow> ''open_gate:initiation_decision'' \<notin> set effs) ENTRIES"
    by (simp add: ENTRIES_def)
  with assms show ?thesis by (auto elim!: transition_InrE simp: list_all_iff)
qed

lemma transition_core:
  assumes t: "transition_coverage now c a aty actor r frc notes rq d = Inr d'"
    and a: "a \<noteq> Act_Initiation_Delivered" and ns: "\<not> stranded c d"
  shows "core_step d d'"
  using t
proof (rule transition_coverageE)
  fix x sm ra
  assume x: "get_coverage c d = Some x" and sm: "transition (Some (cov_state x)) a (build_ctx x a r frc notes d) = Inr sm"
    and rec: "record_transition ra c (Some (cov_state x)) sm (upd_coverage c (\<lambda>x. x\<lparr>cov_state := ct_to sm\<rparr>) d) = Inr d'"
  let ?d = "upd_coverage c (\<lambda>x. x\<lparr>cov_state := ct_to sm\<rparr>) d"
  have fr: "effect_frame (trail_rows ra c (Some (cov_state x)) sm ?d) d'" by (rule record_transition_Inr(2) [OF rec])
  show ?thesis
  proof (rule core_stepI)
    show "repo_op\<^sup>*\<^sup>* d d'" using t by (intro r_into_rtranclp repo_op.transition)
    show "t_idem d' = t_idem d" "\<exists>xs. t_audit d' = t_audit d @ xs"
      using fr by (simp_all add: effect_frame_def upd_coverage_def)
    have "gates_only_close ?d d'" using rec only_delivery_opens [OF sm a] by (rule record_transition_gates)
    then show "gates_only_close d d'" by (simp add: gates_only_close_def upd_coverage_def)
    show "\<exists>run'. get_run i d' = Some run' \<and> run_final (run_status run')"
      if "get_run i d = Some run" "run_final (run_status run)" for i run
      using that fr by (auto simp: effect_frame_def get_run_def upd_coverage_def)
    show "map_option cov_state (get_coverage k d') = map_option cov_state (get_coverage k d)" if "stranded k d" for k
    proof -
      have "k \<noteq> c" using that ns by auto
      then have "get_coverage k ?d = get_coverage k d" by (simp add: coverage_tab.fetch_mutate_other)
      moreover have "map_option cov_state (get_coverage k d') = map_option cov_state (get_coverage k ?d)"
        using fr by (intro coverage_state_same) (simp add: effect_frame_def)
      ultimately show ?thesis by simp
    qed
  qed
qed

lemma core_step_refl: "core_step d d"
  by (auto simp: core_step_def)

lemma core_step_trans: "core_step d e \<Longrightarrow> core_step e f \<Longrightarrow> core_step d f"
  by (fastforce simp: core_step_def intro: rtranclp_trans)

lemma propose_core:
  assumes p: "propose_coverage now a d = Inr (d', c)"
  shows "core_step d d'"
  using p
proof (rule propose_coverageE)
  fix x sm ra d1
  assume sm: "transition None Act_Propose default_ctx = Inr sm" and d1: "d1 = (new_id d)\<lparr>t_coverage := t_coverage d @ [x]\<rparr>"
    and rec: "record_transition ra c None sm d1 = Inr d'"
  have fr: "effect_frame (trail_rows ra c None sm d1) d'" by (rule record_transition_Inr(2) [OF rec])
  show ?thesis
  proof (rule core_stepI)
    show "repo_op\<^sup>*\<^sup>* d d'" using p by (intro r_into_rtranclp repo_op.propose)
    show "t_idem d' = t_idem d" "\<exists>xs. t_audit d' = t_audit d @ xs"
      using fr by (simp_all add: effect_frame_def d1 new_id_def)
    have "gates_only_close d1 d'" using rec only_delivery_opens [OF sm] by (intro record_transition_gates) simp_all
    then show "gates_only_close d d'" by (simp add: gates_only_close_def d1 new_id_def)
    show "\<exists>run'. get_run i d' = Some run' \<and> run_final (run_status run')"
      if "get_run i d = Some run" "run_final (run_status run)" for i run
      using that fr by (auto simp: effect_frame_def get_run_def d1 new_id_def)
    show "map_option cov_state (get_coverage k d') = map_option cov_state (get_coverage k d)" if k: "stranded k d" for k
    proof -
      have "map_option cov_state (get_coverage k d') = map_option cov_state (get_coverage k d1)"
        using fr by (intro coverage_state_same) (simp add: effect_frame_def)
      moreover obtain y where "get_coverage k d = Some y" using k by (auto simp: stranded_def)
      then have "get_coverage k d1 = get_coverage k d" by (simp add: get_coverage_def d1 new_id_def get_row_append)
      ultimately show ?thesis by simp
    qed
  qed
qed

lemma set_lead_core:
  assumes l: "set_lead now c house actor r rationale d = Inr d'"
  shows "core_step d d'"
  using l
proof (rule set_leadE)
  fix x sm ra d1
  assume x: "get_coverage c d = Some x" "cov_state x = ct_to sm"
    and sm: "\<exists>ctx. transition (Some (cov_state x)) Act_Set_Lead ctx = Inr sm"
    and rec: "record_transition ra c (Some (cov_state x)) sm (upd_coverage c (\<lambda>x. x\<lparr>cov_lead_house := Some house\<rparr>) d) = Inr d1"
    and d': "d' = d1\<lparr>t_lead_history := t_lead_history d1 @ [\<lparr>lh_coverage = c, lh_from = cov_lead_house x,
       lh_to = house, lh_run = r, lh_approved_by = actor, lh_rationale = rationale\<rparr>]\<rparr>"
  let ?d = "upd_coverage c (\<lambda>x. x\<lparr>cov_lead_house := Some house\<rparr>) d"
  have fr: "effect_frame (trail_rows ra c (Some (cov_state x)) sm ?d) d1" by (rule record_transition_Inr(2) [OF rec])
  obtain ctx where ctx: "transition (Some (cov_state x)) Act_Set_Lead ctx = Inr sm" using sm by blast
  show ?thesis
  proof (rule core_stepI)
    show "repo_op\<^sup>*\<^sup>* d d'" using l by (intro r_into_rtranclp repo_op.lead)
    show "t_idem d' = t_idem d" "\<exists>xs. t_audit d' = t_audit d @ xs"
      using fr by (simp_all add: effect_frame_def upd_coverage_def d')
    have "gates_only_close ?d d1" using rec only_delivery_opens [OF ctx] by (intro record_transition_gates) simp_all
    then show "gates_only_close d d'" by (simp add: gates_only_close_def upd_coverage_def d')
    show "\<exists>run'. get_run i d' = Some run' \<and> run_final (run_status run')"
      if "get_run i d = Some run" "run_final (run_status run)" for i run
      using that fr by (auto simp: effect_frame_def get_run_def upd_coverage_def d')
    show "map_option cov_state (get_coverage k d') = map_option cov_state (get_coverage k d)" for k
    proof -
      have "map (\<lambda>x. (cov_id x, cov_state x)) (t_coverage d') = map (\<lambda>x. (cov_id x, cov_state x)) (t_coverage d)"
        using fr by (simp add: effect_frame_def d' upd_coverage_def map_upd_row_frame)
      then show ?thesis by (rule coverage_state_same)
    qed
  qed
qed

lemma set_levels_core: "core_step d (set_levels af now c ls sb r d)"
  by (rule core_stepI, rule r_into_rtranclp, rule repo_op.levels)
    (simp_all add: set_levels_def gates_only_close_def get_coverage_def get_run_def)

lemma add_stages_other:
  assumes "add_stages now i ss d = Inr d'"
  shows "t_idem d' = t_idem d \<and> t_audit d' = t_audit d \<and> t_gates d' = t_gates d"
  using assms unfolding add_stages_def
  by (rule fold_err_invariant [where I = "\<lambda>x. t_idem x = t_idem d \<and> t_audit x = t_audit d \<and> t_gates x = t_gates d"])
    (auto simp: add_stage_def andthen_Inr_iff new_id_def)

lemma create_run_core:
  assumes c: "create_run now fund ty cov a d = Inr (d', run)"
  shows "core_step d d'"
proof -
  from c obtain ri ss d1 where row: "create_run_row now ri d = Inr (d1, run)"
    and st: "add_stages now (run_id run) ss d1 = Inr d'"
    by (auto simp: create_run_def andthen_Inr_iff Let_def)
  have core: "core_tables_same d1 d'" using st by (rule add_stages_core)
  have fr: "t_idem d1 = t_idem d \<and> t_audit d1 = t_audit d \<and> t_gates d1 = t_gates d"
    using row by (auto simp: create_run_row_def new_id_def Let_def split: option.splits if_splits)
  have runs: "t_runs d' = t_runs d @ [run]" and cv: "t_coverage d' = t_coverage d"
    using core create_run_row_frame [OF row] by (simp_all add: core_tables_same_def)
  show ?thesis
  proof (rule core_stepI)
    show "repo_op\<^sup>*\<^sup>* d d'" using c by (rule create_run_ops)
    show "t_idem d' = t_idem d" "\<exists>xs. t_audit d' = t_audit d @ xs" "gates_only_close d d'"
      using fr add_stages_other [OF st] by (simp_all add: gates_only_close_def)
    show "\<exists>run'. get_run i d' = Some run' \<and> run_final (run_status run')"
      if "get_run i d = Some r" "run_final (run_status r)" for i r
      using get_run_extend [OF runs that(1)] that(2) by blast
  qed (simp add: get_coverage_def cv)
qed

lemma finish_run_core:
  assumes f: "finish_run now i status summary err d = Inr d'"
  shows "core_step d d'"
  using f
proof (rule finish_runE)
  fix r st
  assume r: "get_run i d = Some r" "\<not> run_final (run_status r)"
    and d': "d' = finish_effect now i status r ''outbox:run.finished''
            (release_lock i (upd_run i (mark_finished now st summary err) d))"
  have runs: "t_runs d' = upd_row run_id i (mark_finished now st summary err) (t_runs d)"
    and other: "t_coverage d' = t_coverage d" "t_idem d' = t_idem d" "t_audit d' = t_audit d" "t_gates d' = t_gates d"
    by (simp_all add: d' finish_effect_def emit_def new_id_def upd_run_def release_lock_def)
  show ?thesis
  proof (rule core_stepI)
    show "repo_op\<^sup>*\<^sup>* d d'" using f by (intro r_into_rtranclp repo_op.run run_op.finish)
    show "t_idem d' = t_idem d" "\<exists>xs. t_audit d' = t_audit d @ xs" "gates_only_close d d'"
      by (simp_all add: other gates_only_close_def)
    show "\<exists>run'. get_run k d' = Some run' \<and> run_final (run_status run')"
      if "get_run k d = Some x" "run_final (run_status x)" for k x
    proof -
      have "k \<noteq> i" using that r by auto
      then have "get_run k d' = Some x" using that(1) by (simp add: get_run_def runs get_row_upd_other)
      with that(2) show ?thesis by blast
    qed
  qed (simp add: get_coverage_def other)
qed

lemma answer_gate_core:
  assumes a: "answer_gate now i x u n k d = Inr (d', g)"
  shows "core_step d d'"
proof -
  from a have d': "d' = d \<or> d' = upd_gate i (mark_answered now x u n k) d"
    by (cases "get_gate i d") (simp_all add: answer_gate_def split: if_splits)
  show ?thesis
  proof (rule core_stepI)
    show "repo_op\<^sup>*\<^sup>* d d'" using a by (intro r_into_rtranclp repo_op.run run_op.answer)
    show "gates_only_close d d'" using d'
      by (auto simp: gates_only_close_def upd_gate_def set_upd_row mark_answered_def)
  qed (use d' in \<open>auto simp: upd_gate_def get_coverage_def get_run_def\<close>)
qed

lemma upd_event_core: "core_step d (upd_event e f d)"
  by (rule core_stepI)
    (auto simp: upd_event_def gates_only_close_def get_coverage_def get_run_def core_tables_same_def
      intro!: r_into_rtranclp repo_op.aside)

section \<open>Every route\<close>

text \<open>A handler that returns has made repository calls, one audit row and one stored response.\<close>

definition ran :: "request \<Rightarrow> string \<Rightarrow> idem \<Rightarrow> db \<Rightarrow> db \<Rightarrow> json \<Rightarrow> bool" where
  "ran rq pm i d d' res \<longleftrightarrow> res \<noteq> JNull \<and> (\<exists>dx route target after code. core_step d dx \<and>
     d' = store i res code route pm (write_audit rq route pm (Some target) after dx))"

definition route_ok :: "app \<Rightarrow> request \<Rightarrow> (db \<Rightarrow> error + (db \<times> json)) \<Rightarrow> bool" where
  "route_ok ap rq f \<longleftrightarrow> (\<forall>d d' res. f d = Inr (d', res) \<longrightarrow> (\<exists>pm i. require_pm ap rq = Inr pm \<and>
     idempotency rq d = Inr i \<and> (case id_replay i of Some r \<Rightarrow> d' = d \<and> res = r | None \<Rightarrow> ran rq pm i d d' res)))"

lemma endpoint_ok:
  assumes "\<And>pm i d d' res. h pm i d = Inr (d', res) \<Longrightarrow> ran rq pm i d d' res"
  shows "route_ok ap rq (endpoint ap rq h)"
  using assms by (fastforce simp: route_ok_def endpoint_def andthen_Inr_iff split: option.splits)

lemma conclude_ran:
  "conclude rq pm i route tgt after code r dx = Inr (d', res) \<Longrightarrow> core_step d dx \<Longrightarrow> r \<noteq> JNull \<Longrightarrow> ran rq pm i d d' res"
  unfolding ran_def conclude_def by clarsimp blast

lemma conflict_Inr [simp]: "conflict m = Inr x \<longleftrightarrow> m = Inr x"
  by (auto simp: conflict_def split: sum.splits error.splits)

lemma state_response_obj: "state_response slug c d = Inr r \<Longrightarrow> r \<noteq> JNull"
  by (auto simp: state_response_def andthen_Inr_iff)

lemma not_pending:
  assumes "transition_coverage now c a aty actor r frc notes rq d = Inr d'"
    and "a \<in> {Act_Promote, Act_Demote, Act_Exit, Act_Re_Propose}"
  shows "\<not> stranded c d"
  using assms(1)
proof (rule transition_coverageE)
  fix x sm ra
  assume x: "get_coverage c d = Some x" and sm: "transition (Some (cov_state x)) a (build_ctx x a r frc notes d) = Inr sm"
  have "list_all (\<lambda>((f, a), _). a \<in> {Act_Promote, Act_Demote, Act_Exit, Act_Re_Propose} \<longrightarrow> f \<noteq> Some CS_Decision_Pending) ENTRIES"
    by (simp add: ENTRIES_def)
  with sm assms(2) have "cov_state x \<noteq> CS_Decision_Pending" by (force elim!: transition_InrE simp: list_all_iff)
  with x show ?thesis by (simp add: stranded_def)
qed

lemma transition_route_ok:
  "act \<in> {Act_Promote, Act_Demote, Act_Exit, Act_Re_Propose} \<Longrightarrow> route_ok ap rq (transition_route act route frc ap now rq slug notes)"
  unfolding transition_route_def
proof (rule endpoint_ok)
  fix pm i d d' res
  assume act: "act \<in> {Act_Promote, Act_Demote, Act_Exit, Act_Re_Propose}"
    and "andthen (require_coverage slug d) (\<lambda>cov.
     andthen (route_transition now (cov_id cov) act pm None frc notes d) (\<lambda>d1.
     andthen (state_response slug (cov_id cov) d1) (\<lambda>res.
     conclude rq pm i route (coverage_target (cov_id cov)) JNull 200 res d1))) = Inr (d', res)"
  then obtain cov :: coverage_row and d1 r where t: "transition_coverage now (cov_id cov) act AT_PM pm None frc notes None d = Inr d1"
    and r: "state_response slug (cov_id cov) d1 = Inr r"
    and c: "conclude rq pm i route (coverage_target (cov_id cov)) JNull 200 r d1 = Inr (d', res)"
    by (auto simp: andthen_Inr_iff route_transition_def)
  have "core_step d d1" by (rule transition_core [OF t]) (use act not_pending [OF t act] in auto)
  with c show "ran rq pm i d d' res" using state_response_obj [OF r] by (rule conclude_ran)
qed

lemma open_gate_of_None [simp]: "open_gate_of None d = None"
  by (simp add: open_gate_of_def find_None_iff)

lemma decide_not_stranded:
  assumes t: "transition_coverage now c a AT_PM pm (map_option gt_run (open_coverage_gate c d)) False notes None d = Inr d1"
    and a: "a \<in> set DECIDE_ACTIONS"
    and f: "case map_option gt_run (open_coverage_gate c d) of None \<Rightarrow> Inr d1 = Inr d2
      | Some k \<Rightarrow> finish_run later k ''succeeded'' None None d1 = Inr d2"
  shows "\<not> stranded c d"
proof
  assume s: "stranded c d"
  show False
  proof (cases "open_coverage_gate c d")
    case None
    from t obtain x sm where "transition (Some (cov_state x)) a (build_ctx x a None False notes d) = Inr sm"
      by (rule transition_coverageE) (simp add: None)
    then show False using a by (elim transition_InrE) (auto simp: guards_hold_def build_ctx_def DECIDE_ACTIONS_def)
  next
    case (Some g)
    then have g: "g \<in> set (t_gates d)" "gt_coverage g = Some c" "gt_state g = GS_Open"
      by (auto simp: open_coverage_gate_def dest: find_SomeD)
    with s obtain run where run: "get_run (gt_run g) d = Some run" "run_final (run_status run)" by (auto simp: stranded_def)
    from f Some have "finish_run later (gt_run g) ''succeeded'' None None d1 = Inr d2" by simp
    moreover have "get_run (gt_run g) d1 = Some run" using transition_coverage_frame [OF t] run(1) by (simp add: get_run_def)
    ultimately show False using run(2) by (auto elim: finish_runE)
  qed
qed

lemma decide_route_ok: "route_ok ap rq (decide_route ap now rq slug b)"
  unfolding decide_route_def
proof (rule endpoint_ok)
  fix pm i d d' res
  assume "andthen (require_coverage slug d) (\<lambda>cov.
     andthen (decision_action (db_decision b)) (\<lambda>act.
     let r = map_option gt_run (open_coverage_gate (cov_id cov) d) in
     andthen (route_transition now (cov_id cov) act pm r False (db_notes b) d) (\<lambda>d1.
     andthen (case r of None \<Rightarrow> Inr d1 | Some k \<Rightarrow> finish_run now k ''succeeded'' None None d1) (\<lambda>d2.
     andthen (state_response slug (cov_id cov) d2) (\<lambda>res.
     conclude rq pm i ''coverage.decide'' (coverage_target (cov_id cov)) (JObj [(''decision'', JStr (db_decision b))]) 200 res d2)))))
     = Inr (d', res)"
  then obtain cov :: coverage_row and act d1 d2 r where a: "decision_action (db_decision b) = Inr act"
    and t: "transition_coverage now (cov_id cov) act AT_PM pm (map_option gt_run (open_coverage_gate (cov_id cov) d)) False
      (db_notes b) None d = Inr d1"
    and f: "(case map_option gt_run (open_coverage_gate (cov_id cov) d) of None \<Rightarrow> Inr d1
      | Some k \<Rightarrow> finish_run now k ''succeeded'' None None d1) = Inr d2"
    and r: "state_response slug (cov_id cov) d2 = Inr r"
    and c: "conclude rq pm i ''coverage.decide'' (coverage_target (cov_id cov)) (JObj [(''decision'', JStr (db_decision b))])
      200 r d2 = Inr (d', res)"
    unfolding andthen_Inr_iff Let_def route_transition_def conflict_Inr by blast
  have act: "act \<in> set DECIDE_ACTIONS"
    using a by (auto simp: decision_action_def DECIDE_ACTIONS_def split: if_splits)
  have "\<not> stranded (cov_id cov) d"
    by (rule decide_not_stranded [OF t act, of d2 now]) (use f in \<open>auto split: option.splits\<close>)
  moreover have "act \<noteq> Act_Initiation_Delivered" using act by (auto simp: DECIDE_ACTIONS_def)
  ultimately have "core_step d d1" using transition_core [OF t] by blast
  moreover have "core_step d1 d2" using f by (auto intro: core_step_refl finish_run_core split: option.splits)
  ultimately have "core_step d d2" by (rule core_step_trans)
  with c show "ran rq pm i d d' res" using state_response_obj [OF r] by (rule conclude_ran)
qed

lemma propose_route_ok: "route_ok ap rq (propose_route ap now rq b)"
  unfolding propose_route_def
  by (rule endpoint_ok)
    (auto simp: andthen_Inr_iff cov_dict_def intro: conclude_ran dest: propose_core)

lemma initiate_route_ok: "route_ok ap rq (initiate_route ap now rq slug b)"
  unfolding initiate_route_def
  by (rule endpoint_ok)
    (auto simp: andthen_Inr_iff run_created_def intro: conclude_ran dest: create_run_core)

lemma set_lead_route_ok: "route_ok ap rq (set_lead_route ap now rq slug b)"
  unfolding set_lead_route_def
  by (rule endpoint_ok) (auto simp: andthen_Inr_iff intro: conclude_ran dest: set_lead_core)

lemma set_levels_route_ok: "route_ok ap rq (set_levels_route af ap now rq slug ls)"
  unfolding set_levels_route_def
  by (rule endpoint_ok) (auto simp: andthen_Inr_iff Let_def intro: conclude_ran set_levels_core)

lemma new_run_route_ok: "route_ok ap rq (new_run_route ap now rq b)"
  unfolding new_run_route_def
  by (rule endpoint_ok)
    (auto simp: andthen_Inr_iff run_created_def intro: conclude_ran dest: create_run_core)

lemma cancel_run_route_ok: "route_ok ap rq (cancel_run_route ap now rq r b)"
  unfolding cancel_run_route_def
  by (rule endpoint_ok) (auto simp: andthen_Inr_iff intro: conclude_ran dest: finish_run_core)

lemma answer_gate_route_ok: "route_ok ap rq (answer_gate_route ap now rq g b)"
  unfolding answer_gate_route_def
  by (rule endpoint_ok) (auto simp: andthen_Inr_iff intro: conclude_ran dest: answer_gate_core)

lemma retry_run_route_ok: "route_ok ap rq (retry_run_route ap now rq r)"
  unfolding retry_run_route_def
  by (rule endpoint_ok) (auto simp: andthen_Inr_iff Let_def intro: conclude_ran dest: create_run_core)

lemma rate_event_route_ok: "route_ok ap rq (rate_event_route ap now rq e n)"
  unfolding rate_event_route_def
  by (rule endpoint_ok) (auto simp: andthen_Inr_iff intro: conclude_ran upd_event_core)

lemma new_query_route_ok: "route_ok ap rq (new_query_route ap now rq b)"
  unfolding new_query_route_def
  by (rule endpoint_ok)
    (auto simp: andthen_Inr_iff run_created_def intro: conclude_ran dest: create_run_core)

lemma handle_ok: "route_ok ap rq (handle ap af now rq call)"
  by (cases call)
    (simp_all add: propose_route_ok initiate_route_ok decide_route_ok set_lead_route_ok set_levels_route_ok
      new_run_route_ok cancel_run_route_ok answer_gate_route_ok retry_run_route_ok rate_event_route_ok
      new_query_route_ok promote_route_def demote_route_def exit_route_def re_propose_route_def transition_route_ok)

section \<open>Requests one after another\<close>

definition idem_inv :: "db \<Rightarrow> bool" where
  "idem_inv d \<longleftrightarrow> distinct (map ik_key (t_idem d)) \<and> list_all (\<lambda>k. ik_body k \<noteq> JNull) (t_idem d)"

lemma idempotencyE:
  assumes "idempotency rq d = Inr i" and "idem_inv d"
  obtains (fresh) k where "rq_idempotency_key rq = Some k" "k \<noteq> []" "get_idem k d = None"
      "i = \<lparr>id_key = k, id_body_hash = rq_body_hash rq, id_replay = None, id_record = None\<rparr>"
  | (known) k row where "rq_idempotency_key rq = Some k" "k \<noteq> []" "get_idem k d = Some row"
      "ik_body_hash row = rq_body_hash rq" "id_replay i = Some (ik_body row)"
proof -
  from assms(1) obtain k where k: "rq_idempotency_key rq = Some k" "k \<noteq> []"
    by (auto simp: idempotency_def split: option.splits if_splits)
  show thesis
  proof (cases "get_idem k d")
    case None
    with assms(1) k have "i = \<lparr>id_key = k, id_body_hash = rq_body_hash rq, id_replay = None, id_record = None\<rparr>"
      by (simp add: idempotency_def)
    with None k show thesis by (intro fresh)
  next
    case (Some row)
    then have "ik_body row \<noteq> JNull"
      using assms(2) by (auto simp: get_idem_def idem_inv_def list_all_iff dest: find_SomeD)
    with assms(1) k Some show thesis by (intro known) (auto simp: idempotency_def split: if_splits)
  qed
qed

text \<open>A request either changes nothing or adds its audit row and its stored response.\<close>

lemma handleE:
  assumes "handle ap af now rq call d = Inr (d', res)" and "idem_inv d"
  obtains (replayed) pm k row where "require_pm ap rq = Inr pm" "rq_idempotency_key rq = Some k" "get_idem k d = Some row"
      "ik_body_hash row = rq_body_hash rq" "ik_body row = res" "d' = d"
  | (stored) pm k dx route target after row where "require_pm ap rq = Inr pm" "rq_idempotency_key rq = Some k"
      "get_idem k d = None" "core_step d dx" "t_idem d' = t_idem d @ [row]" "ik_key row = k" "ik_body row = res" "res \<noteq> JNull"
      "ik_body_hash row = rq_body_hash rq" "ik_actor row = pm" "ik_expires_at row = DATETIME_MAX"
      "d' = (write_audit rq route pm (Some target) after dx)\<lparr>t_idem := t_idem d @ [row]\<rparr>"
proof -
  from handle_ok [of ap rq af now call] assms(1) obtain pm i where pm: "require_pm ap rq = Inr pm"
    and i: "idempotency rq d = Inr i"
    and r: "case id_replay i of Some r \<Rightarrow> d' = d \<and> res = r | None \<Rightarrow> ran rq pm i d d' res"
    unfolding route_ok_def by blast
  from i assms(2) show thesis
  proof (cases rule: idempotencyE)
    case (fresh k)
    with r obtain dx route target after code where "res \<noteq> JNull" "core_step d dx"
      "d' = store i res code route pm (write_audit rq route pm (Some target) after dx)" by (auto simp: ran_def)
    moreover from this(2) have "t_idem dx = t_idem d" by (simp add: core_step_def)
    ultimately show thesis using fresh pm
      by (intro stored [of pm k dx "\<lparr>ik_key = k, ik_route = route, ik_actor = pm, ik_body = res,
            ik_body_hash = rq_body_hash rq, ik_status_code = code, ik_expires_at = DATETIME_MAX\<rparr>"])
        (simp_all add: store_def write_audit_def)
  next
    case (known k row)
    with r pm show thesis by (intro replayed) auto
  qed
qed

lemma serve_cases:
  obtains (failed) e where "handle ap af now rq call d = Inl e" "serve ap af now rq call d = (d, error_response rq e)"
  | (ok) d' res where "handle ap af now rq call d = Inr (d', res)"
      "serve ap af now rq call d = (d', \<lparr>rs_status = 200, rs_body = res\<rparr>)"
  by (cases "handle ap af now rq call d") (auto simp: serve_def in_session_def)

lemma serve_idem_inv: "idem_inv d \<Longrightarrow> idem_inv (fst (serve ap af now rq call d))"
proof (rule serve_cases [of ap af now rq call d])
  fix d' res assume inv: "idem_inv d" and h: "handle ap af now rq call d = Inr (d', res)"
    and s: "serve ap af now rq call d = (d', \<lparr>rs_status = 200, rs_body = res\<rparr>)"
  from h inv show ?thesis
  proof (cases rule: handleE)
    case (stored pm k dx route target after row)
    then have "k \<notin> ik_key ` set (t_idem d)" by (auto simp: get_idem_def find_None_iff)
    with stored inv show ?thesis by (simp add: s idem_inv_def)
  qed (simp add: s inv)
qed simp

lemma serve_keeps_key: "idem_inv d \<Longrightarrow> get_idem k d = Some row \<Longrightarrow> get_idem k (fst (serve ap af now rq call d)) = Some row"
proof (rule serve_cases [of ap af now rq call d])
  fix d' res assume inv: "idem_inv d" and g: "get_idem k d = Some row" and h: "handle ap af now rq call d = Inr (d', res)"
    and s: "serve ap af now rq call d = (d', \<lparr>rs_status = 200, rs_body = res\<rparr>)"
  from h inv show ?thesis
    by (cases rule: handleE) (use g in \<open>simp_all add: s get_idem_def find_append\<close>)
qed simp

type_synonym api_history = "(app \<times> bool \<times> time \<times> request \<times> api_call) list"

definition served :: "api_history \<Rightarrow> db \<Rightarrow> db" where
  "served hist d = fold (\<lambda>(ap, af, now, rq, call) x. fst (serve ap af now rq call x)) hist d"

lemma served_simps [simp]:
  "served [] d = d" "served ((ap, af, now, rq, call) # hist) d = served hist (fst (serve ap af now rq call d))"
  by (simp_all add: served_def)

lemma served_invariant:
  assumes "I d" and "\<And>ap af now rq call d. I d \<Longrightarrow> I (fst (serve ap af now rq call d))"
  shows "I (served hist d)"
  using assms(1)
proof (induction hist arbitrary: d)
  case (Cons x hist)
  obtain ap af now rq call where "x = (ap, af, now, rq, call)" by (cases x) auto
  with Cons assms(2) show ?case by simp
qed simp

text \<open>
  C3.  Exactly-once requests.  When a request has succeeded, then after any further requests the same
  key with the same body is answered with the first response and changes nothing, and with another
  body it is a conflict and changes nothing.  The key alone decides: this holds whatever route, ticker
  or run the later request names.
\<close>

theorem requests_replay:
  assumes "idem_inv d" and "handle ap af now rq call d = Inr (d1, res)"
    and "rq_idempotency_key rq' = rq_idempotency_key rq" and "require_pm ap' rq' = Inr pm'"
  shows "serve ap' af' later rq' call' (served hist d1) =
     (served hist d1,
      if rq_body_hash rq' = rq_body_hash rq then \<lparr>rs_status = 200, rs_body = res\<rparr>
      else \<lparr>rs_status = 409, rs_body = error_body ''idempotency_conflict'' ''same Idempotency-Key, different body''
             (rq_request_id rq')\<rparr>)"
proof -
  have "idem_inv (fst (serve ap af now rq call d))" using assms(1) by (rule serve_idem_inv)
  then have inv1: "idem_inv d1" by (simp add: serve_def in_session_def assms(2))
  obtain k row where k: "rq_idempotency_key rq = Some k" "k \<noteq> []" and row: "get_idem k d1 = Some row"
    "ik_body_hash row = rq_body_hash rq" "ik_body row = res"
  proof -
    from handle_ok [of ap rq af now call] assms(2) obtain i where i: "idempotency rq d = Inr i"
      unfolding route_ok_def by blast
    from assms(2,1) show thesis
    proof (cases rule: handleE)
      case (replayed pm k row)
      with i that show thesis by (auto simp: idempotency_def split: if_splits)
    next
      case (stored pm k dx route target after row)
      then have "get_idem k d1 = Some row" by (auto simp: get_idem_def find_append)
      with stored i that show thesis by (auto simp: idempotency_def split: if_splits option.splits)
    qed
  qed
  have "idem_inv (served hist d1) \<and> get_idem k (served hist d1) = Some row"
    using inv1 row(1)
    by (intro served_invariant [where I = "\<lambda>x. idem_inv x \<and> get_idem k x = Some row"])
      (auto intro: serve_idem_inv serve_keeps_key)
  moreover from this row(3) have "res \<noteq> JNull"
    by (auto simp: get_idem_def idem_inv_def list_all_iff dest!: find_SomeD)
  ultimately have dep: "idempotency rq' (served hist d1) =
      (if rq_body_hash rq' = rq_body_hash rq
       then Inr \<lparr>id_key = k, id_body_hash = rq_body_hash rq, id_replay = Some res, id_record = Some row\<rparr>
       else Inl (ApiError ''idempotency_conflict'' ''same Idempotency-Key, different body'' 409))"
    using k row(2,3) assms(3) by (simp add: idempotency_def)
  have "\<exists>h. handle ap' af' later rq' call' = endpoint ap' rq' h"
    by (cases call') (auto simp: propose_route_def initiate_route_def decide_route_def promote_route_def demote_route_def
        exit_route_def re_propose_route_def transition_route_def set_lead_route_def set_levels_route_def new_run_route_def
        cancel_run_route_def answer_gate_route_def retry_run_route_def rate_event_route_def new_query_route_def)
  then show ?thesis
    using assms(4) dep by (auto simp: serve_def in_session_def endpoint_def error_response_def)
qed

section \<open>Authorisation and audit\<close>

lemma require_pmE:
  assumes "require_pm ap rq = Inr pm"
  obtains "bearer_token (rq_authorization rq) = Some (ap_core_api_token ap)" "ap_core_api_token ap \<noteq> []"
    "rq_pm_user rq = Some pm" "pm \<in> set (ap_pm_user_ids ap)"
  using assms by (auto simp: require_pm_def split: option.splits if_splits)

text \<open>
  C4.  A request changes the database only if it carries the API token and names a PM of the
  allowlist, and then it is a success that adds, in the same transaction, an audit row of that PM with
  the request's id and the response stored under the request's key; all it did besides was a sequence
  of repository calls.  A request that fails changes nothing.
\<close>

theorem mutations_authorised_and_audited:
  assumes "idem_inv d" and "serve ap af now rq call d = (d', r)" and "d' \<noteq> d"
  shows "\<exists>pm k xs (row :: audit_row) (kept :: idem_row).
     bearer_token (rq_authorization rq) = Some (ap_core_api_token ap) \<and> ap_core_api_token ap \<noteq> [] \<and>
     rq_pm_user rq = Some pm \<and> pm \<in> set (ap_pm_user_ids ap) \<and> rs_status r = 200 \<and>
     t_audit d' = t_audit d @ xs @ [row] \<and> au_actor row = pm \<and> au_request_id row = Some (rq_request_id rq) \<and>
     rq_idempotency_key rq = Some k \<and> t_idem d' = t_idem d @ [kept] \<and> ik_key kept = k \<and> ik_body kept = rs_body r \<and>
     ik_actor kept = pm \<and> repo_op\<^sup>*\<^sup>* d d'"
proof (rule serve_cases [of ap af now rq call d])
  fix e assume "serve ap af now rq call d = (d, error_response rq e)"
  with assms(2,3) show ?thesis by simp
next
  fix e res assume h: "handle ap af now rq call d = Inr (e, res)"
    and s: "serve ap af now rq call d = (e, \<lparr>rs_status = 200, rs_body = res\<rparr>)"
  have e: "e = d'" "r = \<lparr>rs_status = 200, rs_body = res\<rparr>" using s assms(2) by simp_all
  from h [unfolded e] assms(1) show ?thesis
  proof (cases rule: handleE)
    case (replayed pm k row)
    with assms(3) show ?thesis by simp
  next
    case (stored pm k dx route target after kept)
    let ?row = "\<lparr>au_action = route, au_actor_type = ''pm'', au_actor = pm, au_target = Some target, au_before = JNull,
       au_after = after, au_request_id = Some (rq_request_id rq)\<rparr>"
    obtain xs where xs: "t_audit dx = t_audit d @ xs" and ops: "repo_op\<^sup>*\<^sup>* d dx"
      using stored(4) by (auto simp: core_step_def)
    have "core_tables_same dx d'" by (simp add: stored core_tables_same_def write_audit_def)
    then have "repo_op\<^sup>*\<^sup>* d d'" using ops by (meson repo_op.aside rtranclp.rtrancl_into_rtrancl)
    moreover have "t_audit d' = t_audit d @ xs @ [?row]" by (simp add: stored(12) write_audit_def xs)
    moreover have "rs_status r = 200" "ik_body kept = rs_body r" using stored(7) e(2) by simp_all
    moreover have "au_actor ?row = pm" "au_request_id ?row = Some (rq_request_id rq)" by simp_all
    moreover note stored(2,5,6,10)
    moreover from stored(1) have "bearer_token (rq_authorization rq) = Some (ap_core_api_token ap)"
      "ap_core_api_token ap \<noteq> []" "rq_pm_user rq = Some pm" "pm \<in> set (ap_pm_user_ids ap)"
      by (auto elim: require_pmE)
    ultimately show ?thesis by (intro exI conjI)
  qed
qed

section \<open>Stranded tickers\<close>

lemma stranded_cong:
  "t_coverage d' = t_coverage d \<Longrightarrow> t_gates d' = t_gates d \<Longrightarrow> t_runs d' = t_runs d \<Longrightarrow> stranded c d' = stranded c d"
  by (simp add: stranded_def get_coverage_def get_run_def)

lemma serve_stranded: "idem_inv d \<Longrightarrow> stranded c d \<Longrightarrow> stranded c (fst (serve ap af now rq call d))"
proof (rule serve_cases [of ap af now rq call d])
  fix d' res assume inv: "idem_inv d" and st: "stranded c d" and h: "handle ap af now rq call d = Inr (d', res)"
    and s: "serve ap af now rq call d = (d', \<lparr>rs_status = 200, rs_body = res\<rparr>)"
  from h inv show ?thesis
  proof (cases rule: handleE)
    case (stored pm k dx route target after row)
    then have "stranded c dx" using st by (simp add: core_step_def)
    moreover have "stranded c d' = stranded c dx" by (rule stranded_cong) (simp_all add: stored write_audit_def)
    ultimately show ?thesis by (simp add: s)
  qed (simp add: s st)
qed simp

definition fresh_idem :: "request \<Rightarrow> string \<Rightarrow> idem" where
  "fresh_idem rq k = \<lparr>id_key = k, id_body_hash = rq_body_hash rq, id_replay = None, id_record = None\<rparr>"

lemma endpoint_fresh:
  "endpoint ap rq h d = Inr (d', res) \<Longrightarrow> rq_idempotency_key rq = Some k \<Longrightarrow> get_idem k d = None \<Longrightarrow>
     \<exists>pm. require_pm ap rq = Inr pm \<and> h pm (fresh_idem rq k) d = Inr (d', res)"
  by (auto simp: endpoint_def andthen_Inr_iff idempotency_def fresh_idem_def split: if_splits)

lemma andthen_pairE:
  assumes "andthen m (\<lambda>(x, y). f x y) = Inr z"
  obtains x y where "m = Inr (x, y)" and "f x y = Inr z"
  using assms by (auto simp: andthen_Inr_iff)

text \<open>
  C22.  Cancelling an initiation whose decision is pending, or answering its gate through the gate
  route, strands the ticker: whatever requests follow, it stays in decision pending, since a decision
  needs an open gate and finishing the cancelled run raises.
\<close>

theorem stranded_for_ever:
  assumes "idem_inv d" and "handle ap af now rq call d = Inr (d1, res)"
    and "rq_idempotency_key rq = Some k" and "get_idem k d = None"
    and "get_coverage c d = Some cov" and "cov_state cov = CS_Decision_Pending"
    and "(\<exists>r b. call = CancelRun r b \<and> (\<forall>g \<in> set (t_gates d). gt_state g = GS_Open \<and> gt_coverage g = Some c \<longrightarrow> gt_run g = r)) \<or>
         (\<exists>i b. call = AnswerGate i b \<and> (\<forall>g \<in> set (t_gates d). gt_state g = GS_Open \<and> gt_coverage g = Some c \<longrightarrow> gt_id g = i))"
    and "distinct (map gt_id (t_gates d))"
  shows "map_option cov_state (get_coverage c (served hist d1)) = Some CS_Decision_Pending"
proof -
  have "stranded c d1"
    using assms(7)
  proof (elim disjE exE conjE)
    fix r b assume call: "call = CancelRun r b"
      and only: "\<forall>g \<in> set (t_gates d). gt_state g = GS_Open \<and> gt_coverage g = Some c \<longrightarrow> gt_run g = r"
    from endpoint_fresh [OF _ assms(3,4)] assms(2) obtain pm where
      "andthen (finish_run now r ''cancelled'' None (sb_notes b) d) (\<lambda>dx.
         conclude rq pm (fresh_idem rq k) ''run.cancel'' (run_target r) JNull 200
           (JObj [(''run_id'', JStr (show_nat r)), (''status'', JStr ''cancelled'')]) dx) = Inr (d1, res)"
      unfolding call handle.simps cancel_run_route_def by (fastforce simp: fresh_idem_def)
    then obtain dx where f: "finish_run now r ''cancelled'' None (sb_notes b) d = Inr dx"
      and c: "conclude rq pm (fresh_idem rq k) ''run.cancel'' (run_target r) JNull 200
       (JObj [(''run_id'', JStr (show_nat r)), (''status'', JStr ''cancelled'')]) dx = Inr (d1, res)"
      unfolding andthen_Inr_iff by blast
    from f obtain run st where run: "get_run r d = Some run" and fin: "run_final st"
      and dx: "dx = finish_effect now r ''cancelled'' run ''outbox:run.finished''
            (release_lock r (upd_run r (mark_finished now st None (sb_notes b)) d))"
      by (rule finish_runE)
    have tabs: "t_runs dx = upd_row run_id r (mark_finished now st None (sb_notes b)) (t_runs d)"
      "t_coverage dx = t_coverage d" "t_gates dx = t_gates d"
      by (simp_all add: dx finish_effect_def emit_def new_id_def upd_run_def release_lock_def)
    have "get_run r dx = Some (mark_finished now st None (sb_notes b) run)"
      using run by (simp add: get_run_def tabs get_row_upd_same)
    then have "stranded c dx" using only assms(5,6) fin by (auto simp: stranded_def tabs get_coverage_def)
    moreover have "stranded c d1 = stranded c dx"
      using c by (intro stranded_cong) (auto simp: conclude_def store_def write_audit_def split: option.splits)
    ultimately show ?thesis by simp
  next
    fix i b assume call: "call = AnswerGate i b"
      and only: "\<forall>g \<in> set (t_gates d). gt_state g = GS_Open \<and> gt_coverage g = Some c \<longrightarrow> gt_id g = i"
    from endpoint_fresh [OF _ assms(3,4)] assms(2) obtain pm where
      "andthen (answer_gate now i (ab_answer b) pm (ab_notes b) k d) (\<lambda>(dx, gate).
         conclude rq pm (fresh_idem rq k) ''gate.answer'' (''gate:'' @ show_nat i) (JObj [(''answer'', JStr (ab_answer b))]) 200
           (JObj [(''gate_id'', JStr (show_nat (gt_id gate))), (''state'', JStr (gate_state_value (gt_state gate))),
              (''answer'', opt_json (gt_answer gate))]) dx) = Inr (d1, res)"
      unfolding call handle.simps answer_gate_route_def by (fastforce simp: fresh_idem_def)
    then obtain dx gt res' where f: "answer_gate now i (ab_answer b) pm (ab_notes b) k d = Inr (dx, gt)"
      and c: "conclude rq pm (fresh_idem rq k) ''gate.answer'' (''gate:'' @ show_nat i) (JObj [(''answer'', JStr (ab_answer b))]) 200
        res' dx = Inr (d1, res)"
      by (rule andthen_pairE) blast
    have "dx = upd_gate i (mark_answered now (ab_answer b) pm (ab_notes b) k) d \<or>
        (dx = d \<and> (\<exists>x. get_gate i d = Some x \<and> gt_state x = GS_Answered))"
      using f by (auto simp: answer_gate_def andthen_Inr_iff split: if_splits)
    then have "stranded c dx"
    proof (elim disjE conjE exE)
      fix x assume True: "dx = d" and x: "get_gate i d = Some x" "gt_state x = GS_Answered"
      with assms(8) have "gt_state g \<noteq> GS_Open" if "g \<in> set (t_gates d)" "gt_id g = i" for g
        using gate_tab.fetch_member [OF assms(8) that(1)] that(2) by simp
      with only have "\<not> (gt_state g = GS_Open \<and> gt_coverage g = Some c)" if "g \<in> set (t_gates d)" for g
        using that by blast
      then show ?thesis using assms(5,6) by (auto simp: stranded_def True)
    next
      assume dx: "dx = upd_gate i (mark_answered now (ab_answer b) pm (ab_notes b) k) d"
      have "\<not> (gt_state g = GS_Open \<and> gt_coverage g = Some c)" if "g \<in> set (t_gates dx)" for g
        using that only by (auto simp: dx upd_gate_def set_upd_row mark_answered_def)
      then show ?thesis using assms(5,6) by (auto simp: stranded_def dx upd_gate_def get_coverage_def)
    qed
    moreover have "stranded c d1 = stranded c dx"
      using c by (intro stranded_cong) (auto simp: conclude_def store_def write_audit_def split: option.splits)
    ultimately show ?thesis by simp
  qed
  moreover have "idem_inv d1" using serve_idem_inv [OF assms(1), of ap af now rq call] by (simp add: serve_def in_session_def assms(2))
  ultimately have "idem_inv (served hist d1) \<and> stranded c (served hist d1)"
    by (intro served_invariant [where I = "\<lambda>x. idem_inv x \<and> stranded c x"]) (auto intro: serve_idem_inv serve_stranded)
  then show ?thesis by (simp add: stranded_def)
qed

section \<open>Decisions\<close>

lemma conclude_tables:
  assumes "conclude rq pm i route tgt after code r d = Inr (d', res)"
  shows "t_coverage d' = t_coverage d" "t_runs d' = t_runs d" "t_gates d' = t_gates d" "t_locks d' = t_locks d" "res = r"
  using assms by (auto simp: conclude_def store_def write_audit_def split: option.splits)

lemma decide_handlerE:
  assumes "handle ap af now rq (Decide slug b) d = Inr (d', res)"
    and "rq_idempotency_key rq = Some k" and "get_idem k d = None"
  obtains pm cov act d1 d2 i where "require_pm ap rq = Inr pm" "get_by_slug slug d = Some cov"
    "decision_action (db_decision b) = Inr act"
    "transition_coverage now (cov_id cov) act AT_PM pm (map_option gt_run (open_coverage_gate (cov_id cov) d)) False
       (db_notes b) None d = Inr d1"
    "(case map_option gt_run (open_coverage_gate (cov_id cov) d) of None \<Rightarrow> Inr d1
      | Some k \<Rightarrow> finish_run now k ''succeeded'' None None d1) = Inr d2"
    "state_response slug (cov_id cov) d2 = Inr res"
    "conclude rq pm i ''coverage.decide'' (coverage_target (cov_id cov)) (JObj [(''decision'', JStr (db_decision b))])
      200 res d2 = Inr (d', res)"
proof -
  obtain pm where pm: "require_pm ap rq = Inr pm" and
    h: "andthen (require_coverage slug d) (\<lambda>cov.
     andthen (decision_action (db_decision b)) (\<lambda>act.
     let r = map_option gt_run (open_coverage_gate (cov_id cov) d) in
     andthen (route_transition now (cov_id cov) act pm r False (db_notes b) d) (\<lambda>d1.
     andthen (case r of None \<Rightarrow> Inr d1 | Some k \<Rightarrow> finish_run now k ''succeeded'' None None d1) (\<lambda>d2.
     andthen (state_response slug (cov_id cov) d2) (\<lambda>res.
     conclude rq pm (fresh_idem rq k) ''coverage.decide'' (coverage_target (cov_id cov)) (JObj [(''decision'', JStr (db_decision b))]) 200 res d2)))))
     = Inr (d', res)"
    using endpoint_fresh [OF assms(1) [unfolded handle.simps decide_route_def] assms(2,3)] by blast
  from h obtain cov :: coverage_row and act d1 d2 r where c: "require_coverage slug d = Inr cov"
    "decision_action (db_decision b) = Inr act"
    "transition_coverage now (cov_id cov) act AT_PM pm (map_option gt_run (open_coverage_gate (cov_id cov) d)) False
       (db_notes b) None d = Inr d1"
    "(case map_option gt_run (open_coverage_gate (cov_id cov) d) of None \<Rightarrow> Inr d1
      | Some k \<Rightarrow> finish_run now k ''succeeded'' None None d1) = Inr d2"
    "state_response slug (cov_id cov) d2 = Inr r"
    "conclude rq pm (fresh_idem rq k) ''coverage.decide'' (coverage_target (cov_id cov)) (JObj [(''decision'', JStr (db_decision b))])
      200 r d2 = Inr (d', res)"
    unfolding andthen_Inr_iff Let_def route_transition_def conflict_Inr by blast
  from c(1) have "get_by_slug slug d = Some cov" by (simp add: require_coverage_def)
  moreover have "res = r" using c(6) by (rule conclude_tables)
  ultimately show thesis using that pm c(2-6) by blast
qed

text \<open>
  C7.  A decision the API accepts ends the initiation: the ticker had an open gate that allowed the
  answer; afterwards it is active, on watch or rejected as decided, which is what the response says,
  the gate's run has succeeded, and the run no longer holds any ticker's lock.
\<close>

theorem decide_ends_initiation:
  assumes "handle ap af now rq (Decide slug b) d = Inr (d', res)"
    and "rq_idempotency_key rq = Some k" and "get_idem k d = None" and "distinct (map lk_coverage (t_locks d))"
  shows "\<exists>(cov :: coverage_row) (cov' :: coverage_row) (g :: gate_row) (run' :: run_row).
     get_by_slug slug d = Some cov \<and> open_coverage_gate (cov_id cov) d = Some g \<and>
     get_coverage (cov_id cov) d' = Some cov' \<and>
     cov_state cov' = (if db_decision b = ''active'' then CS_Active else if db_decision b = ''watch'' then CS_Watch else CS_Rejected) \<and>
     res = JObj [(''slug'', JStr slug), (''state'', JStr (coverage_state_value (cov_state cov')))] \<and>
     get_run (gt_run g) d' = Some run' \<and> run_status run' = RS_Succeeded \<and>
     (\<forall>c. lock_owner c d' = (if lock_owner c d = Some (gt_run g) then None else lock_owner c d))"
  using assms(1-3)
proof (rule decide_handlerE)
  fix pm cov act d1 d2 i
  assume slug: "get_by_slug slug d = Some cov" and act: "decision_action (db_decision b) = Inr act"
    and t: "transition_coverage now (cov_id cov) act AT_PM pm (map_option gt_run (open_coverage_gate (cov_id cov) d)) False
       (db_notes b) None d = Inr d1"
    and f: "(case map_option gt_run (open_coverage_gate (cov_id cov) d) of None \<Rightarrow> Inr d1
      | Some k \<Rightarrow> finish_run now k ''succeeded'' None None d1) = Inr d2"
    and r: "state_response slug (cov_id cov) d2 = Inr res"
    and c: "conclude rq pm i ''coverage.decide'' (coverage_target (cov_id cov)) (JObj [(''decision'', JStr (db_decision b))])
      200 res d2 = Inr (d', res)"
  note tabs = conclude_tables [OF c]
  from act have da: "act = (if db_decision b = ''active'' then Act_Decide_Active else if db_decision b = ''watch'' then Act_Decide_Watch
      else Act_Decide_Reject)" "act \<in> {Act_Decide_Active, Act_Decide_Watch, Act_Decide_Reject}"
    by (auto simp: decision_action_def split: if_splits)
  obtain g0 :: gate_row and ans and cov1 :: coverage_row where
    og: "open_gate_of (map_option gt_run (open_coverage_gate (cov_id cov) d)) d = Some g0" and
    cov1: "get_coverage (cov_id cov) d1 = Some cov1"
    "cov_state cov1 = (case act of Act_Decide_Active \<Rightarrow> CS_Active | Act_Decide_Watch \<Rightarrow> CS_Watch | _ \<Rightarrow> CS_Rejected)"
    using decision_answers_gate [OF t da(2)] by blast
  then obtain g where g: "open_coverage_gate (cov_id cov) d = Some g"
    by (cases "open_coverage_gate (cov_id cov) d") simp_all
  from f g have fin: "finish_run now (gt_run g) ''succeeded'' None None d1 = Inr d2" by simp
  have fr: "t_locks d1 = t_locks d" using transition_coverage_frame [OF t] by simp
  from fin obtain r1 where "get_run (gt_run g) d1 = Some r1" by (rule finish_runE)
  from get_run_finish [OF fin this] obtain run' where run': "get_run (gt_run g) d2 = Some run'" "run_status_value (run_status run') = ''succeeded''"
    by blast
  have suc: "run_status run' = RS_Succeeded" using run'(2) by (cases "run_status run'") simp_all
  have got: "get_coverage (cov_id cov) d2 = Some cov1" using cov1(1) finish_run_frame [OF fin] by (simp add: get_coverage_def)
  then have res: "res = JObj [(''slug'', JStr slug), (''state'', JStr (coverage_state_value (cov_state cov1)))]"
    using r by (simp add: state_response_def)
  have lk: "lock_owner c d' = (if lock_owner c d = Some (gt_run g) then None else lock_owner c d)" for c
  proof -
    have "lock_owner c d' = lock_owner c d2" "lock_owner c d1 = lock_owner c d" using fr tabs(4) by (simp_all add: lock_owner_def)
    with lock_owner_finish [OF fin, of c] assms(4) fr show ?thesis by simp
  qed
  have "get_coverage (cov_id cov) d' = Some cov1" "get_run (gt_run g) d' = Some run'"
    using got run'(1) tabs(1,2) by (simp_all add: get_coverage_def get_run_def)
  moreover have "cov_state cov1 = (if db_decision b = ''active'' then CS_Active else if db_decision b = ''watch'' then CS_Watch else CS_Rejected)"
    using cov1(2) da(1) by simp
  ultimately show ?thesis using slug g res suc lk by (intro exI conjI allI)
qed

section \<open>Witnesses\<close>

definition sample_app :: app where
  "sample_app = \<lparr>ap_core_api_token = ''secret'', ap_pm_user_ids = [''pm''], ap_fund = sample_fund, ap_meta_houses = []\<rparr>"

definition sample_rq :: "string \<Rightarrow> string \<Rightarrow> request" where
  "sample_rq k h = \<lparr>rq_authorization = Some ''Bearer secret'', rq_pm_user = Some ''pm'', rq_idempotency_key = Some k,
     rq_body_hash = h, rq_request_id = ''r''\<rparr>"

lemma sample_pm: "require_pm sample_app (sample_rq k h) = Inr ''pm''"
proof -
  have "bearer_token (Some ''Bearer secret'') = Some ''secret''" by code_simp
  then show ?thesis by (simp add: require_pm_def sample_app_def sample_rq_def)
qed

definition sample_body :: propose_body where
  "sample_body = \<lparr>pb_ticker = ''7203'', pb_exchange = ''TSE'', pb_name = ''Toyota'', pb_currency = ''JPY'',
     pb_isin = None, pb_lead = None, pb_notes = None\<rparr>"

text \<open>A ticker proposed and initiated through the API, with its decision pending.\<close>

definition sample_pending :: "error + db" where
  "sample_pending =
     andthen (handle sample_app False 1 (sample_rq ''k1'' ''h1'') (Propose sample_body) sample_desk) (\<lambda>(d1, _).
     andthen (handle sample_app False 2 (sample_rq ''k2'' ''h2'')
                (Initiate ''tse_7203'' \<lparr>ib_lead = Some ''gpt'', ib_verify_count = None\<rparr>) d1) (\<lambda>(d2, _).
     tick sample_texts False 3 (work_stages 3 [(''status'', JStr ''completed'')] 4) sample_fund d2))"

definition pending_case :: "db \<Rightarrow> bool" where
  "pending_case d = (map cov_state (t_coverage d) = [CS_Decision_Pending] \<and> map gt_state (t_gates d) = [GS_Open] \<and>
     map gt_run (t_gates d) = map run_id (t_runs d) \<and> map ik_key (t_idem d) = [''k1'', ''k2''] \<and>
     list_all (\<lambda>k. case ik_body k of JNull \<Rightarrow> False | _ \<Rightarrow> True) (t_idem d) \<and> distinct (map lk_coverage (t_locks d)))"

lemma sample_decide_ok:
  "case andthen sample_pending (\<lambda>d. andthen (handle sample_app False 5 (sample_rq ''k3'' ''h3'')
       (Decide ''tse_7203'' \<lparr>db_decision = ''active'', db_notes = None\<rparr>) d) (\<lambda>(d', res). Inr (d, d', res))) of
     Inl _ \<Rightarrow> False | Inr (d, d', res) \<Rightarrow> pending_case d"
  by code_simp

lemma sample_cancel_ok:
  "case andthen sample_pending (\<lambda>d. andthen (handle sample_app False 5 (sample_rq ''k3'' ''h3'')
       (CancelRun (run_id (hd (t_runs d))) \<lparr>sb_notes = None, sb_force = False\<rparr>) d) (\<lambda>(d', res). Inr (d, d', res))) of
     Inl _ \<Rightarrow> False | Inr (d, d', res) \<Rightarrow> pending_case d"
  by code_simp

lemma pending_caseD:
  assumes "pending_case d"
  shows "idem_inv d" "get_idem ''k3'' d = None" "distinct (map lk_coverage (t_locks d))"
    "\<exists>c. t_coverage d = [c] \<and> cov_state c = CS_Decision_Pending"
    "\<exists>g r. t_gates d = [g] \<and> t_runs d = [r] \<and> gt_run g = run_id r"
proof -
  have k: "map ik_key (t_idem d) = [''k1'', ''k2'']" and b: "list_all (\<lambda>k. case ik_body k of JNull \<Rightarrow> False | _ \<Rightarrow> True) (t_idem d)"
    using assms by (simp_all add: pending_case_def)
  have "distinct (map ik_key (t_idem d))" unfolding k by simp
  moreover have "list_all (\<lambda>k. ik_body k \<noteq> JNull) (t_idem d)" using b by (auto simp: list_all_iff)
  ultimately show "idem_inv d" by (simp add: idem_inv_def)
  have "''k3'' \<notin> set (map ik_key (t_idem d))" unfolding k by simp
  then have "ik_key x \<noteq> ''k3''" if "x \<in> set (t_idem d)" for x using that by (metis image_eqI set_map)
  then show "get_idem ''k3'' d = None" by (auto simp: get_idem_def find_None_iff)
  show "distinct (map lk_coverage (t_locks d))" "\<exists>c. t_coverage d = [c] \<and> cov_state c = CS_Decision_Pending"
    "\<exists>g r. t_gates d = [g] \<and> t_runs d = [r] \<and> gt_run g = run_id r"
    using assms by (auto simp: pending_case_def)
qed

theorem decide_ends_initiation_witness:
  "\<exists>d d' res (cov' :: coverage_row) c. sample_pending = Inr d \<and>
     handle sample_app False 5 (sample_rq ''k3'' ''h3'') (Decide ''tse_7203'' \<lparr>db_decision = ''active'', db_notes = None\<rparr>) d = Inr (d', res) \<and>
     get_coverage c d' = Some cov' \<and> cov_state cov' = CS_Active"
proof -
  obtain d d' res where r: "andthen sample_pending (\<lambda>d. andthen (handle sample_app False 5 (sample_rq ''k3'' ''h3'')
       (Decide ''tse_7203'' \<lparr>db_decision = ''active'', db_notes = None\<rparr>) d) (\<lambda>(d', res). Inr (d, d', res))) = Inr (d, d', res)"
    and p: "pending_case d" using ok3D [OF sample_decide_ok] by (elim exE conjE) (rule that)
  from r have s: "sample_pending = Inr d" and h: "handle sample_app False 5 (sample_rq ''k3'' ''h3'')
      (Decide ''tse_7203'' \<lparr>db_decision = ''active'', db_notes = None\<rparr>) d = Inr (d', res)"
    by (auto simp: andthen_Inr_iff simp del: handle.simps)
  have k: "rq_idempotency_key (sample_rq ''k3'' ''h3'') = Some ''k3''" by (simp add: sample_rq_def)
  from decide_ends_initiation [OF h k pending_caseD(2,3) [OF p]] obtain c and cov' :: coverage_row
    where "get_coverage c d' = Some cov'" "cov_state cov' = CS_Active" by auto
  with s h show ?thesis by (intro exI conjI)
qed

theorem stranded_for_ever_witness:
  "\<exists>d d1 res r c. sample_pending = Inr d \<and>
     handle sample_app False 5 (sample_rq ''k3'' ''h3'') (CancelRun r \<lparr>sb_notes = None, sb_force = False\<rparr>) d = Inr (d1, res) \<and>
     map_option cov_state (get_coverage c (served [(sample_app, False, 6, sample_rq ''k4'' ''h4'',
       Decide ''tse_7203'' \<lparr>db_decision = ''active'', db_notes = None\<rparr>)] d1)) = Some CS_Decision_Pending"
proof -
  obtain d d1 res where r: "andthen sample_pending (\<lambda>d. andthen (handle sample_app False 5 (sample_rq ''k3'' ''h3'')
       (CancelRun (run_id (hd (t_runs d))) \<lparr>sb_notes = None, sb_force = False\<rparr>) d) (\<lambda>(d', res). Inr (d, d', res))) = Inr (d, d1, res)"
    and p: "pending_case d" using ok3D [OF sample_cancel_ok] by (elim exE conjE) (rule that)
  obtain c where c: "t_coverage d = [c]" "cov_state c = CS_Decision_Pending" using pending_caseD(4) [OF p] by blast
  obtain g k where g: "t_gates d = [g]" "t_runs d = [k]" "gt_run g = run_id k" using pending_caseD(5) [OF p] by blast
  from r have s: "sample_pending = Inr d" and h: "handle sample_app False 5 (sample_rq ''k3'' ''h3'')
      (CancelRun (run_id k) \<lparr>sb_notes = None, sb_force = False\<rparr>) d = Inr (d1, res)"
    by (auto simp: andthen_Inr_iff g simp del: handle.simps)
  have key: "rq_idempotency_key (sample_rq ''k3'' ''h3'') = Some ''k3''" by (simp add: sample_rq_def)
  have cov: "get_coverage (cov_id c) d = Some c" by (simp add: get_coverage_def c)
  have dist: "distinct (map gt_id (t_gates d))" by (simp add: g)
  have only: "(\<exists>r b. CancelRun (run_id k) \<lparr>sb_notes = None, sb_force = False\<rparr> = CancelRun r b \<and>
        (\<forall>x \<in> set (t_gates d). gt_state x = GS_Open \<and> gt_coverage x = Some (cov_id c) \<longrightarrow> gt_run x = r)) \<or>
      (\<exists>i b. CancelRun (run_id k) \<lparr>sb_notes = None, sb_force = False\<rparr> = AnswerGate i b \<and>
        (\<forall>x \<in> set (t_gates d). gt_state x = GS_Open \<and> gt_coverage x = Some (cov_id c) \<longrightarrow> gt_id x = i))"
    by (simp add: g)
  note stranded_for_ever [OF pending_caseD(1) [OF p] h key pending_caseD(2) [OF p] cov c(2) only dist,
      of "[(sample_app, False, 6, sample_rq ''k4'' ''h4'', Decide ''tse_7203'' \<lparr>db_decision = ''active'', db_notes = None\<rparr>)]"]
  with s h show ?thesis by (intro exI conjI)
qed

lemma sample_desk_idem: "idem_inv sample_desk"
  by (simp add: idem_inv_def sample_desk_def empty_db_def)

lemma sample_propose_served:
  "case handle sample_app False 1 (sample_rq ''k1'' ''h1'') (Propose sample_body) sample_desk of
     Inl _ \<Rightarrow> False | Inr (d, res) \<Rightarrow> length (t_coverage d) = 1"
  by code_simp

theorem requests_replay_witness:
  "\<exists>d res. handle sample_app False 1 (sample_rq ''k1'' ''h1'') (Propose sample_body) sample_desk = Inr (d, res) \<and>
     serve sample_app False 9 (sample_rq ''k1'' ''h1'') (CancelRun 7 \<lparr>sb_notes = None, sb_force = False\<rparr>) d =
       (d, \<lparr>rs_status = 200, rs_body = res\<rparr>)"
proof -
  obtain d res where h: "handle sample_app False 1 (sample_rq ''k1'' ''h1'') (Propose sample_body) sample_desk = Inr (d, res)"
    using ok2D [OF sample_propose_served] by (elim exE conjE) (rule that)
  from requests_replay [OF sample_desk_idem h refl sample_pm, where hist = "[]"] h show ?thesis by auto
qed

theorem mutations_authorised_and_audited_witness:
  "\<exists>d r (row :: audit_row) xs. serve sample_app False 1 (sample_rq ''k1'' ''h1'') (Propose sample_body) sample_desk = (d, r) \<and>
     rs_status r = 200 \<and> t_audit d = t_audit sample_desk @ xs @ [row] \<and> au_actor row = ''pm''"
proof -
  obtain d res where h: "handle sample_app False 1 (sample_rq ''k1'' ''h1'') (Propose sample_body) sample_desk = Inr (d, res)"
    and one: "length (t_coverage d) = 1"
    using ok2D [OF sample_propose_served] by (elim exE conjE) (rule that)
  then have s: "serve sample_app False 1 (sample_rq ''k1'' ''h1'') (Propose sample_body) sample_desk =
      (d, \<lparr>rs_status = 200, rs_body = res\<rparr>)" by (simp add: serve_def in_session_def del: handle.simps)
  have "d \<noteq> sample_desk" using one by (auto simp: sample_desk_def empty_db_def)
  from mutations_authorised_and_audited [OF sample_desk_idem s this] obtain pm xs and row :: audit_row where
    "rq_pm_user (sample_rq ''k1'' ''h1'') = Some pm" "t_audit d = t_audit sample_desk @ xs @ [row]" "au_actor row = pm" by blast
  moreover from this(1) have "pm = ''pm''" by (simp add: sample_rq_def)
  moreover have "rs_status \<lparr>rs_status = 200, rs_body = res\<rparr> = 200" by simp
  ultimately show ?thesis using s by blast
qed

end
