(* ===== verification/Route_Table.thy ===== *)
theory Route_Table
  imports Routes
begin

text \<open>
  What \<open>core/api/routes.py\<close> declares to the framework: per route its method, its path template,
  the names of its query parameters and the fields of its body model.  \<open>find_route\<close> is the
  documented matching of a path against a template (a parameter is one non-empty segment), and
  \<open>conforms\<close> the JSON values a declared field takes.
\<close>

section \<open>Declarations\<close>

datatype field_type = F_Str | F_Opt_Str | F_Int | F_Opt_Int | F_Bool | F_Float | F_Dict
  | F_Items "(string \<times> field_type \<times> bool) list"

type_synonym model = "(string \<times> field_type \<times> bool) list"

definition ProposeBody :: model where
  "ProposeBody = [(''ticker'', F_Str, True), (''exchange'', F_Str, True), (''name'', F_Str, True),
     (''currency'', F_Str, True), (''isin'', F_Opt_Str, False), (''lead'', F_Opt_Str, False), (''notes'', F_Opt_Str, False)]"

definition InitiateBody :: model where
  "InitiateBody = [(''lead'', F_Opt_Str, False), (''verify_count'', F_Opt_Int, False)]"

definition DecideBody :: model where
  "DecideBody = [(''decision'', F_Str, True), (''notes'', F_Opt_Str, False)]"

definition SimpleNotes :: model where
  "SimpleNotes = [(''notes'', F_Opt_Str, False), (''force'', F_Bool, False)]"

definition LeadBody :: model where
  "LeadBody = [(''house'', F_Str, True), (''rationale'', F_Opt_Str, False)]"

definition LevelItem :: model where
  "LevelItem = [(''kind'', F_Str, True), (''value'', F_Float, True), (''currency'', F_Str, True), (''direction'', F_Str, True)]"

definition LevelsBody :: model where
  "LevelsBody = [(''levels'', F_Items LevelItem, True)]"

definition RunBody :: model where
  "RunBody = [(''type'', F_Str, True), (''coverage'', F_Opt_Str, False), (''params'', F_Dict, False)]"

definition AnswerBody :: model where
  "AnswerBody = [(''answer'', F_Str, True), (''notes'', F_Opt_Str, False)]"

definition RateBody :: model where
  "RateBody = [(''rating'', F_Int, True)]"

definition QueryBody :: model where
  "QueryBody = [(''coverage'', F_Str, True), (''question'', F_Str, True)]"

lemmas model_defs = ProposeBody_def InitiateBody_def DecideBody_def SimpleNotes_def LeadBody_def LevelItem_def
  LevelsBody_def RunBody_def AnswerBody_def RateBody_def QueryBody_def

record route =
  ro_method :: string
  ro_path :: string
  ro_query :: "string list"
  ro_body :: "model option"

definition get_route :: "string \<Rightarrow> string list \<Rightarrow> route" where
  "get_route path query = \<lparr>ro_method = ''GET'', ro_path = path, ro_query = query, ro_body = None\<rparr>"

definition post_route :: "string \<Rightarrow> model \<Rightarrow> route" where
  "post_route path body = \<lparr>ro_method = ''POST'', ro_path = path, ro_query = [], ro_body = Some body\<rparr>"

text \<open>One route per decorated function; \<open>retry_run\<close> declares no body.\<close>

definition at_propose :: route where
  "at_propose = post_route ''/coverage'' ProposeBody"

definition at_list_coverage :: route where
  "at_list_coverage = get_route ''/coverage'' [''state'']"

definition at_show_coverage :: route where
  "at_show_coverage = get_route ''/coverage/{slug}'' []"

definition at_initiate :: route where
  "at_initiate = post_route ''/coverage/{slug}/initiate'' InitiateBody"

definition at_decide :: route where
  "at_decide = post_route ''/coverage/{slug}/decide'' DecideBody"

definition at_promote :: route where
  "at_promote = post_route ''/coverage/{slug}/promote'' SimpleNotes"

definition at_demote :: route where
  "at_demote = post_route ''/coverage/{slug}/demote'' SimpleNotes"

definition at_exit_coverage :: route where
  "at_exit_coverage = post_route ''/coverage/{slug}/exit'' SimpleNotes"

definition at_re_propose :: route where
  "at_re_propose = post_route ''/coverage/{slug}/re-propose'' SimpleNotes"

definition at_set_lead :: route where
  "at_set_lead = post_route ''/coverage/{slug}/lead'' LeadBody"

definition at_set_levels :: route where
  "at_set_levels = post_route ''/coverage/{slug}/levels'' LevelsBody"

definition at_new_run :: route where
  "at_new_run = post_route ''/runs'' RunBody"

definition at_list_runs :: route where
  "at_list_runs = get_route ''/runs'' [''status'']"

definition at_cancel_run :: route where
  "at_cancel_run = post_route ''/runs/{run_id}/cancel'' SimpleNotes"

definition at_list_gates :: route where
  "at_list_gates = get_route ''/gates'' [''state_'']"

definition at_answer_gate :: route where
  "at_answer_gate = post_route ''/gates/{gate_id}/answer'' AnswerBody"

definition at_health :: route where
  "at_health = get_route ''/health'' []"

definition at_show_run :: route where
  "at_show_run = get_route ''/runs/{run_id}'' []"

definition at_retry_run :: route where
  "at_retry_run = (post_route ''/runs/{run_id}/retry'' [])\<lparr>ro_body := None\<rparr>"

definition at_show_dossier :: route where
  "at_show_dossier = get_route ''/coverage/{slug}/dossier'' []"

definition at_list_predictions :: route where
  "at_list_predictions = get_route ''/predictions'' [''coverage'', ''house'', ''status'']"

definition at_list_events :: route where
  "at_list_events = get_route ''/events'' [''coverage'', ''severity'']"

definition at_rate_event :: route where
  "at_rate_event = post_route ''/events/{event_id}/rate'' RateBody"

definition at_costs :: route where
  "at_costs = get_route ''/costs'' [''by'']"

definition at_new_query :: route where
  "at_new_query = post_route ''/queries'' QueryBody"

definition at_config_check :: route where
  "at_config_check = get_route ''/config/check'' []"

text \<open>The router, in the order of registration.\<close>

definition router :: "route list" where
  "router = [
     at_propose, at_list_coverage, at_show_coverage, at_initiate, at_decide,
     at_promote, at_demote, at_exit_coverage, at_re_propose, at_set_lead,
     at_set_levels, at_new_run, at_list_runs, at_cancel_run, at_list_gates,
     at_answer_gate, at_health, at_show_run, at_retry_run, at_show_dossier,
     at_list_predictions, at_list_events, at_rate_event, at_costs, at_new_query,
     at_config_check]"

lemmas at_defs = at_propose_def at_list_coverage_def at_show_coverage_def at_initiate_def at_decide_def at_promote_def
  at_demote_def at_exit_coverage_def at_re_propose_def at_set_lead_def at_set_levels_def at_new_run_def
  at_list_runs_def at_cancel_run_def at_list_gates_def at_answer_gate_def at_health_def at_show_run_def
  at_retry_run_def at_show_dossier_def at_list_predictions_def at_list_events_def at_rate_event_def at_costs_def
  at_new_query_def at_config_check_def

section \<open>Matching a path\<close>

fun split_at :: "char \<Rightarrow> string \<Rightarrow> string list" where
  "split_at c [] = [[]]"
| "split_at c (x # xs) =
     (if x = c then [] # split_at c xs
      else (case split_at c xs of [] \<Rightarrow> [[x]] | w # ws \<Rightarrow> (x # w) # ws))"

definition segments :: "string \<Rightarrow> string list" where
  "segments = split_at CHR ''/''"

fun match_segments :: "string list \<Rightarrow> string list \<Rightarrow> (string \<times> string) list option" where
  "match_segments [] [] = Some []"
| "match_segments (t # ts) (p # ps) =
     (case t of
        [] \<Rightarrow> if p = [] then match_segments ts ps else None
      | c # name \<Rightarrow>
          if c = CHR ''{'' then
            (if p = [] then None else map_option (Cons (butlast name, p)) (match_segments ts ps))
          else if p = t then match_segments ts ps else None)"
| "match_segments _ _ = None"

definition match_route :: "string \<Rightarrow> string \<Rightarrow> route \<Rightarrow> (string \<times> string) list option" where
  "match_route verb path r =
     (if ro_method r = verb then match_segments (segments (ro_path r)) (segments path) else None)"

fun first_match :: "string \<Rightarrow> string \<Rightarrow> route list \<Rightarrow> (route \<times> (string \<times> string) list) option" where
  "first_match verb path [] = None"
| "first_match verb path (r # rs) =
     (case match_route verb path r of Some ps \<Rightarrow> Some (r, ps) | None \<Rightarrow> first_match verb path rs)"

definition find_route :: "string \<Rightarrow> string \<Rightarrow> (route \<times> (string \<times> string) list) option" where
  "find_route verb path = first_match verb path router"

section \<open>Typed bodies\<close>

fun conforms_plain :: "field_type \<Rightarrow> json \<Rightarrow> bool" where
  "conforms_plain F_Str v = (case v of JStr _ \<Rightarrow> True | _ \<Rightarrow> False)"
| "conforms_plain F_Opt_Str v = (case v of JStr _ \<Rightarrow> True | JNull \<Rightarrow> True | _ \<Rightarrow> False)"
| "conforms_plain F_Int v = (case v of JNum q \<Rightarrow> of_int \<lfloor>q\<rfloor> = q | _ \<Rightarrow> False)"
| "conforms_plain F_Opt_Int v = (case v of JNum q \<Rightarrow> of_int \<lfloor>q\<rfloor> = q | JNull \<Rightarrow> True | _ \<Rightarrow> False)"
| "conforms_plain F_Bool v = (case v of JBool _ \<Rightarrow> True | _ \<Rightarrow> False)"
| "conforms_plain F_Float v = (case v of JNum _ \<Rightarrow> True | JStr s \<Rightarrow> s \<in> {''nan'', ''inf'', ''-inf''} | _ \<Rightarrow> False)"
| "conforms_plain F_Dict v = (case v of JObj _ \<Rightarrow> True | _ \<Rightarrow> False)"
| "conforms_plain (F_Items _) v = False"

definition conforms_model :: "(field_type \<Rightarrow> json \<Rightarrow> bool) \<Rightarrow> model \<Rightarrow> json \<Rightarrow> bool" where
  "conforms_model field m v = (case v of
     JObj kvs \<Rightarrow> list_all (\<lambda>(k, t, needed). case map_of kvs k of None \<Rightarrow> \<not> needed | Some x \<Rightarrow> field t x) m
   | _ \<Rightarrow> False)"

definition conforms :: "field_type \<Rightarrow> json \<Rightarrow> bool" where
  "conforms t v = (case t of
     F_Items m \<Rightarrow> (case v of JArr xs \<Rightarrow> list_all (conforms_model conforms_plain m) xs | _ \<Rightarrow> False)
   | _ \<Rightarrow> conforms_plain t v)"

text \<open>A route that declares no body ignores one.\<close>

definition body_ok :: "route \<Rightarrow> json option \<Rightarrow> bool" where
  "body_ok r b = (case ro_body r of
     None \<Rightarrow> True
   | Some m \<Rightarrow> (case b of None \<Rightarrow> False | Some v \<Rightarrow> conforms_model conforms m v))"

section \<open>Lemmas\<close>

lemma split_at_append: "c \<notin> set s \<Longrightarrow> split_at c (s @ c # t) = s # split_at c t"
  by (induction s) auto

lemma split_at_none: "c \<notin> set s \<Longrightarrow> split_at c s = [s]"
  by (induction s) auto

end
