(* ===== verification/Client.thy ===== *)
theory Client
  imports Api Jobs
begin

text \<open>
  \<open>cli/client.py\<close>: the client of the core API.  A request is its method, path, query parameters and
  JSON body; the headers are the client's.  The transport (httpx, the network and the service behind
  it) is a parameter that answers a request with a status and the JSON content, if any.
\<close>

record http_request =
  hr_method :: string
  hr_path :: string
  hr_params :: "(string \<times> string) list"
  hr_json :: "json option"

record core_client =
  cc_base_url :: string
  cc_token :: string
  cc_pm_user :: string

type_synonym transport = "(string \<times> string) list \<Rightarrow> http_request \<Rightarrow> nat \<times> json option"

text \<open>\<open>base_url.rstrip("/")\<close>.\<close>

definition new_core_client :: "string \<Rightarrow> string \<Rightarrow> string \<Rightarrow> core_client" where
  "new_core_client base_url token pm_user =
     \<lparr>cc_base_url = rev (dropWhile (\<lambda>c. c = CHR ''/'') (rev base_url)), cc_token = token, cc_pm_user = pm_user\<rparr>"

text \<open>The headers; \<open>fresh\<close> is the key minted when the caller passes none.\<close>

definition headers :: "core_client \<Rightarrow> string option \<Rightarrow> string \<Rightarrow> (string \<times> string) list" where
  "headers cc idm fresh =
     [(''Authorization'', ''Bearer '' @ cc_token cc), (''X-PM-User'', cc_pm_user cc),
      (''Idempotency-Key'', case idm of None \<Rightarrow> fresh | Some k \<Rightarrow> if k = [] then fresh else k)]"

datatype core_error = Core_Error nat json

definition send :: "transport \<Rightarrow> core_client \<Rightarrow> string option \<Rightarrow> string \<Rightarrow> http_request \<Rightarrow> error + (core_error + json)" where
  "send transport cc idm fresh rq =
     (let (st, content) = transport (headers cc idm fresh) rq in
      if 400 \<le> st then
        (case content of None \<Rightarrow> Inl (ValueError ''Expecting value: line 1 column 1 (char 0)'')
         | Some v \<Rightarrow> Inr (Inl (Core_Error st v)))
      else Inr (Inr (case content of None \<Rightarrow> JNull | Some v \<Rightarrow> v)))"

definition get_call :: "string \<Rightarrow> (string \<times> string) list \<Rightarrow> http_request" where
  "get_call path params = \<lparr>hr_method = ''GET'', hr_path = path, hr_params = params, hr_json = None\<rparr>"

definition post_call :: "string \<Rightarrow> json_obj \<Rightarrow> http_request" where
  "post_call path body = \<lparr>hr_method = ''POST'', hr_path = path, hr_params = [], hr_json = Some (JObj body)\<rparr>"

lemmas call_defs = get_call_def post_call_def

text \<open>\<open>{k: v for k, v in kw.items() if v}\<close>, and the single parameter sent when it is not empty.\<close>

definition given_params :: "(string \<times> string option) list \<Rightarrow> (string \<times> string) list" where
  "given_params kw = List.map_filter (\<lambda>(k, v). case v of None \<Rightarrow> None | Some s \<Rightarrow> if s = [] then None else Some (k, s)) kw"

definition text_or_null :: "string option \<Rightarrow> json" where
  "text_or_null v = (case v of None \<Rightarrow> JNull | Some s \<Rightarrow> JStr s)"

section \<open>Coverage\<close>

definition c_propose :: "string \<Rightarrow> string \<Rightarrow> string \<Rightarrow> string \<Rightarrow> json_obj \<Rightarrow> http_request" where
  "c_propose ticker exchange name currency kw = post_call ''/coverage''
     ([(''ticker'', JStr ticker), (''exchange'', JStr exchange), (''name'', JStr name), (''currency'', JStr currency)] @ kw)"

definition c_coverage_list :: "string option \<Rightarrow> http_request" where
  "c_coverage_list st = get_call ''/coverage'' (given_params [(''state'', st)])"

definition c_coverage_show :: "string \<Rightarrow> http_request" where
  "c_coverage_show slug = get_call (''/coverage/'' @ slug) []"

definition c_initiate :: "string \<Rightarrow> string option \<Rightarrow> int option \<Rightarrow> http_request" where
  "c_initiate slug lead verify_count = post_call (''/coverage/'' @ slug @ ''/initiate'')
     ((case lead of None \<Rightarrow> [] | Some l \<Rightarrow> if l = [] then [] else [(''lead'', JStr l)]) @
      (case verify_count of None \<Rightarrow> [] | Some n \<Rightarrow> [(''verify_count'', JNum (of_int n))]))"

definition c_decide :: "string \<Rightarrow> string \<Rightarrow> string option \<Rightarrow> http_request" where
  "c_decide slug decision notes = post_call (''/coverage/'' @ slug @ ''/decide'')
     [(''decision'', JStr decision), (''notes'', text_or_null notes)]"

definition c_promote :: "string \<Rightarrow> http_request" where
  "c_promote slug = post_call (''/coverage/'' @ slug @ ''/promote'') []"

definition c_demote :: "string \<Rightarrow> http_request" where
  "c_demote slug = post_call (''/coverage/'' @ slug @ ''/demote'') []"

definition c_exit_coverage :: "string \<Rightarrow> bool \<Rightarrow> string option \<Rightarrow> http_request" where
  "c_exit_coverage slug frc notes = post_call (''/coverage/'' @ slug @ ''/exit'')
     [(''force'', JBool frc), (''notes'', text_or_null notes)]"

definition c_re_propose :: "string \<Rightarrow> http_request" where
  "c_re_propose slug = post_call (''/coverage/'' @ slug @ ''/re-propose'') []"

definition c_set_lead :: "string \<Rightarrow> string \<Rightarrow> string option \<Rightarrow> http_request" where
  "c_set_lead slug house rationale = post_call (''/coverage/'' @ slug @ ''/lead'')
     [(''house'', JStr house), (''rationale'', text_or_null rationale)]"

definition c_set_levels :: "string \<Rightarrow> json list \<Rightarrow> http_request" where
  "c_set_levels slug levels = post_call (''/coverage/'' @ slug @ ''/levels'') [(''levels'', JArr levels)]"

section \<open>Runs, gates, health\<close>

definition c_new_run :: "string \<Rightarrow> string option \<Rightarrow> json_obj \<Rightarrow> http_request" where
  "c_new_run ty coverage params = post_call ''/runs''
     [(''type'', JStr ty), (''coverage'', text_or_null coverage), (''params'', JObj params)]"

definition c_runs_list :: "string option \<Rightarrow> http_request" where
  "c_runs_list st = get_call ''/runs'' (given_params [(''status'', st)])"

definition c_cancel_run :: "string \<Rightarrow> string option \<Rightarrow> http_request" where
  "c_cancel_run run reason = post_call (''/runs/'' @ run @ ''/cancel'') [(''notes'', text_or_null reason)]"

definition c_gates_list :: "string \<Rightarrow> http_request" where
  "c_gates_list st = get_call ''/gates'' [(''state'', st)]"

definition c_answer_gate :: "string \<Rightarrow> string \<Rightarrow> string option \<Rightarrow> http_request" where
  "c_answer_gate gate_id answer notes = post_call (''/gates/'' @ gate_id @ ''/answer'')
     [(''answer'', JStr answer), (''notes'', text_or_null notes)]"

definition c_health :: http_request where
  "c_health = get_call ''/health'' []"

section \<open>Read models\<close>

definition c_run_show :: "string \<Rightarrow> http_request" where
  "c_run_show run = get_call (''/runs/'' @ run) []"

definition c_run_retry :: "string \<Rightarrow> http_request" where
  "c_run_retry run = post_call (''/runs/'' @ run @ ''/retry'') []"

definition c_dossier_show :: "string \<Rightarrow> http_request" where
  "c_dossier_show slug = get_call (''/coverage/'' @ slug @ ''/dossier'') []"

definition c_predictions_list :: "(string \<times> string option) list \<Rightarrow> http_request" where
  "c_predictions_list kw = get_call ''/predictions'' (given_params kw)"

definition c_events_list :: "(string \<times> string option) list \<Rightarrow> http_request" where
  "c_events_list kw = get_call ''/events'' (given_params kw)"

definition c_events_rate :: "string \<Rightarrow> int \<Rightarrow> http_request" where
  "c_events_rate event_id rating = post_call (''/events/'' @ event_id @ ''/rate'') [(''rating'', JNum (of_int rating))]"

definition c_cost :: "string \<Rightarrow> http_request" where
  "c_cost grouping = get_call ''/costs'' [(''by'', grouping)]"

definition c_query :: "string \<Rightarrow> string \<Rightarrow> http_request" where
  "c_query coverage question = post_call ''/queries'' [(''coverage'', JStr coverage), (''question'', JStr question)]"

definition c_config_check :: http_request where
  "c_config_check = get_call ''/config/check'' []"

lemmas client_defs = c_propose_def c_coverage_list_def c_coverage_show_def c_initiate_def c_decide_def
  c_promote_def c_demote_def c_exit_coverage_def c_re_propose_def c_set_lead_def c_set_levels_def c_new_run_def
  c_runs_list_def c_cancel_run_def c_gates_list_def c_answer_gate_def c_health_def c_run_show_def c_run_retry_def
  c_dossier_show_def c_predictions_list_def c_events_list_def c_events_rate_def c_cost_def c_query_def c_config_check_def

section \<open>What the service receives\<close>

text \<open>
  The headers a request of the API carries, its body hash and id supplied by the middleware.  Between
  the client and the service lie httpx, HTTP and Starlette, which are not under \<open>src/\<close>: a request
  that arrives is taken to carry the values the client gave.  Values that HTTP does not carry (with
  blanks at the end, or with characters outside ASCII) never arrive, and nothing is said of them.
\<close>

definition received :: "(string \<times> string) list \<Rightarrow> string \<Rightarrow> string \<Rightarrow> request" where
  "received hs body_hash request_id =
     \<lparr>rq_authorization = map_of hs ''Authorization'', rq_pm_user = map_of hs ''X-PM-User'',
      rq_idempotency_key = map_of hs ''Idempotency-Key'', rq_body_hash = body_hash, rq_request_id = request_id\<rparr>"

end
