(* ===== verification/Cli.thy ===== *)
theory Cli
  imports Client
begin

text \<open>
  \<open>cli/main.py\<close> and \<open>cli/format.py\<close>: the \<open>fund\<close> command.  \<open>build_parser\<close> is its table of
  argument declarations, and \<open>parse_args\<close> what argparse does with the values given for them:
  conversion, choices, required arguments and defaults.  The splitting of the command line into the
  values given for each argument is argparse's own and outside; so are the texts of its messages, and
  a rejected command line is its exit status 2.  \<open>dumps\<close> stands for \<open>json.dumps\<close>.
\<close>

section \<open>The command map\<close>

definition ROUTE_COMMAND_MAP :: "((string \<times> string) \<times> string) list" where
  "ROUTE_COMMAND_MAP = [
     ((''POST'', ''/coverage''), ''propose''),
     ((''GET'', ''/coverage''), ''coverage-list''),
     ((''GET'', ''/coverage/{slug}''), ''coverage-show''),
     ((''GET'', ''/coverage/{slug}/dossier''), ''dossier-show''),
     ((''POST'', ''/coverage/{slug}/initiate''), ''initiate''),
     ((''POST'', ''/coverage/{slug}/decide''), ''decide''),
     ((''POST'', ''/coverage/{slug}/promote''), ''promote''),
     ((''POST'', ''/coverage/{slug}/demote''), ''demote''),
     ((''POST'', ''/coverage/{slug}/exit''), ''exit''),
     ((''POST'', ''/coverage/{slug}/re-propose''), ''re-propose''),
     ((''POST'', ''/coverage/{slug}/lead''), ''lead-set''),
     ((''POST'', ''/coverage/{slug}/levels''), ''levels-set''),
     ((''POST'', ''/runs''), ''run-new''),
     ((''GET'', ''/runs''), ''runs-list''),
     ((''GET'', ''/runs/{run_id}''), ''run-show''),
     ((''POST'', ''/runs/{run_id}/cancel''), ''run-cancel''),
     ((''POST'', ''/runs/{run_id}/retry''), ''run-retry''),
     ((''GET'', ''/gates''), ''gates-list''),
     ((''POST'', ''/gates/{gate_id}/answer''), ''gates-answer''),
     ((''POST'', ''/queries''), ''query''),
     ((''GET'', ''/predictions''), ''predictions-list''),
     ((''GET'', ''/events''), ''events-list''),
     ((''POST'', ''/events/{event_id}/rate''), ''events-rate''),
     ((''GET'', ''/costs''), ''cost''),
     ((''GET'', ''/config/check''), ''config-check''),
     ((''GET'', ''/health''), ''health'')]"

section \<open>The parser\<close>

datatype arg_type = T_Str | T_Int | T_Float | T_True

record argument =
  ar_dest :: string
  ar_required :: bool
  ar_type :: arg_type
  ar_choices :: "json list option"
  ar_default :: json

definition positional :: "string \<Rightarrow> argument" where
  "positional dest = \<lparr>ar_dest = dest, ar_required = True, ar_type = T_Str, ar_choices = None, ar_default = JNull\<rparr>"

definition option :: "string \<Rightarrow> argument" where
  "option dest = (positional dest)\<lparr>ar_required := False\<rparr>"

definition store_true :: "string \<Rightarrow> argument" where
  "store_true dest = (option dest)\<lparr>ar_type := T_True, ar_default := JBool False\<rparr>"

definition build_parser :: "(string \<times> argument list) list" where
  "build_parser = [
     (''health'', []), (''gates-list'', []),
     (''propose'', [positional ''ticker'', positional ''exchange'', (option ''name'')\<lparr>ar_required := True\<rparr>,
        (option ''currency'')\<lparr>ar_required := True\<rparr>]),
     (''coverage-list'', [option ''state'']), (''coverage-show'', [positional ''slug'']),
     (''initiate'', [positional ''slug'', option ''lead'', (option ''verify_count'')\<lparr>ar_type := T_Int\<rparr>]),
     (''decide'', [positional ''slug'',
        (positional ''decision'')\<lparr>ar_choices := Some [JStr ''active'', JStr ''watch'', JStr ''reject'']\<rparr>, option ''notes'']),
     (''promote'', [positional ''slug'']), (''demote'', [positional ''slug'']), (''re-propose'', [positional ''slug'']),
     (''exit'', [positional ''slug'', store_true ''force'', option ''notes'']),
     (''lead-set'', [positional ''slug'', positional ''house'', option ''rationale'']),
     (''levels-set'', [positional ''slug'', (option ''entry'')\<lparr>ar_type := T_Float\<rparr>, (option ''target'')\<lparr>ar_type := T_Float\<rparr>,
        (option ''stop'')\<lparr>ar_type := T_Float\<rparr>, (option ''currency'')\<lparr>ar_default := JStr ''JPY''\<rparr>]),
     (''run-new'', [positional ''type'', option ''coverage'']), (''runs-list'', [option ''status'']),
     (''run-cancel'', [positional ''run_id'', option ''reason'']),
     (''gates-answer'', [positional ''gate_id'', positional ''answer'', option ''notes'']),
     (''run-show'', [positional ''run_id'']), (''run-retry'', [positional ''run_id'']), (''dossier-show'', [positional ''slug'']),
     (''predictions-list'', [option ''coverage'', option ''house'', option ''status'']),
     (''events-list'', [option ''coverage'', option ''severity'']),
     (''events-rate'', [positional ''event_id'',
        (positional ''rating'')\<lparr>ar_type := T_Int, ar_choices := Some [JStr ''1'', JStr ''-1'']\<rparr>]),
     (''cost'', [(option ''by'')\<lparr>ar_choices := Some [JStr ''house'', JStr ''run''], ar_default := JStr ''house''\<rparr>]),
     (''query'', [positional ''coverage'', positional ''question'']), (''config-check'', []),
     (''checkconfig'', [store_true ''strict''])]"

text \<open>
  \<open>float\<close> also reads the values that are no number; they are kept by their names (\<open>''nan''\<close>, \<open>''inf''\<close>,
  \<open>''-inf''\<close>), as no JSON number stands for them.  Underscores between digits are not modelled.
\<close>

definition special_float :: "string \<Rightarrow> string option" where
  "special_float s =
     (let t = map lower_char s;
          (minus, u) = (case t of [] \<Rightarrow> (False, t)
            | c # r \<Rightarrow> if c = CHR ''-'' then (True, r) else if c = CHR ''+'' then (False, r) else (False, t))
      in if u = ''nan'' then Some ''nan''
         else if u \<in> {''inf'', ''infinity''} then Some (if minus then ''-inf'' else ''inf'')
         else None)"

text \<open>The value of an argument: converted, then looked up in the choices.\<close>

definition convert :: "arg_type \<Rightarrow> string \<Rightarrow> nat + json" where
  "convert t raw = (case t of
     T_Str \<Rightarrow> Inr (JStr raw)
   | T_Int \<Rightarrow> (case to_int (JStr (strip_space raw)) of Inl _ \<Rightarrow> Inl 2 | Inr n \<Rightarrow> Inr (JNum (of_int n)))
   | T_Float \<Rightarrow> (case special_float (strip_space raw) of
        Some s \<Rightarrow> Inr (JStr s)
      | None \<Rightarrow> (case parse_decimal (strip_space raw) of None \<Rightarrow> Inl 2 | Some q \<Rightarrow> Inr (JNum q)))
   | T_True \<Rightarrow> Inr (JBool True))"

definition parse_value :: "argument \<Rightarrow> string \<Rightarrow> nat + json" where
  "parse_value ar raw =
     andthen (convert (ar_type ar) raw) (\<lambda>v.
     case ar_choices ar of
       None \<Rightarrow> Inr v
     | Some cs \<Rightarrow> if v \<in> set cs then Inr v else Inl 2)"

definition parse_argument :: "(string \<times> string) list \<Rightarrow> argument \<Rightarrow> json_obj \<Rightarrow> nat + json_obj" where
  "parse_argument vals ar ns = (case map_of (rev vals) (ar_dest ar) of
     Some raw \<Rightarrow> andthen (parse_value ar raw) (\<lambda>v. Inr (ns @ [(ar_dest ar, v)]))
   | None \<Rightarrow> if ar_required ar then Inl 2 else Inr (ns @ [(ar_dest ar, ar_default ar)]))"

definition parse_args :: "string \<Rightarrow> (string \<times> string) list \<Rightarrow> nat + json_obj" where
  "parse_args cmd vals = (case map_of build_parser cmd of
     None \<Rightarrow> Inl 2
   | Some args \<Rightarrow>
       if \<not> set (map fst vals) \<subseteq> set (map ar_dest args) then Inl 2
       else fold_err (parse_argument vals) args [])"

section \<open>Dispatch\<close>

text \<open>\<open>args.name\<close>, at the type the client declares for it.\<close>

definition attr :: "json_obj \<Rightarrow> string \<Rightarrow> error + json" where
  "attr ns k = require AttributeError (map_of ns k)"

definition str_attr :: "json_obj \<Rightarrow> string \<Rightarrow> error + string" where
  "str_attr ns k = andthen (attr ns k) (\<lambda>v. case v of JStr s \<Rightarrow> Inr s | _ \<Rightarrow> Inl (TypeError ''str expected''))"

definition opt_attr :: "json_obj \<Rightarrow> string \<Rightarrow> error + string option" where
  "opt_attr ns k = andthen (attr ns k) (\<lambda>v. case v of
     JStr s \<Rightarrow> Inr (Some s) | JNull \<Rightarrow> Inr None | _ \<Rightarrow> Inl (TypeError ''str expected''))"

definition int_attr :: "json_obj \<Rightarrow> string \<Rightarrow> error + int option" where
  "int_attr ns k = andthen (attr ns k) (\<lambda>v. case v of
     JNum q \<Rightarrow> Inr (Some \<lfloor>q\<rfloor>) | JNull \<Rightarrow> Inr None | _ \<Rightarrow> Inl (TypeError ''int expected''))"

definition bool_attr :: "json_obj \<Rightarrow> string \<Rightarrow> error + bool" where
  "bool_attr ns k = andthen (attr ns k) (\<lambda>v. case v of JBool b \<Rightarrow> Inr b | _ \<Rightarrow> Inl (TypeError ''bool expected''))"

text \<open>The levels of \<open>levels-set\<close>: those that were given, each with the direction above.\<close>

definition level_items :: "json_obj \<Rightarrow> error + json list" where
  "level_items ns =
     andthen (str_attr ns ''currency'') (\<lambda>currency.
     fold_err (\<lambda>kind items.
       andthen (attr ns kind) (\<lambda>v.
       Inr (if v = JNull then items
            else items @ [JObj [(''kind'', JStr kind), (''value'', v), (''currency'', JStr currency),
                               (''direction'', JStr ''above'')]])))
       [''entry'', ''target'', ''stop''] [])"

text \<open>The branches of \<open>run\<close>: the request each command makes of its arguments.\<close>

definition do_health :: "json_obj \<Rightarrow> error + http_request" where
  "do_health ns =
     Inr c_health"

definition do_propose :: "json_obj \<Rightarrow> error + http_request" where
  "do_propose ns =
     andthen (str_attr ns ''ticker'') (\<lambda>t. andthen (str_attr ns ''exchange'') (\<lambda>e.
     andthen (str_attr ns ''name'') (\<lambda>n. andthen (str_attr ns ''currency'') (\<lambda>c. Inr (c_propose t e n c [])))))"

definition do_coverage_list :: "json_obj \<Rightarrow> error + http_request" where
  "do_coverage_list ns =
     andthen (opt_attr ns ''state'') (\<lambda>s. Inr (c_coverage_list s))"

definition do_coverage_show :: "json_obj \<Rightarrow> error + http_request" where
  "do_coverage_show ns =
     andthen (str_attr ns ''slug'') (\<lambda>s. Inr (c_coverage_show s))"

definition do_initiate :: "json_obj \<Rightarrow> error + http_request" where
  "do_initiate ns =
     andthen (str_attr ns ''slug'') (\<lambda>s. andthen (opt_attr ns ''lead'') (\<lambda>l.
     andthen (int_attr ns ''verify_count'') (\<lambda>n. Inr (c_initiate s l n))))"

definition do_decide :: "json_obj \<Rightarrow> error + http_request" where
  "do_decide ns =
     andthen (str_attr ns ''slug'') (\<lambda>s. andthen (str_attr ns ''decision'') (\<lambda>x.
     andthen (opt_attr ns ''notes'') (\<lambda>n. Inr (c_decide s x n))))"

definition do_promote :: "json_obj \<Rightarrow> error + http_request" where
  "do_promote ns =
     andthen (str_attr ns ''slug'') (\<lambda>s. Inr (c_promote s))"

definition do_demote :: "json_obj \<Rightarrow> error + http_request" where
  "do_demote ns =
     andthen (str_attr ns ''slug'') (\<lambda>s. Inr (c_demote s))"

definition do_exit :: "json_obj \<Rightarrow> error + http_request" where
  "do_exit ns =
     andthen (str_attr ns ''slug'') (\<lambda>s. andthen (bool_attr ns ''force'') (\<lambda>f.
     andthen (opt_attr ns ''notes'') (\<lambda>n. Inr (c_exit_coverage s f n))))"

definition do_re_propose :: "json_obj \<Rightarrow> error + http_request" where
  "do_re_propose ns =
     andthen (str_attr ns ''slug'') (\<lambda>s. Inr (c_re_propose s))"

definition do_lead_set :: "json_obj \<Rightarrow> error + http_request" where
  "do_lead_set ns =
     andthen (str_attr ns ''slug'') (\<lambda>s. andthen (str_attr ns ''house'') (\<lambda>h.
     andthen (opt_attr ns ''rationale'') (\<lambda>r. Inr (c_set_lead s h r))))"

definition do_levels_set :: "json_obj \<Rightarrow> error + http_request" where
  "do_levels_set ns =
     andthen (level_items ns) (\<lambda>ls. andthen (str_attr ns ''slug'') (\<lambda>s. Inr (c_set_levels s ls)))"

definition do_runs_list :: "json_obj \<Rightarrow> error + http_request" where
  "do_runs_list ns =
     andthen (opt_attr ns ''status'') (\<lambda>s. Inr (c_runs_list s))"

definition do_run_new :: "json_obj \<Rightarrow> error + http_request" where
  "do_run_new ns =
     andthen (str_attr ns ''type'') (\<lambda>t. andthen (opt_attr ns ''coverage'') (\<lambda>c. Inr (c_new_run t c [])))"

definition do_run_cancel :: "json_obj \<Rightarrow> error + http_request" where
  "do_run_cancel ns =
     andthen (str_attr ns ''run_id'') (\<lambda>r. andthen (opt_attr ns ''reason'') (\<lambda>n. Inr (c_cancel_run r n)))"

definition do_gates_list :: "json_obj \<Rightarrow> error + http_request" where
  "do_gates_list ns =
     Inr (c_gates_list ''open'')"

definition do_gates_answer :: "json_obj \<Rightarrow> error + http_request" where
  "do_gates_answer ns =
     andthen (str_attr ns ''gate_id'') (\<lambda>g. andthen (str_attr ns ''answer'') (\<lambda>a.
     andthen (opt_attr ns ''notes'') (\<lambda>n. Inr (c_answer_gate g a n))))"

definition do_run_show :: "json_obj \<Rightarrow> error + http_request" where
  "do_run_show ns =
     andthen (str_attr ns ''run_id'') (\<lambda>r. Inr (c_run_show r))"

definition do_run_retry :: "json_obj \<Rightarrow> error + http_request" where
  "do_run_retry ns =
     andthen (str_attr ns ''run_id'') (\<lambda>r. Inr (c_run_retry r))"

definition do_dossier_show :: "json_obj \<Rightarrow> error + http_request" where
  "do_dossier_show ns =
     andthen (str_attr ns ''slug'') (\<lambda>s. Inr (c_dossier_show s))"

definition do_predictions_list :: "json_obj \<Rightarrow> error + http_request" where
  "do_predictions_list ns =
     andthen (opt_attr ns ''coverage'') (\<lambda>c. andthen (opt_attr ns ''house'') (\<lambda>h.
     andthen (opt_attr ns ''status'') (\<lambda>s.
     Inr (c_predictions_list [(''coverage'', c), (''house'', h), (''status'', s)]))))"

definition do_events_list :: "json_obj \<Rightarrow> error + http_request" where
  "do_events_list ns =
     andthen (opt_attr ns ''coverage'') (\<lambda>c. andthen (opt_attr ns ''severity'') (\<lambda>s.
     Inr (c_events_list [(''coverage'', c), (''severity'', s)])))"

definition do_events_rate :: "json_obj \<Rightarrow> error + http_request" where
  "do_events_rate ns =
     andthen (str_attr ns ''event_id'') (\<lambda>e. andthen (int_attr ns ''rating'') (\<lambda>n.
     case n of None \<Rightarrow> Inl (TypeError ''int expected'') | Some k \<Rightarrow> Inr (c_events_rate e k)))"

definition do_cost :: "json_obj \<Rightarrow> error + http_request" where
  "do_cost ns =
     andthen (str_attr ns ''by'') (\<lambda>g. Inr (c_cost g))"

definition do_query :: "json_obj \<Rightarrow> error + http_request" where
  "do_query ns =
     andthen (str_attr ns ''coverage'') (\<lambda>c. andthen (str_attr ns ''question'') (\<lambda>q. Inr (c_query c q)))"

definition do_config_check :: "json_obj \<Rightarrow> error + http_request" where
  "do_config_check ns =
     Inr c_config_check"

definition commands :: "(string \<times> (json_obj \<Rightarrow> error + http_request)) list" where
  "commands = [
     (''health'', do_health),
     (''propose'', do_propose),
     (''coverage-list'', do_coverage_list),
     (''coverage-show'', do_coverage_show),
     (''initiate'', do_initiate),
     (''decide'', do_decide),
     (''promote'', do_promote),
     (''demote'', do_demote),
     (''exit'', do_exit),
     (''re-propose'', do_re_propose),
     (''lead-set'', do_lead_set),
     (''levels-set'', do_levels_set),
     (''runs-list'', do_runs_list),
     (''run-new'', do_run_new),
     (''run-cancel'', do_run_cancel),
     (''gates-list'', do_gates_list),
     (''gates-answer'', do_gates_answer),
     (''run-show'', do_run_show),
     (''run-retry'', do_run_retry),
     (''dossier-show'', do_dossier_show),
     (''predictions-list'', do_predictions_list),
     (''events-list'', do_events_list),
     (''events-rate'', do_events_rate),
     (''cost'', do_cost),
     (''query'', do_query),
     (''config-check'', do_config_check)]"

lemmas command_defs = do_health_def do_propose_def do_coverage_list_def do_coverage_show_def do_initiate_def
  do_decide_def do_promote_def do_demote_def do_exit_def do_re_propose_def
  do_lead_set_def do_levels_set_def do_runs_list_def do_run_new_def do_run_cancel_def
  do_gates_list_def do_gates_answer_def do_run_show_def do_run_retry_def do_dossier_show_def
  do_predictions_list_def do_events_list_def do_events_rate_def do_cost_def do_query_def
  do_config_check_def

section \<open>Running a command\<close>

record global_args =
  ga_api_url :: "string option"
  ga_token :: "string option"
  ga_pm_user :: "string option"
  ga_json_out :: bool

record outcome =
  oc_exit :: nat
  oc_out :: "string list"
  oc_err :: "string list"

text \<open>\<open>a or b\<close> on an optional text.\<close>

definition or_else :: "string option \<Rightarrow> 'a \<Rightarrow> (string \<Rightarrow> 'a) \<Rightarrow> 'a" where
  "or_else v other use = (case v of None \<Rightarrow> other | Some s \<Rightarrow> if s = [] then other else use s)"

definition client_of :: "global_args \<Rightarrow> (string \<times> string) list \<Rightarrow> error + core_client" where
  "client_of ga env =
     (let url = or_else (ga_api_url ga)
                  (case map_of env ''CORE_API_URL'' of None \<Rightarrow> ''http://127.0.0.1:8080'' | Some s \<Rightarrow> s) id;
          pm = or_else (ga_pm_user ga) (case map_of env ''PM_USER'' of None \<Rightarrow> [] | Some s \<Rightarrow> s) id in
      andthen (or_else (ga_token ga) (require (KeyError ''CORE_API_TOKEN'') (map_of env ''CORE_API_TOKEN'')) Inr) (\<lambda>token.
      Inr (new_core_client url token pm)))"

definition emit_output :: "(json \<Rightarrow> string) \<Rightarrow> bool \<Rightarrow> json \<Rightarrow> string list" where
  "emit_output dumps json_out v =
     (if json_out then [dumps v] else (case v of JArr rows \<Rightarrow> map dumps rows | _ \<Rightarrow> [dumps v]))"

definition checkconfig :: "config option \<Rightarrow> (error + settings) \<Rightarrow> (string \<times> string) list \<Rightarrow> bool \<Rightarrow> error + outcome" where
  "checkconfig cfg settings env strict = (case get_config cfg of
     Inl e \<Rightarrow> Inr \<lparr>oc_exit = 1, oc_out = [],
        oc_err = [''config not loaded: '' @ (case e of RuntimeError s \<Rightarrow> s | _ \<Rightarrow> [])]\<rparr>
   | Inr c \<Rightarrow> andthen settings (\<lambda>s.
       let results = run_checks c s env in
       Inr \<lparr>oc_exit = (if strict \<and> any_fail results then 1 else 0), oc_out = [format_table results], oc_err = []\<rparr>))"

definition run ::
  "(json \<Rightarrow> string) \<Rightarrow> transport \<Rightarrow> string \<Rightarrow> (string \<times> string) list \<Rightarrow> config option \<Rightarrow> (error + settings) \<Rightarrow>
   global_args \<Rightarrow> string \<Rightarrow> json_obj \<Rightarrow> error + outcome" where
  "run dumps transport fresh env cfg settings ga cmd ns =
     andthen (client_of ga env) (\<lambda>cc.
     case map_of commands cmd of
       Some request \<Rightarrow>
         andthen (request ns) (\<lambda>rq.
         andthen (send transport cc None fresh rq) (\<lambda>r. case r of
           Inl (Core_Error _ body) \<Rightarrow> Inr \<lparr>oc_exit = 1, oc_out = [], oc_err = [dumps body]\<rparr>
         | Inr v \<Rightarrow> Inr \<lparr>oc_exit = 0, oc_out = emit_output dumps (ga_json_out ga) v, oc_err = []\<rparr>))
     | None \<Rightarrow>
         if cmd = ''checkconfig'' then andthen (bool_attr ns ''strict'') (checkconfig cfg settings env)
         else Inr \<lparr>oc_exit = 2, oc_out = [], oc_err = []\<rparr>)"

text \<open>\<open>main\<close>: argparse ends a rejected command line with status 2 before anything is sent.\<close>

definition main ::
  "(json \<Rightarrow> string) \<Rightarrow> transport \<Rightarrow> string \<Rightarrow> (string \<times> string) list \<Rightarrow> config option \<Rightarrow> (error + settings) \<Rightarrow>
   global_args \<Rightarrow> string \<Rightarrow> (string \<times> string) list \<Rightarrow> error + outcome" where
  "main dumps transport fresh env cfg settings ga cmd vals = (case parse_args cmd vals of
     Inl n \<Rightarrow> Inr \<lparr>oc_exit = n, oc_out = [], oc_err = []\<rparr>
   | Inr ns \<Rightarrow> run dumps transport fresh env cfg settings ga cmd ns)"

section \<open>The text table\<close>

definition cell :: "(string \<times> string) list \<Rightarrow> string \<Rightarrow> string" where
  "cell row c = (case map_of row c of None \<Rightarrow> [] | Some s \<Rightarrow> s)"

definition width :: "(string \<times> string) list list \<Rightarrow> string \<Rightarrow> nat" where
  "width rows c = max (length c) (fold (\<lambda>r n. max (length (cell r c)) n) rows 0)"

definition table :: "(string \<times> string) list list \<Rightarrow> string list \<Rightarrow> string" where
  "table rows columns =
     (if rows = [] then ''(no rows)''
      else
        let line = (\<lambda>f. join ''  '' (map f columns));
            header = line (\<lambda>c. pad (width rows c) c);
            sep = line (\<lambda>c. replicate (width rows c) CHR ''-'');
            body = join [CHR 0x0A] (map (\<lambda>r. line (\<lambda>c. pad (width rows c) (cell r c))) rows)
        in header @ [CHR 0x0A] @ sep @ [CHR 0x0A] @ body)"

end
