(* ===== verification/Cli_Properties.thy ===== *)
theory Cli_Properties
  imports Cli Route_Table
begin

text \<open>
  The command line against the API: a command that parses never gets stuck, its request reaches the
  route the command map names with the arguments that were typed and a body of the declared type, and
  the caller it presents is the one the API authorises.
\<close>

section \<open>A parsed command line is typed\<close>

fun type_ok :: "arg_type \<Rightarrow> json \<Rightarrow> bool" where
  "type_ok T_Str v = (\<exists>s. v = JStr s)"
| "type_ok T_Int v = (\<exists>n :: int. v = JNum (of_int n))"
| "type_ok T_Float v = ((\<exists>q. v = JNum q) \<or> v \<in> {JStr ''nan'', JStr ''inf'', JStr ''-inf''})"
| "type_ok T_True v = (v = JBool True)"

definition value_ok :: "argument \<Rightarrow> json \<Rightarrow> bool" where
  "value_ok ar v \<longleftrightarrow>
     type_ok (ar_type ar) v \<and> (case ar_choices ar of None \<Rightarrow> True | Some cs \<Rightarrow> v \<in> set cs) \<or>
     \<not> ar_required ar \<and> v = ar_default ar"

definition typed :: "argument list \<Rightarrow> json_obj \<Rightarrow> bool" where
  "typed args ns = list_all2 (\<lambda>ar kv. fst kv = ar_dest ar \<and> value_ok ar (snd kv)) args ns"

lemma special_float_names: "special_float s = Some t \<Longrightarrow> t \<in> {''nan'', ''inf'', ''-inf''}"
  by (auto simp: special_float_def Let_def split: prod.splits if_splits)

lemma convert_typed: "convert t raw = Inr v \<Longrightarrow> type_ok t v"
  by (cases t) (auto simp: convert_def dest!: special_float_names split: option.splits sum.splits)

lemma parse_argument_typed:
  assumes "parse_argument vals ar ns = Inr ns'"
  shows "\<exists>v. ns' = ns @ [(ar_dest ar, v)] \<and> value_ok ar v"
  using assms
  by (auto simp: parse_argument_def parse_value_def value_ok_def andthen_Inr_iff
      split: option.splits if_splits dest: convert_typed)

lemma parse_arguments_typed:
  "fold_err (parse_argument vals) args ns = Inr ns' \<Longrightarrow> \<exists>ks. ns' = ns @ ks \<and> typed args ks"
proof (induction args arbitrary: ns)
  case Nil
  then show ?case by (simp add: typed_def)
next
  case (Cons ar args)
  then obtain n1 where n1: "parse_argument vals ar ns = Inr n1" and rest: "fold_err (parse_argument vals) args n1 = Inr ns'"
    by (auto simp: andthen_Inr_iff)
  from parse_argument_typed [OF n1] obtain v where v: "n1 = ns @ [(ar_dest ar, v)]" "value_ok ar v" by blast
  from Cons.IH [OF rest] obtain ks where "ns' = n1 @ ks" "typed args ks" by blast
  with v show ?case by (intro exI [of _ "(ar_dest ar, v) # ks"]) (simp add: typed_def)
qed

lemma parse_args_typed:
  assumes "parse_args cmd vals = Inr ns"
  obtains args where "map_of build_parser cmd = Some args" "typed args ns"
  using assms parse_arguments_typed [of vals _ "[]" ns]
  by (auto simp: parse_args_def split: option.splits if_splits)

section \<open>Paths\<close>

definition url_safe :: "string \<Rightarrow> bool" where
  "url_safe s \<longleftrightarrow> s \<noteq> [] \<and> list_all (\<lambda>c. alnum c \<or> c = CHR ''_'' \<or> c = CHR ''-'') s"

lemma url_safeD: "url_safe s \<Longrightarrow> s \<noteq> [] \<and> CHR ''/'' \<notin> set s"
  by (auto simp: url_safe_def list_all_iff alnum_def)

lemma segments_last: "CHR ''/'' \<notin> set s \<Longrightarrow> split_at CHR ''/'' s = [s]"
  by (rule split_at_none)

fun first_seg :: "string \<Rightarrow> string list \<Rightarrow> (string \<times> string list \<times> route) list \<Rightarrow> (route \<times> (string \<times> string) list) option" where
  "first_seg verb path [] = None"
| "first_seg verb path ((v, t, r) # rs) =
     (if v = verb then (case match_segments t path of Some ps \<Rightarrow> Some (r, ps) | None \<Rightarrow> first_seg verb path rs)
      else first_seg verb path rs)"

lemma first_match_seg:
  "first_match verb path rs = first_seg verb (segments path) (map (\<lambda>r. (ro_method r, segments (ro_path r), r)) rs)"
  by (induction rs) (auto simp: match_route_def split: option.split)

lemma segments_Cons_slash: "segments (CHR ''/'' # s) = [] # split_at CHR ''/'' s"
  by (simp add: segments_def)

lemmas segments_simps = segments_Cons_slash split_at_append split_at_none url_safeD

definition path_arguments :: "string list" where
  "path_arguments = [''slug'', ''run_id'', ''gate_id'', ''event_id'']"

text \<open>The route a request is dispatched to, and what a command's request must come to.\<close>

definition route_of :: "http_request \<Rightarrow> (route \<times> (string \<times> string) list) option" where
  "route_of rq = find_route (hr_method rq) (hr_path rq)"

definition reaches :: "string \<Rightarrow> json_obj \<Rightarrow> bool" where
  "reaches cmd ns \<longleftrightarrow> (case map_of commands cmd of None \<Rightarrow> False | Some f \<Rightarrow>
     (case f ns of Inl _ \<Rightarrow> False | Inr rq \<Rightarrow>
     (case route_of rq of None \<Rightarrow> False | Some (r, ps) \<Rightarrow>
        map_of ROUTE_COMMAND_MAP (ro_method r, ro_path r) = Some cmd \<and>
        list_all (\<lambda>(k, v). map_of ns k = Some (JStr v)) ps \<and>
        body_ok r (hr_json rq) \<and>
        (cmd \<noteq> ''gates-list'' \<longrightarrow> set (map fst (hr_params rq)) \<subseteq> set (ro_query r)))))"

definition safe_paths :: "json_obj \<Rightarrow> bool" where
  "safe_paths ns \<longleftrightarrow> (\<forall>k \<in> set path_arguments. \<forall>s. map_of ns k = Some (JStr s) \<longrightarrow> url_safe s)"

text \<open>The table of the routes with their templates cut into segments.\<close>

lemma router_segments:
  "map (\<lambda>r. (ro_method r, segments (ro_path r), r)) router = [
     (''POST'', [[], ''coverage''], post_route ''/coverage'' ProposeBody),
     (''GET'', [[], ''coverage''], get_route ''/coverage'' [''state'']),
     (''GET'', [[], ''coverage'', ''{slug}''], get_route ''/coverage/{slug}'' []),
     (''POST'', [[], ''coverage'', ''{slug}'', ''initiate''], post_route ''/coverage/{slug}/initiate'' InitiateBody),
     (''POST'', [[], ''coverage'', ''{slug}'', ''decide''], post_route ''/coverage/{slug}/decide'' DecideBody),
     (''POST'', [[], ''coverage'', ''{slug}'', ''promote''], post_route ''/coverage/{slug}/promote'' SimpleNotes),
     (''POST'', [[], ''coverage'', ''{slug}'', ''demote''], post_route ''/coverage/{slug}/demote'' SimpleNotes),
     (''POST'', [[], ''coverage'', ''{slug}'', ''exit''], post_route ''/coverage/{slug}/exit'' SimpleNotes),
     (''POST'', [[], ''coverage'', ''{slug}'', ''re-propose''], post_route ''/coverage/{slug}/re-propose'' SimpleNotes),
     (''POST'', [[], ''coverage'', ''{slug}'', ''lead''], post_route ''/coverage/{slug}/lead'' LeadBody),
     (''POST'', [[], ''coverage'', ''{slug}'', ''levels''], post_route ''/coverage/{slug}/levels'' LevelsBody),
     (''POST'', [[], ''runs''], post_route ''/runs'' RunBody),
     (''GET'', [[], ''runs''], get_route ''/runs'' [''status'']),
     (''POST'', [[], ''runs'', ''{run_id}'', ''cancel''], post_route ''/runs/{run_id}/cancel'' SimpleNotes),
     (''GET'', [[], ''gates''], get_route ''/gates'' [''state_'']),
     (''POST'', [[], ''gates'', ''{gate_id}'', ''answer''], post_route ''/gates/{gate_id}/answer'' AnswerBody),
     (''GET'', [[], ''health''], get_route ''/health'' []),
     (''GET'', [[], ''runs'', ''{run_id}''], get_route ''/runs/{run_id}'' []),
     (''POST'', [[], ''runs'', ''{run_id}'', ''retry''], (post_route ''/runs/{run_id}/retry'' [])\<lparr>ro_body := None\<rparr>),
     (''GET'', [[], ''coverage'', ''{slug}'', ''dossier''], get_route ''/coverage/{slug}/dossier'' []),
     (''GET'', [[], ''predictions''], get_route ''/predictions'' [''coverage'', ''house'', ''status'']),
     (''GET'', [[], ''events''], get_route ''/events'' [''coverage'', ''severity'']),
     (''POST'', [[], ''events'', ''{event_id}'', ''rate''], post_route ''/events/{event_id}/rate'' RateBody),
     (''GET'', [[], ''costs''], get_route ''/costs'' [''by'']),
     (''POST'', [[], ''queries''], post_route ''/queries'' QueryBody),
     (''GET'', [[], ''config'', ''check''], get_route ''/config/check'' [])]"
  by (simp add: router_def at_defs segments_def get_route_def post_route_def)

lemmas find_route_seg = find_route_def first_match_seg router_segments


subsection \<open>Routes of the client's calls\<close>

lemmas route_eval = route_of_def find_route_seg segments_simps client_defs call_defs

lemma coverage_calls:
  assumes "url_safe s"
  shows "route_of (c_coverage_show s) = Some (get_route ''/coverage/{slug}'' [], [(''slug'', s)])"
    and "route_of (c_dossier_show s) = Some (get_route ''/coverage/{slug}/dossier'' [], [(''slug'', s)])"
    and "route_of (c_initiate s l n) = Some (post_route ''/coverage/{slug}/initiate'' InitiateBody, [(''slug'', s)])"
    and "route_of (c_decide s x t) = Some (post_route ''/coverage/{slug}/decide'' DecideBody, [(''slug'', s)])"
    and "route_of (c_promote s) = Some (post_route ''/coverage/{slug}/promote'' SimpleNotes, [(''slug'', s)])"
    and "route_of (c_demote s) = Some (post_route ''/coverage/{slug}/demote'' SimpleNotes, [(''slug'', s)])"
    and "route_of (c_exit_coverage s f t) = Some (post_route ''/coverage/{slug}/exit'' SimpleNotes, [(''slug'', s)])"
    and "route_of (c_re_propose s) = Some (post_route ''/coverage/{slug}/re-propose'' SimpleNotes, [(''slug'', s)])"
    and "route_of (c_set_lead s h t) = Some (post_route ''/coverage/{slug}/lead'' LeadBody, [(''slug'', s)])"
    and "route_of (c_set_levels s ls) = Some (post_route ''/coverage/{slug}/levels'' LevelsBody, [(''slug'', s)])"
  using assms by (simp_all add: route_eval)

lemma id_calls:
  assumes "url_safe s"
  shows "route_of (c_run_show s) = Some (get_route ''/runs/{run_id}'' [], [(''run_id'', s)])"
    and "route_of (c_cancel_run s t) = Some (post_route ''/runs/{run_id}/cancel'' SimpleNotes, [(''run_id'', s)])"
    and "route_of (c_run_retry s) = Some ((post_route ''/runs/{run_id}/retry'' [])\<lparr>ro_body := None\<rparr>, [(''run_id'', s)])"
    and "route_of (c_answer_gate s a t) = Some (post_route ''/gates/{gate_id}/answer'' AnswerBody, [(''gate_id'', s)])"
    and "route_of (c_events_rate s n) = Some (post_route ''/events/{event_id}/rate'' RateBody, [(''event_id'', s)])"
  using assms by (simp_all add: route_eval)

lemma plain_calls:
  "route_of (c_propose a b c d []) = Some (post_route ''/coverage'' ProposeBody, [])"
  "route_of (c_coverage_list t) = Some (get_route ''/coverage'' [''state''], [])"
  "route_of (c_new_run a t ps) = Some (post_route ''/runs'' RunBody, [])"
  "route_of (c_runs_list t) = Some (get_route ''/runs'' [''status''], [])"
  "route_of (c_gates_list a) = Some (get_route ''/gates'' [''state_''], [])"
  "route_of c_health = Some (get_route ''/health'' [], [])"
  "route_of (c_predictions_list kw) = Some (get_route ''/predictions'' [''coverage'', ''house'', ''status''], [])"
  "route_of (c_events_list kw) = Some (get_route ''/events'' [''coverage'', ''severity''], [])"
  "route_of (c_cost a) = Some (get_route ''/costs'' [''by''], [])"
  "route_of (c_query a b) = Some (post_route ''/queries'' QueryBody, [])"
  "route_of c_config_check = Some (get_route ''/config/check'' [], [])"
  by (simp_all add: route_eval)

lemmas calls_routed = coverage_calls id_calls plain_calls

subsection \<open>Bodies and parameters of the client's calls\<close>


lemmas body_eval = body_ok_def conforms_model_def conforms_def model_defs post_route_def get_route_def client_defs call_defs
  text_or_null_def

lemma bodies_conform:
  "body_ok (post_route p ProposeBody) (hr_json (c_propose a b c d []))"
  "body_ok (post_route p InitiateBody) (hr_json (c_initiate s l n))"
  "body_ok (post_route p DecideBody) (hr_json (c_decide s x t))"
  "body_ok (post_route p SimpleNotes) (hr_json (c_promote s))"
  "body_ok (post_route p SimpleNotes) (hr_json (c_demote s))"
  "body_ok (post_route p SimpleNotes) (hr_json (c_exit_coverage s f t))"
  "body_ok (post_route p SimpleNotes) (hr_json (c_re_propose s))"
  "body_ok (post_route p LeadBody) (hr_json (c_set_lead s h t))"
  "body_ok (post_route p RunBody) (hr_json (c_new_run a t ps))"
  "body_ok (post_route p SimpleNotes) (hr_json (c_cancel_run s t))"
  "body_ok (post_route p AnswerBody) (hr_json (c_answer_gate s a t))"
  "body_ok (post_route p RateBody) (hr_json (c_events_rate s m))"
  "body_ok (post_route p QueryBody) (hr_json (c_query a b))"
  "body_ok ((post_route p [])\<lparr>ro_body := None\<rparr>) j"
  "body_ok (get_route p q) j"
  by (auto simp: body_eval split: option.split)

lemma levels_conform:
  "list_all (conforms_model conforms_plain LevelItem) ls \<Longrightarrow> body_ok (post_route p LevelsBody) (hr_json (c_set_levels s ls))"
  by (simp add: body_ok_def conforms_model_def [of conforms] conforms_def LevelsBody_def post_route_def client_defs call_defs)

lemma given_params_keys: "set (map fst (given_params kw)) \<subseteq> set (map fst kw)"
  by (force simp: given_params_def List.map_filter_def split: option.splits if_splits)

lemma calls_params:
  "hr_params (c_propose a b c d kw) = []" "hr_params (c_initiate s l n) = []" "hr_params (c_decide s x t) = []"
  "hr_params (c_promote s) = []" "hr_params (c_demote s) = []" "hr_params (c_exit_coverage s f t) = []"
  "hr_params (c_re_propose s) = []" "hr_params (c_set_lead s h t) = []" "hr_params (c_set_levels s ls) = []"
  "hr_params (c_new_run a t ps) = []" "hr_params (c_cancel_run s t) = []" "hr_params (c_answer_gate s a t) = []"
  "hr_params (c_events_rate s m) = []" "hr_params (c_query a b) = []" "hr_params (c_run_retry s) = []"
  "hr_params (c_coverage_show s) = []" "hr_params (c_run_show s) = []" "hr_params (c_dossier_show s) = []"
  "hr_params c_health = []" "hr_params c_config_check = []" "hr_params (c_cost a) = [(''by'', a)]"
  "hr_params (c_coverage_list t) = given_params [(''state'', t)]"
  "hr_params (c_runs_list t) = given_params [(''status'', t)]"
  "hr_params (c_predictions_list qs) = given_params qs" "hr_params (c_events_list qs) = given_params qs"
  by (simp_all add: client_defs call_defs)

lemma params_declared: "(k, v) \<in> set (given_params kw) \<Longrightarrow> k \<in> set (map fst kw)"
  using given_params_keys [of kw] by force

subsection \<open>The typed namespaces\<close>

lemma typed_Nil: "typed [] ns \<longleftrightarrow> ns = []"
  by (simp add: typed_def)

lemma typed_Cons: "typed (ar # args) ns \<longleftrightarrow> (\<exists>v ks. ns = (ar_dest ar, v) # ks \<and> value_ok ar v \<and> typed args ks)"
  by (auto simp: typed_def list_all2_Cons1)

lemma value_positional: "value_ok (positional d) v \<longleftrightarrow> (\<exists>s. v = JStr s)"
  by (simp add: value_ok_def positional_def)

lemma value_option: "value_ok (option d) v \<longleftrightarrow> v = JNull \<or> (\<exists>s. v = JStr s)"
  by (auto simp: value_ok_def positional_def option_def)

lemma value_required_option: "value_ok (option d\<lparr>ar_required := True\<rparr>) v \<longleftrightarrow> (\<exists>s. v = JStr s)"
  by (simp add: value_ok_def positional_def option_def)

lemma value_number:
  "value_ok (option d\<lparr>ar_type := T_Float\<rparr>) v \<longleftrightarrow> v = JNull \<or> type_ok T_Float v"
  "value_ok (option d\<lparr>ar_type := T_Int\<rparr>) v \<longleftrightarrow> v = JNull \<or> (\<exists>n :: int. v = JNum (of_int n))"
  by (auto simp: value_ok_def positional_def option_def)

lemma value_flag: "value_ok (store_true d) v \<longleftrightarrow> (\<exists>b. v = JBool b)"
  by (auto simp: value_ok_def positional_def option_def store_true_def)

lemma value_choice: "value_ok (positional d\<lparr>ar_choices := Some cs\<rparr>) v \<longleftrightarrow> (\<exists>s. v = JStr s \<and> JStr s \<in> set cs)"
  by (auto simp: value_ok_def positional_def)

lemma value_default:
  "value_ok (option d\<lparr>ar_default := JStr t\<rparr>) v \<longleftrightarrow> (\<exists>s. v = JStr s)"
  "value_ok (option d\<lparr>ar_choices := Some cs, ar_default := JStr t\<rparr>) v \<longleftrightarrow> (\<exists>s. v = JStr s \<and> (JStr s \<in> set cs \<or> s = t))"
  by (auto simp: value_ok_def positional_def option_def)

lemma value_no_rating: "\<not> value_ok (positional d\<lparr>ar_type := T_Int, ar_choices := Some [JStr a, JStr b]\<rparr>) v"
  by (auto simp: value_ok_def positional_def)

lemma dests: "ar_dest (positional d) = d" "ar_dest (option d) = d" "ar_dest (store_true d) = d"
  by (simp_all add: positional_def option_def store_true_def)

lemmas typed_eval = typed_Nil typed_Cons value_positional value_option value_required_option value_number value_flag
  value_choice value_default dests

subsection \<open>Every command gets to its route\<close>

lemmas reach_eval = reaches_def commands_def command_defs str_attr_def opt_attr_def int_attr_def bool_attr_def attr_def
  calls_routed bodies_conform calls_params ROUTE_COMMAND_MAP_def safe_paths_def path_arguments_def typed_eval


lemma route_sel:
  "ro_method (post_route p b) = ''POST''" "ro_path (post_route p b) = p" "ro_query (post_route p b) = []"
  "ro_method (get_route p q) = ''GET''" "ro_path (get_route p q) = p" "ro_query (get_route p q) = q"
  by (simp_all add: post_route_def get_route_def)

lemma reach_no_argument:
  assumes "typed [] ns"
  shows "reaches ''health'' ns" "reaches ''gates-list'' ns" "reaches ''config-check'' ns"
  using assms by (simp_all add: reach_eval route_sel)

lemma reach_slug:
  assumes "safe_paths ns" and "typed [positional ''slug''] ns"
  shows "reaches ''coverage-show'' ns" "reaches ''promote'' ns" "reaches ''demote'' ns" "reaches ''re-propose'' ns"
    "reaches ''dossier-show'' ns"
  using assms by (auto simp: reach_eval route_sel)

lemma reach_run:
  assumes "safe_paths ns" and "typed [positional ''run_id''] ns"
  shows "reaches ''run-show'' ns" "reaches ''run-retry'' ns"
  using assms by (auto simp: reach_eval route_sel)

lemma reach_two:
  assumes "safe_paths ns"
  shows "typed [positional ''run_id'', option ''reason''] ns \<Longrightarrow> reaches ''run-cancel'' ns"
    and "typed [positional ''type'', option ''coverage''] ns \<Longrightarrow> reaches ''run-new'' ns"
    and "typed [positional ''coverage'', positional ''question''] ns \<Longrightarrow> reaches ''query'' ns"
  using assms by (auto simp: reach_eval route_sel)

lemma reach_three:
  assumes "safe_paths ns"
  shows "typed [positional ''gate_id'', positional ''answer'', option ''notes''] ns \<Longrightarrow> reaches ''gates-answer'' ns"
    and "typed [positional ''slug'', positional ''house'', option ''rationale''] ns \<Longrightarrow> reaches ''lead-set'' ns"
    and "typed [positional ''slug'', store_true ''force'', option ''notes''] ns \<Longrightarrow> reaches ''exit'' ns"
  using assms by (auto simp: reach_eval route_sel)

lemma reach_decide:
  assumes "safe_paths ns"
  shows "typed [positional ''slug'', positional ''decision''\<lparr>ar_choices := Some [JStr ''active'', JStr ''watch'', JStr ''reject'']\<rparr>, option ''notes''] ns \<Longrightarrow> reaches ''decide'' ns"
    and "typed [positional ''slug'', option ''lead'', option ''verify_count''\<lparr>ar_type := T_Int\<rparr>] ns \<Longrightarrow> reaches ''initiate'' ns"
  using assms by (auto simp: reach_eval route_sel)

lemma reach_propose:
  "typed [positional ''ticker'', positional ''exchange'', option ''name''\<lparr>ar_required := True\<rparr>,
     option ''currency''\<lparr>ar_required := True\<rparr>] ns \<Longrightarrow> reaches ''propose'' ns"
  by (auto simp: reach_eval route_sel)

lemma reach_list:
  "typed [option ''state''] ns \<Longrightarrow> reaches ''coverage-list'' ns"
  "typed [option ''status''] ns \<Longrightarrow> reaches ''runs-list'' ns"
  "typed [option ''by''\<lparr>ar_choices := Some [JStr ''house'', JStr ''run''], ar_default := JStr ''house''\<rparr>] ns \<Longrightarrow> reaches ''cost'' ns"
  "typed [option ''coverage'', option ''severity''] ns \<Longrightarrow> reaches ''events-list'' ns"
  by (auto simp: reach_eval route_sel dest!: params_declared)

lemma reach_predictions:
  "typed [option ''coverage'', option ''house'', option ''status''] ns \<Longrightarrow> reaches ''predictions-list'' ns"
  by (auto simp: reach_eval route_sel dest!: params_declared)


lemma levels_typed:
  assumes "level_items ns = Inr ls" and "\<forall>k \<in> {''entry'', ''target'', ''stop''}. \<forall>v. map_of ns k = Some v \<longrightarrow> v = JNull \<or> type_ok T_Float v"
  shows "list_all (conforms_model conforms_plain LevelItem) ls"
  using assms
  by (auto simp: level_items_def attr_def andthen_Inr_iff conforms_model_def LevelItem_def split: if_splits)

lemma level_items_total:
  assumes "map_of ns ''currency'' = Some (JStr c)"
    and "map_of ns ''entry'' = Some x" "map_of ns ''target'' = Some y" "map_of ns ''stop'' = Some z"
  shows "\<exists>ls. level_items ns = Inr ls"
  using assms by (simp add: level_items_def str_attr_def attr_def)

lemma reach_levels:
  assumes "safe_paths ns"
    and "typed [positional ''slug'', option ''entry''\<lparr>ar_type := T_Float\<rparr>, option ''target''\<lparr>ar_type := T_Float\<rparr>,
        option ''stop''\<lparr>ar_type := T_Float\<rparr>, option ''currency''\<lparr>ar_default := JStr ''JPY''\<rparr>] ns"
  shows "reaches ''levels-set'' ns"
proof -
  from assms(2) obtain s x y z c where
    ns: "ns = [(''slug'', JStr s), (''entry'', x), (''target'', y), (''stop'', z), (''currency'', JStr c)]"
    and num: "\<forall>v \<in> {x, y, z}. v = JNull \<or> type_ok T_Float v"
    by (auto simp: typed_eval)
  obtain ls where ls: "level_items ns = Inr ls" using level_items_total [of ns c x y z] by (auto simp: ns)
  then have "list_all (conforms_model conforms_plain LevelItem) ls" by (rule levels_typed) (use num in \<open>simp add: ns\<close>)
  then show ?thesis using assms(1) ls
    by (simp add: reaches_def commands_def do_levels_set_def str_attr_def attr_def calls_routed levels_conform calls_params
        ROUTE_COMMAND_MAP_def safe_paths_def path_arguments_def route_sel ns)
qed

lemma no_rating: "\<not> typed [positional ''event_id'', positional ''rating''\<lparr>ar_type := T_Int, ar_choices := Some [JStr ''1'', JStr ''-1'']\<rparr>] ns"
  by (simp add: typed_Cons value_no_rating)

lemmas reach_all = reach_no_argument reach_slug reach_run reach_two reach_three reach_decide reach_propose reach_list
  reach_predictions reach_levels no_rating

lemma parsed_reaches:
  assumes "parse_args cmd vals = Inr ns" and "cmd \<noteq> ''checkconfig''" and "safe_paths ns"
  shows "reaches cmd ns"
proof -
  from assms(1) obtain args where "map_of build_parser cmd = Some args" and t: "typed args ns" by (rule parse_args_typed)
  then have "(cmd, args) \<in> set build_parser" by (simp add: map_of_SomeD)
  then show ?thesis
    unfolding build_parser_def list.set insert_iff empty_iff prod.inject
    using t assms(2,3) by (elim disjE conjE) (simp_all add: reach_all)
qed


text \<open>The slugs the program makes are safe in a path.\<close>

lemma join_words_chars: "list_all is_word ws \<Longrightarrow> c \<in> set (join_words ws) \<Longrightarrow> alnum c \<or> c = CHR ''_''"
  by (induction ws rule: join_words.induct) (auto simp: is_word_def list_all_iff)

lemma dossier_slug_url_safe: "compute_dossier_slug e t \<noteq> [] \<Longrightarrow> url_safe (compute_dossier_slug e t)"
  using join_words_chars [OF slug_words_are_words]
  by (auto simp: url_safe_def compute_dossier_slug_words list_all_iff)

section \<open>The text table\<close>

lemma join_length: "length (join sep xs) = sum_list (map length xs) + length sep * (length xs - 1)"
  by (induction sep xs rule: join.induct) (auto simp: algebra_simps)

lemma fold_max_ge: "(n :: nat) \<le> fold (\<lambda>x m. max (f x) m) xs n"
proof (induction xs arbitrary: n)
  case (Cons x xs)
  show ?case using Cons.IH [of "max (f x) n"] by simp
qed simp

lemma fold_max_member: "x \<in> set xs \<Longrightarrow> (f x :: nat) \<le> fold (\<lambda>x m. max (f x) m) xs n"
proof (induction xs arbitrary: n)
  case (Cons y xs)
  show ?case
  proof (cases "x = y")
    case True
    then show ?thesis using fold_max_ge [of "max (f y) n" f xs] by simp
  next
    case False
    then show ?thesis using Cons by simp
  qed
qed simp

lemma width_cell: "r \<in> set rows \<Longrightarrow> length (cell r c) \<le> width rows c"
  unfolding width_def by (rule max.coboundedI2, rule fold_max_member)

lemma width_header: "length c \<le> width rows c"
  by (simp add: width_def)

lemma pad_length: "length s \<le> n \<Longrightarrow> length (pad n s) = n"
  by (simp add: pad_def)

text \<open>Every line of a table has the same length, so that the columns are aligned.\<close>

lemma table_aligned:
  assumes "rows \<noteq> []"
  shows "\<exists>header sep ls. table rows columns = header @ [CHR 0x0A] @ sep @ [CHR 0x0A] @ join [CHR 0x0A] ls \<and>
    length ls = length rows \<and>
    (\<forall>l \<in> {header, sep} \<union> set ls. length l = sum_list (map (width rows) columns) + 2 * (length columns - 1))"
proof -
  have line: "length (join ''  '' (map f columns)) = sum_list (map (width rows) columns) + 2 * (length columns - 1)"
    if "\<And>c. length (f c) = width rows c" for f
    using that by (simp add: join_length comp_def)
  show ?thesis
    using assms unfolding table_def Let_def
    by (intro exI [of _ "join ''  '' (map (\<lambda>c. pad (width rows c) c) columns)"]
          exI [of _ "join ''  '' (map (\<lambda>c. replicate (width rows c) CHR ''-'') columns)"]
          exI [of _ "map (\<lambda>r. join ''  '' (map (\<lambda>c. pad (width rows c) (cell r c)) columns)) rows"])
      (auto simp: line pad_length width_cell width_header)
qed

section \<open>Properties\<close>

text \<open>
  C34.  A command line that parses never gets stuck on its arguments: except for the local
  checkconfig, it becomes one request, which the router dispatches to the route the command map
  names for the command, with the path parameters that were typed (identifiers and slugs safe in a
  path) and a body of the route's declared model; but for gates-list, the route also declares every
  query parameter that is sent.
\<close>

theorem cli_requests_reach_their_routes:
  assumes "parse_args cmd vals = Inr ns" and "cmd \<noteq> ''checkconfig''"
    and "\<forall>k \<in> set path_arguments. \<forall>s. map_of ns k = Some (JStr s) \<longrightarrow> url_safe s"
  shows "\<exists>f rq r ps. map_of commands cmd = Some f \<and> f ns = Inr rq \<and>
    find_route (hr_method rq) (hr_path rq) = Some (r, ps) \<and>
    map_of ROUTE_COMMAND_MAP (ro_method r, ro_path r) = Some cmd \<and>
    list_all (\<lambda>(k, v). map_of ns k = Some (JStr v)) ps \<and>
    body_ok r (hr_json rq) \<and>
    (cmd \<noteq> ''gates-list'' \<longrightarrow> set (map fst (hr_params rq)) \<subseteq> set (ro_query r))"
proof -
  have "reaches cmd ns" using assms by (intro parsed_reaches) (simp_all add: safe_paths_def)
  then show ?thesis
    by (auto simp: reaches_def route_of_def split: option.splits sum.splits)
qed

lemma parse_decide:
  "parse_args ''decide'' [(''slug'', ''tse_7203''), (''decision'', ''active'')] =
     Inr [(''slug'', JStr ''tse_7203''), (''decision'', JStr ''active''), (''notes'', JNull)]"
  by code_simp

lemma slug_safe: "url_safe ''tse_7203''"
  by code_simp

theorem cli_requests_reach_their_routes_witness:
  "\<exists>f rq r ps. map_of commands ''decide'' = Some f \<and>
     f [(''slug'', JStr ''tse_7203''), (''decision'', JStr ''active''), (''notes'', JNull)] = Inr rq \<and>
     find_route (hr_method rq) (hr_path rq) = Some (r, ps) \<and> ro_path r = ''/coverage/{slug}/decide''"
proof -
  have "\<forall>k \<in> set path_arguments. \<forall>s. map_of [(''slug'', JStr ''tse_7203''), (''decision'', JStr ''active''), (''notes'', JNull)] k = Some (JStr s) \<longrightarrow> url_safe s"
    by (simp add: path_arguments_def slug_safe)
  from cli_requests_reach_their_routes [OF parse_decide _ this] obtain f rq r ps where
    "map_of commands ''decide'' = Some f"
    "f [(''slug'', JStr ''tse_7203''), (''decision'', JStr ''active''), (''notes'', JNull)] = Inr rq"
    "find_route (hr_method rq) (hr_path rq) = Some (r, ps)"
    and m: "map_of ROUTE_COMMAND_MAP (ro_method r, ro_path r) = Some ''decide''" by auto
  moreover from m have "ro_path r = ''/coverage/{slug}/decide''"
    by (auto simp: ROUTE_COMMAND_MAP_def split: if_splits)
  ultimately show ?thesis by blast
qed

lemma lower_bearer:
  "lower_char CHR ''B'' = CHR ''b'' \<and> lower_char CHR ''e'' = CHR ''e'' \<and> lower_char CHR ''a'' = CHR ''a'' \<and>
   lower_char CHR ''r'' = CHR ''r'' \<and> lower_char CHR '' '' = CHR '' ''"
  by code_simp

text \<open>
  C36.  The caller of a command is the one the API checks: whatever the token and the user, the
  headers the client builds are accepted exactly when the token, less blanks at its ends, is the
  service's and the user is listed, and then as that user; and the service reads the idempotency key
  the client minted.  (Of header values HTTP carries unchanged: see \<open>received\<close>.)
\<close>

theorem cli_caller_is_checked:
  "((require_pm ap (received (headers cc None fresh) h i) = Inr u) \<longleftrightarrow>
      u = cc_pm_user cc \<and> u \<noteq> [] \<and> u \<in> set (ap_pm_user_ids ap) \<and>
      ap_core_api_token ap \<noteq> [] \<and> strip_space (cc_token cc) = ap_core_api_token ap) \<and>
   rq_idempotency_key (received (headers cc None fresh) h i) = Some fresh"
proof -
  have b: "bearer_token (Some (''Bearer '' @ cc_token cc)) = Some (strip_space (cc_token cc))"
    using lower_bearer by (simp add: bearer_token_def)
  have a: "(require_pm ap (received (headers cc None fresh) h i) = Inr u) =
     (u = cc_pm_user cc \<and> u \<noteq> [] \<and> u \<in> set (ap_pm_user_ids ap) \<and>
      ap_core_api_token ap \<noteq> [] \<and> strip_space (cc_token cc) = ap_core_api_token ap)"
    using b by (auto simp: require_pm_def received_def headers_def)
  then show ?thesis by (simp add: received_def headers_def)
qed

lemma parse_value_exit: "parse_value ar raw = Inl n \<Longrightarrow> n = 2"
  by (auto simp: parse_value_def convert_def andthen_Inl_iff split: arg_type.splits sum.splits option.splits if_splits)

lemma parse_arguments_exit: "fold_err (parse_argument vals) args ns = Inl n \<Longrightarrow> n = 2"
  by (induction args arbitrary: ns)
    (auto simp: andthen_Inl_iff parse_argument_def split: option.splits if_splits dest: parse_value_exit)

lemma parse_args_exit: "parse_args cmd vals = Inl n \<Longrightarrow> n = 2"
  by (auto simp: parse_args_def split: option.splits if_splits dest: parse_arguments_exit)

lemma commands_of_parser: "map_of build_parser cmd = Some args \<Longrightarrow> cmd \<noteq> ''checkconfig'' \<Longrightarrow> \<exists>f. map_of commands cmd = Some f"
  by (drule map_of_SomeD, unfold build_parser_def list.set insert_iff empty_iff prod.inject, elim disjE conjE)
    (simp_all add: commands_def)

text \<open>
  C35.  The exit status of a command tells what happened: 2, with nothing sent, exactly when the
  command line was rejected; 0 exactly when the service answered below 400, and then the answer is
  printed, one row per line unless JSON was asked for; otherwise 1 with the structured error on the
  error stream and nothing on the output.  So a refusal by a gate or a validation (409, 422) ends with
  1 like any other error, although specs/SPEC-CORE.md 6 gives it the status 2.
\<close>

theorem cli_exit_status:
  assumes "main dumps transport fresh env cfg settings ga cmd vals = Inr oc" and "cmd \<noteq> ''checkconfig''"
  shows "case parse_args cmd vals of
      Inl n \<Rightarrow> oc = \<lparr>oc_exit = 2, oc_out = [], oc_err = []\<rparr>
    | Inr ns \<Rightarrow> \<exists>cc f rq st content. client_of ga env = Inr cc \<and> map_of commands cmd = Some f \<and> f ns = Inr rq \<and>
        transport (headers cc None fresh) rq = (st, content) \<and>
        (if st < 400
         then oc = \<lparr>oc_exit = 0, oc_out = emit_output dumps (ga_json_out ga) (case content of None \<Rightarrow> JNull | Some v \<Rightarrow> v), oc_err = []\<rparr>
         else \<exists>v. content = Some v \<and> oc = \<lparr>oc_exit = 1, oc_out = [], oc_err = [dumps v]\<rparr>)"
proof (cases "parse_args cmd vals")
  case (Inl n)
  then show ?thesis using assms(1) parse_args_exit [OF Inl] by (simp add: main_def)
next
  case (Inr ns)
  then obtain args where "map_of build_parser cmd = Some args" by (rule parse_args_typed)
  with assms(2) obtain f where f: "map_of commands cmd = Some f" using commands_of_parser by blast
  from assms(1) Inr f obtain cc rq r where "client_of ga env = Inr cc" "f ns = Inr rq"
    and s: "send transport cc None fresh rq = Inr r"
    and oc: "(case r of Inl (Core_Error st body) \<Rightarrow> Inr \<lparr>oc_exit = 1, oc_out = [], oc_err = [dumps body]\<rparr>
       | Inr v \<Rightarrow> Inr \<lparr>oc_exit = 0, oc_out = emit_output dumps (ga_json_out ga) v, oc_err = []\<rparr>) = (Inr oc :: error + outcome)"
    by (auto simp: main_def run_def andthen_Inr_iff)
  moreover obtain st content where t: "transport (headers cc None fresh) rq = (st, content)" by fastforce
  moreover have "if st < 400
      then oc = \<lparr>oc_exit = 0, oc_out = emit_output dumps (ga_json_out ga) (case content of None \<Rightarrow> JNull | Some v \<Rightarrow> v), oc_err = []\<rparr>
      else \<exists>v. content = Some v \<and> oc = \<lparr>oc_exit = 1, oc_out = [], oc_err = [dumps v]\<rparr>"
    using s oc by (auto simp: send_def t split: if_splits option.splits)
  ultimately show ?thesis using Inr f by auto
qed

definition sample_args :: global_args where
  "sample_args = \<lparr>ga_api_url = None, ga_token = Some ''secret'', ga_pm_user = Some ''pm'', ga_json_out = False\<rparr>"

definition conflict_answer :: json where
  "conflict_answer = error_body ''conflict'' ''no'' ''r''"

theorem cli_exit_status_witness:
  "main (\<lambda>v. if v = conflict_answer then ''E'' else []) (\<lambda>hs rq. (409, Some conflict_answer)) ''k'' [] None (Inl AttributeError)
     sample_args ''decide'' [(''slug'', ''tse_7203''), (''decision'', ''active'')] = Inr \<lparr>oc_exit = 1, oc_out = [], oc_err = [''E'']\<rparr> \<and>
   (\<exists>cc. client_of sample_args [] = Inr cc)"
proof -
  let ?dumps = "\<lambda>v. if v = conflict_answer then ''E'' else []" and ?t = "\<lambda>hs rq. (409 :: nat, Some conflict_answer)"
  have "map_of commands ''decide'' = Some do_decide" by (simp add: commands_def)
  then have m: "main ?dumps ?t ''k'' [] None (Inl AttributeError)
     sample_args ''decide'' [(''slug'', ''tse_7203''), (''decision'', ''active'')] = Inr \<lparr>oc_exit = 1, oc_out = [], oc_err = [''E'']\<rparr>"
    by (simp add: main_def parse_decide run_def client_of_def sample_args_def or_else_def do_decide_def str_attr_def opt_attr_def
        attr_def send_def)
  from cli_exit_status [OF m] have "\<exists>cc. client_of sample_args [] = Inr cc" by (auto simp: parse_decide)
  with m show ?thesis by simp
qed

text \<open>
  C37.  Two commands can never succeed, whatever is typed, configured or served: events-rate, whose
  rating is converted to an int and then looked up among texts, and checkconfig, since nothing in the
  process of the command has loaded a configuration.  Neither sends anything.
\<close>

theorem cli_dead_commands:
  assumes "main dumps transport fresh env None settings ga cmd vals = Inr oc"
    and "cmd = ''events-rate'' \<or> cmd = ''checkconfig''"
  shows "oc_exit oc \<noteq> 0 \<and> main dumps transport' fresh env None settings ga cmd vals = Inr oc"
proof (cases "parse_args cmd vals")
  case (Inl n)
  then show ?thesis using assms(1) parse_args_exit [OF Inl] by (auto simp: main_def)
next
  case (Inr ns)
  then obtain args where a: "map_of build_parser cmd = Some args" and t: "typed args ns" by (rule parse_args_typed)
  have "cmd \<noteq> ''events-rate''"
  proof
    assume "cmd = ''events-rate''"
    with a have "args = [positional ''event_id'', positional ''rating''\<lparr>ar_type := T_Int, ar_choices := Some [JStr ''1'', JStr ''-1'']\<rparr>]"
      by (simp add: build_parser_def)
    with t no_rating show False by blast
  qed
  with assms(2) have c: "cmd = ''checkconfig''" by simp
  then have "map_of commands cmd = None" by (simp add: commands_def)
  with assms(1) Inr c show ?thesis
    by (auto simp: main_def run_def andthen_Inr_iff checkconfig_def get_config_def)
qed

theorem cli_dead_commands_witness:
  "\<exists>oc. main (\<lambda>v. []) (\<lambda>hs rq. (200, None)) ''k'' [] None (Inl AttributeError) sample_args ''events-rate'' [(''event_id'', ''7''), (''rating'', ''1'')] = Inr oc \<and>
     oc_exit oc \<noteq> 0"
proof -
  have "parse_args ''events-rate'' [(''event_id'', ''7''), (''rating'', ''1'')] = Inl 2" by code_simp
  then have m: "main (\<lambda>v. []) (\<lambda>hs rq. (200, None)) ''k'' [] None (Inl AttributeError) sample_args ''events-rate'' [(''event_id'', ''7''), (''rating'', ''1'')] =
      Inr \<lparr>oc_exit = 2, oc_out = [], oc_err = []\<rparr>" by (simp add: main_def)
  from cli_dead_commands [OF m] m show ?thesis by auto
qed

end
