(* ===== verification/Ddl.thy ===== *)
theory Ddl
  imports Config
begin

text \<open>
  The database schema as data: what a SQLAlchemy model declares (\<open>core/db/models.py\<close>), the table
  definition the metadata makes of it under the naming convention of \<open>core/db/base.py\<close>, and the
  DDL operations of a migration with their effect on a catalogue (PostgreSQL's documented rules: names
  are free or taken, columns and referenced keys exist, a referenced table is not dropped).
\<close>

section \<open>Column types\<close>

datatype sql_type = Ty_Uuid | Ty_String nat | Ty_Text | Ty_Json | Ty_Timestamp | Ty_Date | Ty_Boolean
  | Ty_Integer | Ty_BigInteger | Ty_SmallInteger | Ty_Numeric nat nat | Ty_Money | Ty_Price | Ty_Cost | Ty_Prob

text \<open>Precision and scale of the exact types (\<open>core/db/types.py\<close>).\<close>

fun numeric_args :: "sql_type \<Rightarrow> (nat \<times> nat) option" where
  "numeric_args (Ty_Numeric p s) = Some (p, s)"
| "numeric_args Ty_Money = Some (20, 2)"
| "numeric_args Ty_Price = Some (20, 6)"
| "numeric_args Ty_Cost = Some (12, 6)"
| "numeric_args Ty_Prob = Some (5, 4)"
| "numeric_args _ = None"

section \<open>Declared tables\<close>

record reference =
  re_table :: string
  re_column :: string
  re_ondelete :: "string option"
  re_use_alter :: bool

text \<open>A column without a type of its own takes the type of the column it references.\<close>

record orm_column =
  oc_name :: string
  oc_type :: "sql_type option"
  oc_nullable :: bool
  oc_default :: "string option"
  oc_key :: bool
  oc_unique :: bool
  oc_reference :: "reference option"

record sql_index =
  si_name :: string
  si_columns :: "string list"
  si_unique :: bool
  si_where :: "string option"

record orm_table =
  ot_name :: string
  ot_columns :: "orm_column list"
  ot_uniques :: "(string \<times> string list) list"
  ot_checks :: "(string \<times> string) list"
  ot_indexes :: "sql_index list"

definition col :: "string \<Rightarrow> sql_type \<Rightarrow> orm_column" where
  "col n t = \<lparr>oc_name = n, oc_type = Some t, oc_nullable = False, oc_default = None, oc_key = False,
     oc_unique = False, oc_reference = None\<rparr>"

definition nullable :: "orm_column \<Rightarrow> orm_column" where "nullable c = c\<lparr>oc_nullable := True\<rparr>"

definition key :: "orm_column \<Rightarrow> orm_column" where "key c = c\<lparr>oc_key := True\<rparr>"

definition unique :: "orm_column \<Rightarrow> orm_column" where "unique c = c\<lparr>oc_unique := True\<rparr>"

definition untyped_col :: "string \<Rightarrow> orm_column" where "untyped_col n = (col n Ty_Text)\<lparr>oc_type := None\<rparr>"

definition server_default :: "string \<Rightarrow> orm_column \<Rightarrow> orm_column" where
  "server_default s c = c\<lparr>oc_default := Some s\<rparr>"

definition references :: "string \<Rightarrow> string \<Rightarrow> string option \<Rightarrow> orm_column \<Rightarrow> orm_column" where
  "references t k od c = c\<lparr>oc_reference := Some \<lparr>re_table = t, re_column = k, re_ondelete = od, re_use_alter = False\<rparr>\<rparr>"

definition references_later :: "string \<Rightarrow> string \<Rightarrow> orm_column \<Rightarrow> orm_column" where
  "references_later t k c = c\<lparr>oc_reference := Some \<lparr>re_table = t, re_column = k, re_ondelete = None, re_use_alter = True\<rparr>\<rparr>"

text \<open>\<open>TimestampMixin\<close>: its columns follow the class's own.\<close>

definition timestamps :: "orm_column list" where
  "timestamps = [server_default ''now()'' (col ''created_at'' Ty_Timestamp), nullable (col ''updated_at'' Ty_Timestamp)]"

definition index :: "string \<Rightarrow> string list \<Rightarrow> sql_index" where
  "index n cs = \<lparr>si_name = n, si_columns = cs, si_unique = False, si_where = None\<rparr>"

definition unique_where :: "string \<Rightarrow> string list \<Rightarrow> string \<Rightarrow> sql_index" where
  "unique_where n cs w = \<lparr>si_name = n, si_columns = cs, si_unique = True, si_where = Some w\<rparr>"

text \<open>An SQL string constant.\<close>

definition quoted :: "string \<Rightarrow> string" where
  "quoted s = CHR 0x27 # s @ [CHR 0x27]"

definition one_of :: "string \<Rightarrow> string list \<Rightarrow> string" where
  "one_of c vs = c @ '' IN ('' @ join '','' (map quoted vs) @ '')''"

section \<open>Table definitions\<close>

record foreign_key =
  fk_name :: string
  fk_columns :: "string list"
  fk_table :: string
  fk_targets :: "string list"
  fk_ondelete :: "string option"

type_synonym table_column = "string \<times> sql_type \<times> bool \<times> string option"

text \<open>A foreign key marked for later is not created with its table.\<close>

record table_def =
  td_name :: string
  td_columns :: "table_column list"
  td_primary :: "string \<times> string list"
  td_uniques :: "(string \<times> string list) list"
  td_checks :: "(string \<times> string) list"
  td_keys :: "(bool \<times> foreign_key) list"

section \<open>The metadata under the naming convention\<close>

definition ck_name :: "string \<Rightarrow> string \<Rightarrow> string" where
  "ck_name t n = ''ck_'' @ t @ ''_'' @ n"

definition uq_name :: "string \<Rightarrow> string \<Rightarrow> string" where
  "uq_name t c = ''uq_'' @ t @ ''_'' @ c"

definition fk_name_of :: "string \<Rightarrow> string \<Rightarrow> string \<Rightarrow> string" where
  "fk_name_of t c t' = ''fk_'' @ t @ ''_'' @ c @ ''_'' @ t'"

definition pk_name :: "string \<Rightarrow> string" where
  "pk_name t = ''pk_'' @ t"

definition type_in :: "orm_table list \<Rightarrow> string \<Rightarrow> string \<Rightarrow> sql_type option" where
  "type_in ts t c =
     Option.bind (find (\<lambda>x. ot_name x = t) ts) (\<lambda>x.
     Option.bind (find (\<lambda>k. oc_name k = c) (ot_columns x)) oc_type)"

definition column_type :: "orm_table list \<Rightarrow> orm_column \<Rightarrow> sql_type option" where
  "column_type ts c = (case oc_type c of
     Some t \<Rightarrow> Some t
   | None \<Rightarrow> Option.bind (oc_reference c) (\<lambda>r. type_in ts (re_table r) (re_column r)))"

definition metadata_column :: "orm_table list \<Rightarrow> orm_column \<Rightarrow> table_column option" where
  "metadata_column ts c = map_option (\<lambda>t. (oc_name c, t, oc_nullable c, oc_default c)) (column_type ts c)"

definition metadata_key :: "string \<Rightarrow> orm_column \<Rightarrow> (bool \<times> foreign_key) option" where
  "metadata_key t c = map_option (\<lambda>r. (re_use_alter r,
     \<lparr>fk_name = fk_name_of t (oc_name c) (re_table r), fk_columns = [oc_name c], fk_table = re_table r,
      fk_targets = [re_column r], fk_ondelete = re_ondelete r\<rparr>)) (oc_reference c)"

definition metadata_table :: "orm_table list \<Rightarrow> orm_table \<Rightarrow> table_def" where
  "metadata_table ts t = \<lparr>td_name = ot_name t,
     td_columns = List.map_filter (metadata_column ts) (ot_columns t),
     td_primary = (pk_name (ot_name t), map oc_name (filter oc_key (ot_columns t))),
     td_uniques = ot_uniques t @
       map (\<lambda>c. (uq_name (ot_name t) (oc_name c), [oc_name c])) (filter oc_unique (ot_columns t)),
     td_checks = map (\<lambda>(n, x). (ck_name (ot_name t) n, x)) (ot_checks t),
     td_keys = List.map_filter (metadata_key (ot_name t)) (ot_columns t)\<rparr>"

text \<open>Equal but for the order of the constraints.\<close>

definition same_table :: "table_def \<Rightarrow> table_def \<Rightarrow> bool" where
  "same_table a b \<longleftrightarrow> td_name a = td_name b \<and> td_columns a = td_columns b \<and> td_primary a = td_primary b \<and>
     set (td_uniques a) = set (td_uniques b) \<and> set (td_checks a) = set (td_checks b) \<and>
     set (td_keys a) = set (td_keys b)"

section \<open>Operations of a migration\<close>

datatype ddl =
    Create_Table table_def
  | Create_Index string sql_index
  | Create_Foreign_Key string foreign_key
  | Drop_Constraint string string
  | Drop_Index string string
  | Drop_Table string

text \<open>The catalogue: the tables with their foreign keys in force, and the indexes with their tables.\<close>

record catalogue =
  ca_tables :: "table_def list"
  ca_indexes :: "(string \<times> sql_index) list"

definition empty_catalogue :: catalogue where
  "empty_catalogue = \<lparr>ca_tables = [], ca_indexes = []\<rparr>"

definition get_table :: "string \<Rightarrow> catalogue \<Rightarrow> table_def option" where
  "get_table n c = find (\<lambda>t. td_name t = n) (ca_tables c)"

definition name_free :: "string \<Rightarrow> catalogue \<Rightarrow> bool" where
  "name_free n c \<longleftrightarrow> list_all (\<lambda>t. td_name t \<noteq> n) (ca_tables c) \<and> list_all (\<lambda>(_, i). si_name i \<noteq> n) (ca_indexes c)"

definition column_names :: "table_def \<Rightarrow> string list" where
  "column_names t = map fst (td_columns t)"

definition has_columns :: "table_def \<Rightarrow> string list \<Rightarrow> bool" where
  "has_columns t cs \<longleftrightarrow> list_all (\<lambda>c. c \<in> set (column_names t)) cs"

text \<open>A foreign key refers to the primary key of its table.\<close>

definition key_resolves :: "catalogue \<Rightarrow> table_def \<Rightarrow> foreign_key \<Rightarrow> bool" where
  "key_resolves c t f \<longleftrightarrow> has_columns t (fk_columns f) \<and>
     (case if fk_table f = td_name t then Some t else get_table (fk_table f) c of
        None \<Rightarrow> False | Some r \<Rightarrow> snd (td_primary r) = fk_targets f)"

definition immediate :: "table_def \<Rightarrow> table_def" where
  "immediate t = (if list_ex fst (td_keys t) then t\<lparr>td_keys := filter (\<lambda>(later, _). \<not> later) (td_keys t)\<rparr> else t)"

definition well_formed :: "table_def \<Rightarrow> bool" where
  "well_formed t \<longleftrightarrow> snd (td_primary t) \<noteq> [] \<and> has_columns t (snd (td_primary t)) \<and> list_all (has_columns t \<circ> snd) (td_uniques t)"

definition upd_table :: "string \<Rightarrow> (table_def \<Rightarrow> table_def) \<Rightarrow> catalogue \<Rightarrow> catalogue" where
  "upd_table n f c = c\<lparr>ca_tables := map (\<lambda>t. if td_name t = n then f t else t) (ca_tables c)\<rparr>"

definition exec_ddl :: "ddl \<Rightarrow> catalogue \<Rightarrow> string + catalogue" where
  "exec_ddl x c = (case x of
     Create_Table t \<Rightarrow>
       (if \<not> name_free (td_name t) c then Inl ''relation exists''
        else if \<not> well_formed t then Inl ''column does not exist''
        else if \<not> list_all (\<lambda>(later, f). later \<or> key_resolves c t f) (td_keys t) then Inl ''referenced key does not exist''
        else Inr (c\<lparr>ca_tables := ca_tables c @ [immediate t]\<rparr>))
   | Create_Index n i \<Rightarrow>
       (case get_table n c of
          None \<Rightarrow> Inl ''relation does not exist''
        | Some t \<Rightarrow>
            if \<not> name_free (si_name i) c then Inl ''relation exists''
            else if \<not> has_columns t (si_columns i) then Inl ''column does not exist''
            else Inr (c\<lparr>ca_indexes := ca_indexes c @ [(n, i)]\<rparr>))
   | Create_Foreign_Key n f \<Rightarrow>
       (case get_table n c of
          None \<Rightarrow> Inl ''relation does not exist''
        | Some t \<Rightarrow>
            if list_ex (\<lambda>(_, g). fk_name g = fk_name f) (td_keys t) then Inl ''constraint exists''
            else if \<not> key_resolves c t f then Inl ''referenced key does not exist''
            else Inr (upd_table n (\<lambda>t. t\<lparr>td_keys := td_keys t @ [(False, f)]\<rparr>) c))
   | Drop_Constraint k n \<Rightarrow>
       (case get_table n c of
          None \<Rightarrow> Inl ''relation does not exist''
        | Some t \<Rightarrow>
            if \<not> list_ex (\<lambda>(_, g). fk_name g = k) (td_keys t) then Inl ''constraint does not exist''
            else Inr (upd_table n (\<lambda>t. t\<lparr>td_keys := filter (\<lambda>(_, g). fk_name g \<noteq> k) (td_keys t)\<rparr>) c))
   | Drop_Index i n \<Rightarrow>
       (if \<not> list_ex (\<lambda>(t, j). t = n \<and> si_name j = i) (ca_indexes c) then Inl ''index does not exist''
        else Inr (c\<lparr>ca_indexes := filter (\<lambda>(t, j). \<not> (t = n \<and> si_name j = i)) (ca_indexes c)\<rparr>))
   | Drop_Table n \<Rightarrow>
       (if get_table n c = None then Inl ''relation does not exist''
        else if list_ex (\<lambda>t. td_name t \<noteq> n \<and> list_ex (\<lambda>(_, f). fk_table f = n) (td_keys t)) (ca_tables c)
        then Inl ''other objects depend on it''
        else Inr (c\<lparr>ca_tables := filter (\<lambda>t. td_name t \<noteq> n) (ca_tables c),
                   ca_indexes := filter (\<lambda>(t, _). t \<noteq> n) (ca_indexes c)\<rparr>)))"

definition run_ddl :: "ddl list \<Rightarrow> catalogue \<Rightarrow> string + catalogue" where
  "run_ddl = fold_err exec_ddl"

end
