(* ===== verification/Orm_Models.thy ===== *)
theory Orm_Models
  imports Ddl
begin

text \<open>
  The tables of \<open>core/db/models.py\<close> as they are declared, one definition per class, and the
  metadata they make up.  The text of an \<open>IN\<close> list is spelled by \<open>one_of\<close>.
\<close>

definition orm_houses :: orm_table where
  "orm_houses = \<lparr>ot_name = ''houses'', ot_columns = [
     key (col ''key'' (Ty_String 32)),
     col ''display_name'' (Ty_String 64),
     col ''provider'' (Ty_String 32),
     server_default ''true'' (col ''assignable'' Ty_Boolean),
     server_default ''false'' (col ''meta'' Ty_Boolean),
     server_default ''true'' (col ''enabled'' Ty_Boolean),
     nullable (col ''harness_type'' (Ty_String 32)),
     nullable (col ''config_digest'' (Ty_String 64))] @ timestamps,
     ot_uniques = [],
     ot_checks = [(''ck_houses_meta_not_assignable'', ''NOT (assignable AND meta)'')],
     ot_indexes = []\<rparr>"

definition orm_coverage :: orm_table where
  "orm_coverage = \<lparr>ot_name = ''coverage'', ot_columns = [
     key (col ''id'' Ty_Uuid),
     col ''ticker'' (Ty_String 16),
     col ''exchange'' (Ty_String 16),
     col ''name'' (Ty_String 128),
     col ''currency'' (Ty_String 8),
     nullable (col ''isin'' (Ty_String 12)),
     col ''state'' (Ty_String 24),
     nullable (references ''houses'' ''key'' (Some ''RESTRICT'') (untyped_col ''lead_house'')),
     col ''dossier_slug'' (Ty_String 48),
     nullable (col ''earnings_calendar_ref'' (Ty_String 64)),
     nullable (col ''exchange_session_ref'' (Ty_String 32)),
     nullable (col ''pm_notes'' Ty_Text),
     nullable (col ''proposed_by'' (Ty_String 64)),
     nullable (col ''decided_at'' Ty_Timestamp),
     nullable (col ''exited_at'' Ty_Timestamp)] @ timestamps,
     ot_uniques = [(''uq_coverage_exchange_ticker'', [''exchange'', ''ticker'']), (''uq_coverage_dossier_slug'', [''dossier_slug''])],
     ot_checks = [(''ck_coverage_state'', one_of ''state'' [''proposed'', ''initiating'', ''decision_pending'', ''active'', ''watch'', ''rejected'', ''exited'', ''failed'']),
       (''ck_coverage_lead_required_when_live'', ''(state IN ('active','watch','decision_pending')) = (lead_house IS NOT NULL) OR state NOT IN ('active','watch','decision_pending')'')],
     ot_indexes = [index ''ix_coverage_state'' [''state'']]\<rparr>"

definition orm_coverage_contributors :: orm_table where
  "orm_coverage_contributors = \<lparr>ot_name = ''coverage_contributors'', ot_columns = [
     key (references ''coverage'' ''id'' (Some ''RESTRICT'') (col ''coverage_id'' Ty_Uuid)),
     key (references ''houses'' ''key'' (Some ''RESTRICT'') (col ''house'' (Ty_String 32))),
     server_default ''now()'' (col ''added_at'' Ty_Timestamp),
     nullable (col ''added_by'' (Ty_String 64))],
     ot_uniques = [],
     ot_checks = [],
     ot_indexes = []\<rparr>"

definition orm_coverage_levels :: orm_table where
  "orm_coverage_levels = \<lparr>ot_name = ''coverage_levels'', ot_columns = [
     key (col ''id'' Ty_Uuid),
     references ''coverage'' ''id'' (Some ''RESTRICT'') (col ''coverage_id'' Ty_Uuid),
     col ''kind'' (Ty_String 16),
     col ''value'' Ty_Price,
     col ''currency'' (Ty_String 8),
     col ''direction'' (Ty_String 8),
     col ''set_by'' (Ty_String 16),
     nullable (references ''runs'' ''id'' None (col ''set_by_run_id'' Ty_Uuid)),
     server_default ''true'' (col ''active'' Ty_Boolean),
     nullable (col ''superseded_at'' Ty_Timestamp),
     server_default ''now()'' (col ''created_at'' Ty_Timestamp)],
     ot_uniques = [],
     ot_checks = [(''ck_coverage_levels_kind'', one_of ''kind'' [''entry'', ''target'', ''stop'', ''review'']),
       (''ck_coverage_levels_direction'', one_of ''direction'' [''below'', ''above'']),
       (''ck_coverage_levels_value_positive'', ''value > 0'')],
     ot_indexes = [index ''ix_coverage_levels_active'' [''coverage_id'', ''active'']]\<rparr>"

definition orm_coverage_transitions :: orm_table where
  "orm_coverage_transitions = \<lparr>ot_name = ''coverage_transitions'', ot_columns = [
     key (col ''id'' Ty_Uuid),
     references ''coverage'' ''id'' (Some ''RESTRICT'') (col ''coverage_id'' Ty_Uuid),
     nullable (col ''from_state'' (Ty_String 24)),
     col ''to_state'' (Ty_String 24),
     col ''actor_type'' (Ty_String 16),
     nullable (col ''actor_id'' (Ty_String 64)),
     col ''cause'' (Ty_String 64),
     nullable (references ''runs'' ''id'' None (col ''run_id'' Ty_Uuid)),
     nullable (col ''notes'' Ty_Text),
     server_default ''now()'' (col ''created_at'' Ty_Timestamp)],
     ot_uniques = [],
     ot_checks = [],
     ot_indexes = [index ''ix_coverage_transitions_coverage_created'' [''coverage_id'', ''created_at'']]\<rparr>"

definition orm_coverage_lead_history :: orm_table where
  "orm_coverage_lead_history = \<lparr>ot_name = ''coverage_lead_history'', ot_columns = [
     key (col ''id'' Ty_Uuid),
     references ''coverage'' ''id'' (Some ''RESTRICT'') (col ''coverage_id'' Ty_Uuid),
     nullable (references ''houses'' ''key'' (Some ''RESTRICT'') (untyped_col ''from_house'')),
     references ''houses'' ''key'' (Some ''RESTRICT'') (col ''to_house'' (Ty_String 32)),
     nullable (references ''runs'' ''id'' None (col ''run_id'' Ty_Uuid)),
     col ''approved_by'' (Ty_String 64),
     nullable (col ''rationale'' Ty_Text),
     server_default ''now()'' (col ''created_at'' Ty_Timestamp)],
     ot_uniques = [],
     ot_checks = [],
     ot_indexes = []\<rparr>"

definition orm_runs :: orm_table where
  "orm_runs = \<lparr>ot_name = ''runs'', ot_columns = [
     key (col ''id'' Ty_Uuid),
     nullable (references ''coverage'' ''id'' None (col ''coverage_id'' Ty_Uuid)),
     col ''type'' (Ty_String 24),
     col ''status'' (Ty_String 16),
     col ''trigger'' (Ty_String 32),
     nullable (col ''trigger_ref'' (Ty_String 128)),
     server_default ''100'' (col ''priority'' Ty_Integer),
     server_default ''true'' (col ''mutates_dossier'' Ty_Boolean),
     nullable (col ''requested_by'' (Ty_String 64)),
     col ''params'' Ty_Json,
     nullable (references ''doctrine_versions'' ''id'' None (col ''doctrine_version_id'' Ty_Uuid)),
     nullable (col ''budget_cap_usd'' Ty_Cost),
     server_default ''0'' (col ''cost_usd'' Ty_Cost),
     nullable (col ''summary'' Ty_Text),
     nullable (col ''pm_decision'' (Ty_String 32)),
     nullable (col ''dossier_commit_before'' (Ty_String 40)),
     nullable (col ''dossier_commit_after'' (Ty_String 40)),
     nullable (col ''error'' Ty_Text),
     nullable (col ''started_at'' Ty_Timestamp),
     nullable (col ''finished_at'' Ty_Timestamp)] @ timestamps,
     ot_uniques = [],
     ot_checks = [(''ck_runs_type'', one_of ''type'' [''initiation'', ''deep_review'', ''event_analysis'', ''monitor_tick'', ''pm_query'', ''lead_review'', ''distillation'']),
       (''ck_runs_status'', one_of ''status'' [''queued'', ''running'', ''waiting_pm'', ''succeeded'', ''failed'', ''cancelled'']),
       (''ck_runs_coverage_required'', (''(coverage_id IS NOT NULL) OR type = '' @ quoted ''distillation''))],
     ot_indexes = [index ''ix_runs_status_priority'' [''status'', ''priority'', ''created_at''], index ''ix_runs_coverage_created'' [''coverage_id'', ''created_at''], unique_where ''uq_runs_trigger_ref'' [''coverage_id'', ''type'', ''trigger_ref''] ''trigger_ref IS NOT NULL'']\<rparr>"

definition orm_run_stages :: orm_table where
  "orm_run_stages = \<lparr>ot_name = ''run_stages'', ot_columns = [
     key (col ''id'' Ty_Uuid),
     references ''runs'' ''id'' (Some ''CASCADE'') (col ''run_id'' Ty_Uuid),
     col ''seq'' Ty_Integer,
     col ''role'' (Ty_String 24),
     references ''houses'' ''key'' (Some ''RESTRICT'') (col ''house'' (Ty_String 32)),
     col ''substrate'' (Ty_String 8),
     col ''status'' (Ty_String 16),
     nullable (col ''depends_on_seq'' Ty_Integer),
     server_default ''now()'' (col ''available_at'' Ty_Timestamp),
     nullable (col ''claimed_by'' (Ty_String 64)),
     nullable (col ''claimed_at'' Ty_Timestamp),
     nullable (col ''lease_expires_at'' Ty_Timestamp),
     server_default ''0'' (col ''attempts'' Ty_Integer),
     col ''max_attempts'' Ty_Integer,
     nullable (col ''workspace_ref'' (Ty_String 256)),
     nullable (col ''transcript_ref'' (Ty_String 256)),
     nullable (col ''artifacts_ref'' Ty_Json),
     nullable (col ''result'' Ty_Json),
     server_default ''0'' (col ''cost_usd'' Ty_Cost),
     nullable (col ''tokens_in'' Ty_Integer),
     nullable (col ''tokens_out'' Ty_Integer),
     nullable (col ''wall_time_s'' Ty_Integer),
     nullable (col ''error'' Ty_Text),
     nullable (col ''started_at'' Ty_Timestamp),
     nullable (col ''finished_at'' Ty_Timestamp)] @ timestamps,
     ot_uniques = [(''uq_run_stages_run_seq'', [''run_id'', ''seq''])],
     ot_checks = [(''ck_run_stages_status'', one_of ''status'' [''queued'', ''running'', ''succeeded'', ''failed'', ''skipped'']),
       (''ck_run_stages_substrate'', one_of ''substrate'' [''harness'', ''api''])],
     ot_indexes = [index ''ix_run_stages_claimable'' [''status'', ''available_at'', ''id''], index ''ix_run_stages_lease'' [''status'', ''lease_expires_at'']]\<rparr>"

definition orm_stage_attempts :: orm_table where
  "orm_stage_attempts = \<lparr>ot_name = ''stage_attempts'', ot_columns = [
     key (col ''id'' Ty_Uuid),
     references ''run_stages'' ''id'' (Some ''CASCADE'') (col ''stage_id'' Ty_Uuid),
     col ''attempt_no'' Ty_Integer,
     col ''status'' (Ty_String 16),
     references ''houses'' ''key'' (Some ''RESTRICT'') (col ''house'' (Ty_String 32)),
     nullable (col ''model'' (Ty_String 64)),
     col ''substrate'' (Ty_String 8),
     nullable (col ''worker_id'' (Ty_String 64)),
     nullable (col ''transcript_ref'' (Ty_String 256)),
     nullable (col ''result'' Ty_Json),
     nullable (col ''validation_errors'' Ty_Json),
     server_default ''0'' (col ''cost_usd'' Ty_Cost),
     nullable (col ''cost_source'' (Ty_String 16)),
     nullable (col ''tokens_in'' Ty_Integer),
     nullable (col ''tokens_out'' Ty_Integer),
     nullable (col ''cached_tokens_in'' Ty_Integer),
     nullable (col ''exit_code'' Ty_Integer),
     nullable (col ''kill_reason'' (Ty_String 32)),
     nullable (col ''started_at'' Ty_Timestamp),
     nullable (col ''finished_at'' Ty_Timestamp),
     server_default ''now()'' (col ''created_at'' Ty_Timestamp)],
     ot_uniques = [(''uq_stage_attempts_stage_no'', [''stage_id'', ''attempt_no''])],
     ot_checks = [(''ck_stage_attempts_status'', one_of ''status'' [''running'', ''succeeded'', ''failed'', ''killed'', ''timeout''])],
     ot_indexes = []\<rparr>"

definition orm_coverage_run_locks :: orm_table where
  "orm_coverage_run_locks = \<lparr>ot_name = ''coverage_run_locks'', ot_columns = [
     key (references ''coverage'' ''id'' None (col ''coverage_id'' Ty_Uuid)),
     unique (references ''runs'' ''id'' None (col ''run_id'' Ty_Uuid)),
     col ''acquired_at'' Ty_Timestamp],
     ot_uniques = [],
     ot_checks = [],
     ot_indexes = []\<rparr>"

definition orm_pm_gates :: orm_table where
  "orm_pm_gates = \<lparr>ot_name = ''pm_gates'', ot_columns = [
     key (col ''id'' Ty_Uuid),
     references ''runs'' ''id'' None (col ''run_id'' Ty_Uuid),
     nullable (references ''coverage'' ''id'' None (col ''coverage_id'' Ty_Uuid)),
     col ''kind'' (Ty_String 32),
     col ''state'' (Ty_String 16),
     col ''prompt'' Ty_Text,
     col ''payload'' Ty_Json,
     col ''allowed_answers'' Ty_Json,
     nullable (col ''answer'' (Ty_String 32)),
     nullable (col ''answer_notes'' Ty_Text),
     nullable (col ''answered_by'' (Ty_String 64)),
     nullable (col ''answered_at'' Ty_Timestamp),
     unique (nullable (col ''idempotency_key'' (Ty_String 64)))] @ timestamps,
     ot_uniques = [],
     ot_checks = [],
     ot_indexes = [index ''ix_pm_gates_state_created'' [''state'', ''created_at'']]\<rparr>"

definition orm_predictions :: orm_table where
  "orm_predictions = \<lparr>ot_name = ''predictions'', ot_columns = [
     key (col ''id'' Ty_Uuid),
     references ''coverage'' ''id'' None (col ''coverage_id'' Ty_Uuid),
     references ''runs'' ''id'' None (col ''run_id'' Ty_Uuid),
     references ''run_stages'' ''id'' None (col ''stage_id'' Ty_Uuid),
     references ''houses'' ''key'' (Some ''RESTRICT'') (col ''house'' (Ty_String 32)),
     col ''kind'' (Ty_String 24),
     nullable (col ''value'' Ty_Price),
     nullable (col ''currency'' (Ty_String 8)),
     nullable (col ''stance'' (Ty_String 16)),
     nullable (col ''scenario_label'' (Ty_String 32)),
     nullable (col ''scenario_prob'' Ty_Prob),
     nullable (col ''scenario_group'' Ty_Uuid),
     col ''horizon_date'' Ty_Date,
     nullable (col ''confidence'' Ty_Prob),
     nullable (col ''rationale_ref'' (Ty_String 256)),
     server_default (quoted ''open'') (col ''status'' (Ty_String 16)),
     nullable (references ''predictions'' ''id'' None (col ''superseded_by_id'' Ty_Uuid)),
     nullable (references ''runs'' ''id'' None (col ''superseded_run_id'' Ty_Uuid)),
     nullable (col ''scored_at'' Ty_Timestamp),
     nullable (col ''realized_price'' Ty_Price),
     nullable (col ''realized_return'' (Ty_Numeric 10 6)),
     nullable (col ''error_pct'' (Ty_Numeric 10 6)),
     nullable (col ''outcome_notes'' Ty_Text),
     unique (col ''idempotency_key'' (Ty_String 64)),
     server_default ''now()'' (col ''created_at'' Ty_Timestamp),
     nullable (col ''direction'' (Ty_String 8)),
     nullable (col ''pinned_price'' Ty_Price)],
     ot_uniques = [],
     ot_checks = [(''ck_predictions_kind'', one_of ''kind'' [''target_price'', ''entry_point'', ''scenario'', ''event_forecast'', ''stance'']),
       (''ck_predictions_status'', one_of ''status'' [''open'', ''hit'', ''miss'', ''expired'', ''superseded'']),
       (''ck_predictions_confidence'', ''confidence IS NULL OR (confidence >= 0 AND confidence <= 1)''),
       (''ck_predictions_scenario_prob'', ''scenario_prob IS NULL OR (scenario_prob >= 0 AND scenario_prob <= 1)''),
       (''ck_predictions_target_price_requires_value'', ''kind <> 'target_price' OR (value IS NOT NULL AND currency IS NOT NULL)'')],
     ot_indexes = [index ''ix_predictions_open_horizon'' [''status'', ''horizon_date''], index ''ix_predictions_coverage_house'' [''coverage_id'', ''house'', ''created_at'']]\<rparr>"

definition orm_prediction_hits :: orm_table where
  "orm_prediction_hits = \<lparr>ot_name = ''prediction_hits'', ot_columns = [
     key (col ''id'' Ty_Uuid),
     references ''predictions'' ''id'' None (col ''prediction_id'' Ty_Uuid),
     col ''hit_price'' Ty_Price,
     col ''hit_on'' Ty_Date,
     col ''source'' (Ty_String 32),
     server_default ''now()'' (col ''created_at'' Ty_Timestamp)],
     ot_uniques = [(''uq_prediction_hits_day'', [''prediction_id'', ''hit_on''])],
     ot_checks = [],
     ot_indexes = []\<rparr>"

definition orm_corrections :: orm_table where
  "orm_corrections = \<lparr>ot_name = ''corrections'', ot_columns = [
     key (col ''id'' Ty_Uuid),
     references ''runs'' ''id'' None (col ''run_id'' Ty_Uuid),
     references ''run_stages'' ''id'' None (col ''stage_id'' Ty_Uuid),
     references ''houses'' ''key'' (Some ''RESTRICT'') (col ''correcting_house'' (Ty_String 32)),
     nullable (references ''run_stages'' ''id'' None (col ''attributed_stage_id'' Ty_Uuid)),
     nullable (col ''attributed_house'' (Ty_String 32)),
     col ''target'' (Ty_String 256),
     col ''was'' Ty_Text,
     col ''now_value'' Ty_Text,
     nullable (col ''source'' Ty_Text),
     server_default ''now()'' (col ''created_at'' Ty_Timestamp),
     unique (col ''idempotency_key'' (Ty_String 64))],
     ot_uniques = [],
     ot_checks = [],
     ot_indexes = [index ''ix_corrections_attributed'' [''attributed_house'', ''created_at'']]\<rparr>"

definition orm_disagreements :: orm_table where
  "orm_disagreements = \<lparr>ot_name = ''disagreements'', ot_columns = [
     key (col ''id'' Ty_Uuid),
     references ''runs'' ''id'' None (col ''run_id'' Ty_Uuid),
     references ''run_stages'' ''id'' None (col ''stage_id'' Ty_Uuid),
     references ''houses'' ''key'' (Some ''RESTRICT'') (col ''house'' (Ty_String 32)),
     references ''houses'' ''key'' (Some ''RESTRICT'') (col ''lead_house'' (Ty_String 32)),
     server_default ''false'' (col ''material'' Ty_Boolean),
     col ''lead_position'' Ty_Text,
     col ''challenger_position'' Ty_Text,
     nullable (col ''key_numbers'' Ty_Json),
     nullable (col ''resolves_if'' Ty_Text),
     server_default ''now()'' (col ''created_at'' Ty_Timestamp)],
     ot_uniques = [],
     ot_checks = [],
     ot_indexes = []\<rparr>"

definition orm_events :: orm_table where
  "orm_events = \<lparr>ot_name = ''events'', ot_columns = [
     key (col ''id'' Ty_Uuid),
     nullable (references ''coverage'' ''id'' None (col ''coverage_id'' Ty_Uuid)),
     col ''kind'' (Ty_String 24),
     col ''severity'' (Ty_String 16),
     col ''title'' (Ty_String 256),
     nullable (col ''detail'' Ty_Text),
     col ''payload'' Ty_Json,
     nullable (references ''news_articles'' ''id'' None (col ''news_article_id'' Ty_Uuid)),
     nullable (references ''runs'' ''id'' None (col ''detected_by_run_id'' Ty_Uuid)),
     nullable (references ''runs'' ''id'' None (col ''handled_by_run_id'' Ty_Uuid)),
     nullable (col ''action'' (Ty_String 24)),
     col ''dedupe_key'' (Ty_String 128),
     col ''occurred_at'' Ty_Timestamp,
     server_default ''now()'' (col ''created_at'' Ty_Timestamp),
     nullable (col ''pm_rating'' Ty_SmallInteger),
     nullable (col ''pm_rated_at'' Ty_Timestamp),
     nullable (col ''pm_rated_by'' (Ty_String 64))],
     ot_uniques = [(''uq_events_dedupe_key'', [''dedupe_key''])],
     ot_checks = [],
     ot_indexes = [index ''ix_events_coverage_created'' [''coverage_id'', ''created_at''], index ''ix_events_unhandled'' [''action'', ''handled_by_run_id'']]\<rparr>"

definition orm_dossier_index :: orm_table where
  "orm_dossier_index = \<lparr>ot_name = ''dossier_index'', ot_columns = [
     key (references ''coverage'' ''id'' None (col ''coverage_id'' Ty_Uuid)),
     unique (col ''slug'' (Ty_String 48)),
     nullable (col ''main_commit'' (Ty_String 40)),
     nullable (references ''runs'' ''id'' None (col ''updated_by_run_id'' Ty_Uuid)),
     nullable (col ''stance'' (Ty_String 16)),
     nullable (col ''conviction'' (Ty_String 16)),
     nullable (col ''as_of'' Ty_Date),
     nullable (col ''target_price'' Ty_Price),
     server_default ''0'' (col ''tripwire_count'' Ty_Integer),
     nullable (col ''files'' Ty_Json),
     nullable (col ''updated_at'' Ty_Timestamp)],
     ot_uniques = [],
     ot_checks = [],
     ot_indexes = []\<rparr>"

definition orm_dossier_commits :: orm_table where
  "orm_dossier_commits = \<lparr>ot_name = ''dossier_commits'', ot_columns = [
     key (col ''id'' Ty_Uuid),
     references ''coverage'' ''id'' None (col ''coverage_id'' Ty_Uuid),
     nullable (references ''runs'' ''id'' None (col ''run_id'' Ty_Uuid)),
     nullable (references ''run_stages'' ''id'' None (col ''stage_id'' Ty_Uuid)),
     col ''commit_sha'' (Ty_String 40),
     col ''branch'' (Ty_String 64),
     nullable (col ''parent_sha'' (Ty_String 40)),
     col ''message'' Ty_Text,
     nullable (col ''files_changed'' Ty_Json),
     server_default ''false'' (col ''merged_to_main'' Ty_Boolean),
     server_default ''now()'' (col ''created_at'' Ty_Timestamp)],
     ot_uniques = [(''uq_dossier_commits_sha'', [''commit_sha''])],
     ot_checks = [],
     ot_indexes = []\<rparr>"

definition orm_doctrine_versions :: orm_table where
  "orm_doctrine_versions = \<lparr>ot_name = ''doctrine_versions'', ot_columns = [
     key (col ''id'' Ty_Uuid),
     unique (col ''commit_sha'' (Ty_String 40)),
     col ''label'' (Ty_String 32),
     nullable (col ''approved_by'' (Ty_String 64)),
     nullable (col ''approved_at'' Ty_Timestamp),
     nullable (references_later ''runs'' ''id'' (col ''distillation_run_id'' Ty_Uuid)),
     nullable (col ''notes'' Ty_Text),
     server_default ''false'' (col ''is_current'' Ty_Boolean),
     server_default ''now()'' (col ''created_at'' Ty_Timestamp)],
     ot_uniques = [],
     ot_checks = [],
     ot_indexes = [unique_where ''ux_doctrine_current'' [''is_current''] ''is_current'']\<rparr>"

definition orm_artifacts :: orm_table where
  "orm_artifacts = \<lparr>ot_name = ''artifacts'', ot_columns = [
     key (col ''id'' Ty_Uuid),
     col ''sha256'' (Ty_String 64),
     col ''kind'' (Ty_String 24),
     nullable (col ''media_type'' (Ty_String 64)),
     col ''size_bytes'' Ty_BigInteger,
     col ''path'' (Ty_String 512),
     nullable (references ''runs'' ''id'' None (col ''run_id'' Ty_Uuid)),
     nullable (references ''run_stages'' ''id'' None (col ''stage_id'' Ty_Uuid)),
     nullable (references ''coverage'' ''id'' None (col ''coverage_id'' Ty_Uuid)),
     nullable (col ''filename'' (Ty_String 256)),
     server_default ''now()'' (col ''created_at'' Ty_Timestamp)],
     ot_uniques = [(''uq_artifacts_sha_kind'', [''sha256'', ''kind''])],
     ot_checks = [],
     ot_indexes = [index ''ix_artifacts_run'' [''run_id'']]\<rparr>"

definition orm_llm_usage :: orm_table where
  "orm_llm_usage = \<lparr>ot_name = ''llm_usage'', ot_columns = [
     key (col ''id'' Ty_Uuid),
     nullable (references ''runs'' ''id'' None (col ''run_id'' Ty_Uuid)),
     nullable (references ''run_stages'' ''id'' None (col ''stage_id'' Ty_Uuid)),
     nullable (references ''stage_attempts'' ''id'' None (col ''attempt_id'' Ty_Uuid)),
     nullable (references ''houses'' ''key'' None (col ''house'' (Ty_String 32))),
     nullable (references ''coverage'' ''id'' None (col ''coverage_id'' Ty_Uuid)),
     col ''provider'' (Ty_String 32),
     col ''model'' (Ty_String 64),
     nullable (col ''substrate'' (Ty_String 8)),
     col ''purpose'' (Ty_String 32),
     nullable (col ''input_tokens'' Ty_Integer),
     nullable (col ''output_tokens'' Ty_Integer),
     nullable (col ''cached_input_tokens'' Ty_Integer),
     nullable (col ''cost_usd'' Ty_Cost),
     col ''cost_source'' (Ty_String 16),
     nullable (col ''request_id'' (Ty_String 64)),
     nullable (col ''reconciled_at'' Ty_Timestamp),
     nullable (col ''reconciled_delta_usd'' Ty_Cost),
     nullable (col ''error'' Ty_Text),
     nullable (col ''started_at'' Ty_Timestamp),
     nullable (col ''completed_at'' Ty_Timestamp),
     server_default ''now()'' (col ''created_at'' Ty_Timestamp)],
     ot_uniques = [],
     ot_checks = [],
     ot_indexes = [index ''ix_llm_usage_house_completed'' [''house'', ''completed_at''], index ''ix_llm_usage_run'' [''run_id'']]\<rparr>"

definition orm_house_budget_days :: orm_table where
  "orm_house_budget_days = \<lparr>ot_name = ''house_budget_days'', ot_columns = [
     key (references ''houses'' ''key'' (Some ''RESTRICT'') (col ''house'' (Ty_String 32))),
     key (col ''day'' Ty_Date),
     server_default ''0'' (col ''reserved_usd'' Ty_Cost),
     server_default ''0'' (col ''spent_usd'' Ty_Cost),
     nullable (col ''cap_usd'' Ty_Cost),
     nullable (col ''updated_at'' Ty_Timestamp)],
     ot_uniques = [],
     ot_checks = [],
     ot_indexes = []\<rparr>"

definition orm_house_metric_snapshots :: orm_table where
  "orm_house_metric_snapshots = \<lparr>ot_name = ''house_metric_snapshots'', ot_columns = [
     key (references ''houses'' ''key'' (Some ''RESTRICT'') (col ''house'' (Ty_String 32))),
     key (col ''as_of'' Ty_Date),
     key (col ''scope'' (Ty_String 32)),
     col ''metrics'' Ty_Json,
     server_default ''now()'' (col ''created_at'' Ty_Timestamp)],
     ot_uniques = [],
     ot_checks = [],
     ot_indexes = []\<rparr>"

definition orm_price_pins :: orm_table where
  "orm_price_pins = \<lparr>ot_name = ''price_pins'', ot_columns = [
     key (col ''exchange'' (Ty_String 16)),
     key (col ''ticker'' (Ty_String 16)),
     key (col ''trading_date'' Ty_Date),
     col ''value'' Ty_Price,
     col ''currency'' (Ty_String 8),
     col ''source'' (Ty_String 32),
     server_default ''now()'' (col ''pinned_at'' Ty_Timestamp)],
     ot_uniques = [],
     ot_checks = [],
     ot_indexes = []\<rparr>"

definition orm_outbox_events :: orm_table where
  "orm_outbox_events = \<lparr>ot_name = ''outbox_events'', ot_columns = [
     key (col ''id'' Ty_Uuid),
     col ''kind'' (Ty_String 48),
     nullable (references ''coverage'' ''id'' None (col ''coverage_id'' Ty_Uuid)),
     nullable (references ''runs'' ''id'' None (col ''run_id'' Ty_Uuid)),
     col ''payload'' Ty_Json,
     unique (col ''dedupe_key'' (Ty_String 128)),
     server_default ''now()'' (col ''available_at'' Ty_Timestamp),
     nullable (col ''claimed_by'' (Ty_String 64)),
     nullable (col ''lease_expires_at'' Ty_Timestamp),
     server_default ''0'' (col ''attempts'' Ty_Integer),
     nullable (col ''delivered_at'' Ty_Timestamp),
     nullable (col ''last_error'' Ty_Text),
     server_default ''now()'' (col ''created_at'' Ty_Timestamp)],
     ot_uniques = [],
     ot_checks = [],
     ot_indexes = [index ''ix_outbox_pending'' [''delivered_at'', ''available_at'']]\<rparr>"

definition orm_audit_log :: orm_table where
  "orm_audit_log = \<lparr>ot_name = ''audit_log'', ot_columns = [
     key (col ''id'' Ty_Uuid),
     col ''action'' (Ty_String 64),
     col ''actor_type'' (Ty_String 16),
     col ''actor_id'' (Ty_String 64),
     nullable (col ''target'' (Ty_String 256)),
     nullable (col ''before_state'' Ty_Json),
     nullable (col ''after_state'' Ty_Json),
     nullable (col ''request_id'' (Ty_String 64)),
     server_default ''now()'' (col ''created_at'' Ty_Timestamp)],
     ot_uniques = [],
     ot_checks = [],
     ot_indexes = [index ''ix_audit_log_created'' [''created_at'']]\<rparr>"

definition orm_idempotency_keys :: orm_table where
  "orm_idempotency_keys = \<lparr>ot_name = ''idempotency_keys'', ot_columns = [
     key (col ''key'' (Ty_String 64)),
     col ''route'' (Ty_String 64),
     col ''actor_id'' (Ty_String 64),
     nullable (col ''response'' Ty_Json),
     nullable (col ''status_code'' Ty_Integer),
     col ''expires_at'' Ty_Timestamp,
     server_default ''now()'' (col ''created_at'' Ty_Timestamp)],
     ot_uniques = [],
     ot_checks = [],
     ot_indexes = []\<rparr>"

definition orm_scheduler_job_logs :: orm_table where
  "orm_scheduler_job_logs = \<lparr>ot_name = ''scheduler_job_logs'', ot_columns = [
     key (col ''id'' Ty_Uuid),
     col ''job_name'' (Ty_String 64),
     col ''status'' (Ty_String 16),
     nullable (col ''scheduled_for'' Ty_Timestamp),
     nullable (col ''started_at'' Ty_Timestamp),
     nullable (col ''finished_at'' Ty_Timestamp),
     nullable (col ''detail'' Ty_Text),
     server_default ''0'' (col ''runs_created'' Ty_Integer),
     server_default ''now()'' (col ''created_at'' Ty_Timestamp)],
     ot_uniques = [],
     ot_checks = [],
     ot_indexes = [index ''ix_scheduler_job_logs_job_created'' [''job_name'', ''created_at'']]\<rparr>"

definition orm_news_articles :: orm_table where
  "orm_news_articles = \<lparr>ot_name = ''news_articles'', ot_columns = [
     key (col ''id'' Ty_Uuid),
     unique (nullable (col ''url'' (Ty_String 2048))),
     nullable (col ''normalised_url'' (Ty_String 2048)),
     nullable (col ''content_hash'' (Ty_String 64)),
     nullable (col ''cluster_id'' Ty_Uuid),
     nullable (col ''title'' (Ty_String 512)),
     nullable (col ''source'' (Ty_String 64)),
     nullable (col ''published_at'' Ty_Timestamp),
     nullable (col ''full_text'' Ty_Text),
     nullable (col ''summary'' Ty_Text),
     nullable (col ''tickers'' Ty_Json),
     nullable (col ''scored_at'' Ty_Timestamp),
     nullable (col ''scores'' Ty_Json),
     server_default ''now()'' (col ''created_at'' Ty_Timestamp)],
     ot_uniques = [],
     ot_checks = [],
     ot_indexes = [index ''ix_news_normalised_url'' [''normalised_url''], index ''ix_news_content_hash'' [''content_hash''], index ''ix_news_published'' [''published_at'']]\<rparr>"

definition orm_mm_channels :: orm_table where
  "orm_mm_channels = \<lparr>ot_name = ''mm_channels'', ot_columns = [
     key (references ''coverage'' ''id'' None (col ''coverage_id'' Ty_Uuid)),
     col ''team_id'' (Ty_String 64),
     unique (col ''channel_id'' (Ty_String 64)),
     unique (col ''channel_name'' (Ty_String 64)),
     nullable (col ''archived_at'' Ty_Timestamp)] @ timestamps,
     ot_uniques = [],
     ot_checks = [],
     ot_indexes = []\<rparr>"

definition orm_mm_posts :: orm_table where
  "orm_mm_posts = \<lparr>ot_name = ''mm_posts'', ot_columns = [
     key (col ''id'' Ty_Uuid),
     col ''ref_type'' (Ty_String 24),
     col ''ref_id'' (Ty_String 64),
     col ''channel_id'' (Ty_String 64),
     col ''post_id'' (Ty_String 64),
     nullable (col ''root_id'' (Ty_String 64)),
     server_default ''now()'' (col ''created_at'' Ty_Timestamp)],
     ot_uniques = [(''uq_mm_posts_ref'', [''ref_type'', ''ref_id''])],
     ot_checks = [],
     ot_indexes = []\<rparr>"

definition orm_positions :: orm_table where
  "orm_positions = \<lparr>ot_name = ''positions'', ot_columns = [
     key (col ''id'' Ty_Uuid),
     col ''ticker'' (Ty_String 16),
     server_default ''0'' (col ''net_quantity'' (Ty_Numeric 20 6)),
     nullable (col ''avg_cost'' Ty_Price),
     col ''book_id'' (Ty_String 32),
     server_default (quoted ''USD'') (col ''currency'' (Ty_String 8)),
     nullable (col ''last_trade_at'' Ty_Timestamp),
     nullable (col ''updated_at'' Ty_Timestamp)],
     ot_uniques = [(''uq_positions_ticker_book'', [''ticker'', ''book_id''])],
     ot_checks = [],
     ot_indexes = []\<rparr>"

definition orm_trades :: orm_table where
  "orm_trades = \<lparr>ot_name = ''trades'', ot_columns = [
     key (col ''id'' Ty_Uuid),
     unique (nullable (col ''source_ref'' (Ty_String 64))),
     col ''raw_text'' Ty_Text,
     col ''ticker'' (Ty_String 16),
     col ''direction'' (Ty_String 4),
     col ''quantity'' (Ty_Numeric 20 6),
     col ''price'' Ty_Price,
     server_default (quoted ''USD'') (col ''currency'' (Ty_String 8)),
     nullable (col ''notes'' Ty_Text),
     nullable (col ''parse_confidence'' Ty_Prob),
     col ''book_id'' (Ty_String 32),
     col ''posted_by_user_id'' (Ty_String 64),
     nullable (col ''posted_by_username'' (Ty_String 128)),
     nullable (col ''confirmed_at'' Ty_Timestamp),
     nullable (col ''traded_at'' Ty_Timestamp),
     server_default ''now()'' (col ''created_at'' Ty_Timestamp)],
     ot_uniques = [],
     ot_checks = [(''ck_trades_direction'', one_of ''direction'' [''buy'', ''sell''])],
     ot_indexes = [index ''ix_trades_traded_at'' [''traded_at''], index ''ix_trades_book_traded_at'' [''book_id'', ''traded_at'']]\<rparr>"

definition orm_pending_trade_confirmations :: orm_table where
  "orm_pending_trade_confirmations = \<lparr>ot_name = ''pending_trade_confirmations'', ot_columns = [
     key (col ''id'' Ty_Uuid),
     unique (col ''source_ref'' (Ty_String 64)),
     nullable (col ''confirmation_post_id'' (Ty_String 64)),
     col ''user_id'' (Ty_String 64),
     nullable (col ''username'' (Ty_String 128)),
     nullable (col ''channel_id'' (Ty_String 128)),
     col ''trade_json'' Ty_Json,
     nullable (col ''raw_text'' Ty_Text),
     server_default (quoted ''pending'') (col ''status'' (Ty_String 16)),
     col ''expires_at'' Ty_Timestamp,
     nullable (col ''resolved_at'' Ty_Timestamp),
     nullable (col ''resolved_by_user_id'' (Ty_String 64)),
     server_default ''now()'' (col ''created_at'' Ty_Timestamp),
     nullable (col ''updated_at'' Ty_Timestamp)],
     ot_uniques = [],
     ot_checks = [],
     ot_indexes = [index ''ix_trade_confirmations_status_expires'' [''status'', ''expires_at'']]\<rparr>"

definition orm_book_cash :: orm_table where
  "orm_book_cash = \<lparr>ot_name = ''book_cash'', ot_columns = [
     key (col ''book_id'' (Ty_String 32)),
     server_default ''0'' (col ''cash_usd'' Ty_Money),
     nullable (col ''updated_at'' Ty_Timestamp)],
     ot_uniques = [],
     ot_checks = [],
     ot_indexes = []\<rparr>"

definition orm_cash_events :: orm_table where
  "orm_cash_events = \<lparr>ot_name = ''cash_events'', ot_columns = [
     key (col ''id'' Ty_Uuid),
     col ''book_id'' (Ty_String 32),
     col ''amount_usd'' Ty_Money,
     col ''event_type'' (Ty_String 32),
     nullable (col ''notes'' Ty_Text),
     col ''posted_by_user_id'' (Ty_String 64),
     nullable (col ''posted_by_username'' (Ty_String 128)),
     server_default ''now()'' (col ''created_at'' Ty_Timestamp)],
     ot_uniques = [],
     ot_checks = [],
     ot_indexes = []\<rparr>"

definition orm_risk_configs :: orm_table where
  "orm_risk_configs = \<lparr>ot_name = ''risk_configs'', ot_columns = [
     key (col ''id'' Ty_Uuid),
     unique (col ''book'' (Ty_String 32)),
     nullable (col ''max_position_pct'' Ty_Prob),
     nullable (col ''stop_loss_pct'' Ty_Prob),
     nullable (col ''var_confidence'' Ty_Prob),
     nullable (col ''var_limit_pct'' Ty_Prob),
     nullable (col ''rebalance_threshold_pct'' Ty_Prob),
     nullable (col ''max_sector_pct'' Ty_Prob),
     nullable (col ''sizing_method'' (Ty_String 32)),
     nullable (col ''kelly_fraction'' Ty_Prob),
     nullable (col ''max_positions'' Ty_Integer),
     nullable (col ''historical_lookback_days'' Ty_Integer),
     nullable (col ''parametric_window_days'' Ty_Integer),
     nullable (col ''parametric_ewma_lambda'' Ty_Prob),
     nullable (col ''mc_covariance_window_days'' Ty_Integer),
     nullable (col ''mc_distribution'' (Ty_String 16)),
     nullable (col ''mc_t_dof'' Ty_Integer),
     nullable (col ''target_weights'' Ty_Json),
     nullable (col ''scenario_shocks'' Ty_Json),
     server_default ''now()'' (col ''created_at'' Ty_Timestamp),
     nullable (col ''updated_at'' Ty_Timestamp)],
     ot_uniques = [],
     ot_checks = [],
     ot_indexes = []\<rparr>"

definition orm_risk_events :: orm_table where
  "orm_risk_events = \<lparr>ot_name = ''risk_events'', ot_columns = [
     key (col ''id'' Ty_Uuid),
     col ''book_id'' (Ty_String 32),
     nullable (col ''ticker'' (Ty_String 16)),
     col ''event_type'' (Ty_String 32),
     col ''severity'' (Ty_String 16),
     nullable (col ''detail'' Ty_Text),
     nullable (col ''instruction'' Ty_Json),
     col ''snapshot_at'' Ty_Timestamp,
     server_default ''false'' (col ''acknowledged'' Ty_Boolean),
     nullable (col ''acknowledged_by_user_id'' (Ty_String 64)),
     nullable (col ''acknowledged_at'' Ty_Timestamp),
     nullable (col ''acknowledged_via_post_id'' (Ty_String 64)),
     nullable (col ''post_id'' (Ty_String 64)),
     server_default ''now()'' (col ''created_at'' Ty_Timestamp)],
     ot_uniques = [(''uq_risk_event_snapshot'', [''book_id'', ''ticker'', ''event_type'', ''snapshot_at''])],
     ot_checks = [],
     ot_indexes = [index ''ix_risk_events_created_at'' [''created_at''], index ''ix_risk_events_book_severity_ack'' [''book_id'', ''severity'', ''acknowledged'']]\<rparr>"

definition orm_portfolio_snapshots :: orm_table where
  "orm_portfolio_snapshots = \<lparr>ot_name = ''portfolio_snapshots'', ot_columns = [
     key (col ''id'' Ty_Uuid),
     col ''book'' (Ty_String 32),
     nullable (col ''total_nav_usd'' Ty_Money),
     nullable (col ''positions_json'' Ty_Json),
     nullable (col ''var_results'' Ty_Json),
     nullable (col ''portfolio_beta'' Ty_Prob),
     nullable (col ''benchmark_correlation'' Ty_Prob),
     nullable (col ''herfindahl_index'' Ty_Prob),
     nullable (col ''top1_weight'' Ty_Prob),
     nullable (col ''top5_weight'' Ty_Prob),
     nullable (col ''limit_breaches'' Ty_Json),
     nullable (col ''sizing_recommendations'' Ty_Json),
     nullable (col ''snapshot_at'' Ty_Timestamp),
     server_default ''now()'' (col ''created_at'' Ty_Timestamp)],
     ot_uniques = [],
     ot_checks = [],
     ot_indexes = [index ''ix_portfolio_book_snapshot'' [''book'', ''snapshot_at'']]\<rparr>"

text \<open>\<open>Base.metadata\<close>, in the order of the classes.\<close>

definition metadata :: "orm_table list" where
  "metadata = [
     orm_houses, orm_coverage, orm_coverage_contributors, orm_coverage_levels, orm_coverage_transitions,
     orm_coverage_lead_history, orm_runs, orm_run_stages, orm_stage_attempts, orm_coverage_run_locks,
     orm_pm_gates, orm_predictions, orm_prediction_hits, orm_corrections, orm_disagreements,
     orm_events, orm_dossier_index, orm_dossier_commits, orm_doctrine_versions, orm_artifacts,
     orm_llm_usage, orm_house_budget_days, orm_house_metric_snapshots, orm_price_pins, orm_outbox_events,
     orm_audit_log, orm_idempotency_keys, orm_scheduler_job_logs, orm_news_articles, orm_mm_channels,
     orm_mm_posts, orm_positions, orm_trades, orm_pending_trade_confirmations, orm_book_cash,
     orm_cash_events, orm_risk_configs, orm_risk_events, orm_portfolio_snapshots]"

lemmas orm_defs = orm_houses_def orm_coverage_def orm_coverage_contributors_def orm_coverage_levels_def orm_coverage_transitions_def
  orm_coverage_lead_history_def orm_runs_def orm_run_stages_def orm_stage_attempts_def orm_coverage_run_locks_def
  orm_pm_gates_def orm_predictions_def orm_prediction_hits_def orm_corrections_def orm_disagreements_def
  orm_events_def orm_dossier_index_def orm_dossier_commits_def orm_doctrine_versions_def orm_artifacts_def
  orm_llm_usage_def orm_house_budget_days_def orm_house_metric_snapshots_def orm_price_pins_def orm_outbox_events_def
  orm_audit_log_def orm_idempotency_keys_def orm_scheduler_job_logs_def orm_news_articles_def orm_mm_channels_def
  orm_mm_posts_def orm_positions_def orm_trades_def orm_pending_trade_confirmations_def orm_book_cash_def
  orm_cash_events_def orm_risk_configs_def orm_risk_events_def orm_portfolio_snapshots_def

end
