(* ===== verification/Migration.thy ===== *)
theory Migration
  imports Ddl
begin

text \<open>
  \<open>core/db/migrations/versions/0001_baseline.py\<close>: the operations of \<open>upgrade\<close> and
  \<open>downgrade\<close>, one definition per table the migration creates.  \<open>op.f\<close> marks a name as
  final, so names are taken as they stand.
\<close>

definition tcol :: "string \<Rightarrow> sql_type \<Rightarrow> table_column" where "tcol n t = (n, t, False, None)"

definition tnull :: "string \<Rightarrow> sql_type \<Rightarrow> table_column" where "tnull n t = (n, t, True, None)"

definition tdefault :: "string \<Rightarrow> sql_type \<Rightarrow> string \<Rightarrow> table_column" where "tdefault n t s = (n, t, False, Some s)"

definition fkey :: "string \<Rightarrow> string \<Rightarrow> string \<Rightarrow> string \<Rightarrow> string option \<Rightarrow> foreign_key" where
  "fkey c t k n od = \<lparr>fk_name = n, fk_columns = [c], fk_table = t, fk_targets = [k], fk_ondelete = od\<rparr>"

definition create_audit_log :: table_def where
  "create_audit_log = \<lparr>td_name = ''audit_log'', td_columns = [
     tcol ''id'' Ty_Uuid,
     tcol ''action'' (Ty_String 64),
     tcol ''actor_type'' (Ty_String 16),
     tcol ''actor_id'' (Ty_String 64),
     tnull ''target'' (Ty_String 256),
     tnull ''before_state'' Ty_Json,
     tnull ''after_state'' Ty_Json,
     tnull ''request_id'' (Ty_String 64),
     tdefault ''created_at'' Ty_Timestamp ''now()''],
     td_primary = (''pk_audit_log'', [''id'']),
     td_uniques = [],
     td_checks = [],
     td_keys = []\<rparr>"

definition create_ix_audit_log_created :: sql_index where
  "create_ix_audit_log_created = index ''ix_audit_log_created'' [''created_at'']"

definition create_book_cash :: table_def where
  "create_book_cash = \<lparr>td_name = ''book_cash'', td_columns = [
     tcol ''book_id'' (Ty_String 32),
     tdefault ''cash_usd'' Ty_Money ''0'',
     tnull ''updated_at'' Ty_Timestamp],
     td_primary = (''pk_book_cash'', [''book_id'']),
     td_uniques = [],
     td_checks = [],
     td_keys = []\<rparr>"

definition create_cash_events :: table_def where
  "create_cash_events = \<lparr>td_name = ''cash_events'', td_columns = [
     tcol ''id'' Ty_Uuid,
     tcol ''book_id'' (Ty_String 32),
     tcol ''amount_usd'' Ty_Money,
     tcol ''event_type'' (Ty_String 32),
     tnull ''notes'' Ty_Text,
     tcol ''posted_by_user_id'' (Ty_String 64),
     tnull ''posted_by_username'' (Ty_String 128),
     tdefault ''created_at'' Ty_Timestamp ''now()''],
     td_primary = (''pk_cash_events'', [''id'']),
     td_uniques = [],
     td_checks = [],
     td_keys = []\<rparr>"

definition create_doctrine_versions :: table_def where
  "create_doctrine_versions = \<lparr>td_name = ''doctrine_versions'', td_columns = [
     tcol ''id'' Ty_Uuid,
     tcol ''commit_sha'' (Ty_String 40),
     tcol ''label'' (Ty_String 32),
     tnull ''approved_by'' (Ty_String 64),
     tnull ''approved_at'' Ty_Timestamp,
     tnull ''distillation_run_id'' Ty_Uuid,
     tnull ''notes'' Ty_Text,
     tdefault ''is_current'' Ty_Boolean ''false'',
     tdefault ''created_at'' Ty_Timestamp ''now()''],
     td_primary = (''pk_doctrine_versions'', [''id'']),
     td_uniques = [(''uq_doctrine_versions_commit_sha'', [''commit_sha''])],
     td_checks = [],
     td_keys = [(True, fkey ''distillation_run_id'' ''runs'' ''id'' ''fk_doctrine_versions_distillation_run_id_runs'' None)]\<rparr>"

definition create_ux_doctrine_current :: sql_index where
  "create_ux_doctrine_current = unique_where ''ux_doctrine_current'' [''is_current''] ''is_current''"

definition create_houses :: table_def where
  "create_houses = \<lparr>td_name = ''houses'', td_columns = [
     tcol ''key'' (Ty_String 32),
     tcol ''display_name'' (Ty_String 64),
     tcol ''provider'' (Ty_String 32),
     tdefault ''assignable'' Ty_Boolean ''true'',
     tdefault ''meta'' Ty_Boolean ''false'',
     tdefault ''enabled'' Ty_Boolean ''true'',
     tnull ''harness_type'' (Ty_String 32),
     tnull ''config_digest'' (Ty_String 64),
     tdefault ''created_at'' Ty_Timestamp ''now()'',
     tnull ''updated_at'' Ty_Timestamp],
     td_primary = (''pk_houses'', [''key'']),
     td_uniques = [],
     td_checks = [(''ck_houses_ck_houses_meta_not_assignable'', ''NOT (assignable AND meta)'')],
     td_keys = []\<rparr>"

definition create_idempotency_keys :: table_def where
  "create_idempotency_keys = \<lparr>td_name = ''idempotency_keys'', td_columns = [
     tcol ''key'' (Ty_String 64),
     tcol ''route'' (Ty_String 64),
     tcol ''actor_id'' (Ty_String 64),
     tnull ''response'' Ty_Json,
     tnull ''status_code'' Ty_Integer,
     tcol ''expires_at'' Ty_Timestamp,
     tdefault ''created_at'' Ty_Timestamp ''now()''],
     td_primary = (''pk_idempotency_keys'', [''key'']),
     td_uniques = [],
     td_checks = [],
     td_keys = []\<rparr>"

definition create_mm_posts :: table_def where
  "create_mm_posts = \<lparr>td_name = ''mm_posts'', td_columns = [
     tcol ''id'' Ty_Uuid,
     tcol ''ref_type'' (Ty_String 24),
     tcol ''ref_id'' (Ty_String 64),
     tcol ''channel_id'' (Ty_String 64),
     tcol ''post_id'' (Ty_String 64),
     tnull ''root_id'' (Ty_String 64),
     tdefault ''created_at'' Ty_Timestamp ''now()''],
     td_primary = (''pk_mm_posts'', [''id'']),
     td_uniques = [(''uq_mm_posts_ref'', [''ref_type'', ''ref_id''])],
     td_checks = [],
     td_keys = []\<rparr>"

definition create_news_articles :: table_def where
  "create_news_articles = \<lparr>td_name = ''news_articles'', td_columns = [
     tcol ''id'' Ty_Uuid,
     tnull ''url'' (Ty_String 2048),
     tnull ''normalised_url'' (Ty_String 2048),
     tnull ''content_hash'' (Ty_String 64),
     tnull ''cluster_id'' Ty_Uuid,
     tnull ''title'' (Ty_String 512),
     tnull ''source'' (Ty_String 64),
     tnull ''published_at'' Ty_Timestamp,
     tnull ''full_text'' Ty_Text,
     tnull ''summary'' Ty_Text,
     tnull ''tickers'' Ty_Json,
     tnull ''scored_at'' Ty_Timestamp,
     tnull ''scores'' Ty_Json,
     tdefault ''created_at'' Ty_Timestamp ''now()''],
     td_primary = (''pk_news_articles'', [''id'']),
     td_uniques = [(''uq_news_articles_url'', [''url''])],
     td_checks = [],
     td_keys = []\<rparr>"

definition create_ix_news_content_hash :: sql_index where
  "create_ix_news_content_hash = index ''ix_news_content_hash'' [''content_hash'']"

definition create_ix_news_normalised_url :: sql_index where
  "create_ix_news_normalised_url = index ''ix_news_normalised_url'' [''normalised_url'']"

definition create_ix_news_published :: sql_index where
  "create_ix_news_published = index ''ix_news_published'' [''published_at'']"

definition create_pending_trade_confirmations :: table_def where
  "create_pending_trade_confirmations = \<lparr>td_name = ''pending_trade_confirmations'', td_columns = [
     tcol ''id'' Ty_Uuid,
     tcol ''source_ref'' (Ty_String 64),
     tnull ''confirmation_post_id'' (Ty_String 64),
     tcol ''user_id'' (Ty_String 64),
     tnull ''username'' (Ty_String 128),
     tnull ''channel_id'' (Ty_String 128),
     tcol ''trade_json'' Ty_Json,
     tnull ''raw_text'' Ty_Text,
     tdefault ''status'' (Ty_String 16) (quoted ''pending''),
     tcol ''expires_at'' Ty_Timestamp,
     tnull ''resolved_at'' Ty_Timestamp,
     tnull ''resolved_by_user_id'' (Ty_String 64),
     tdefault ''created_at'' Ty_Timestamp ''now()'',
     tnull ''updated_at'' Ty_Timestamp],
     td_primary = (''pk_pending_trade_confirmations'', [''id'']),
     td_uniques = [(''uq_pending_trade_confirmations_source_ref'', [''source_ref''])],
     td_checks = [],
     td_keys = []\<rparr>"

definition create_ix_trade_confirmations_status_expires :: sql_index where
  "create_ix_trade_confirmations_status_expires = index ''ix_trade_confirmations_status_expires'' [''status'', ''expires_at'']"

definition create_portfolio_snapshots :: table_def where
  "create_portfolio_snapshots = \<lparr>td_name = ''portfolio_snapshots'', td_columns = [
     tcol ''id'' Ty_Uuid,
     tcol ''book'' (Ty_String 32),
     tnull ''total_nav_usd'' Ty_Money,
     tnull ''positions_json'' Ty_Json,
     tnull ''var_results'' Ty_Json,
     tnull ''portfolio_beta'' Ty_Prob,
     tnull ''benchmark_correlation'' Ty_Prob,
     tnull ''herfindahl_index'' Ty_Prob,
     tnull ''top1_weight'' Ty_Prob,
     tnull ''top5_weight'' Ty_Prob,
     tnull ''limit_breaches'' Ty_Json,
     tnull ''sizing_recommendations'' Ty_Json,
     tnull ''snapshot_at'' Ty_Timestamp,
     tdefault ''created_at'' Ty_Timestamp ''now()''],
     td_primary = (''pk_portfolio_snapshots'', [''id'']),
     td_uniques = [],
     td_checks = [],
     td_keys = []\<rparr>"

definition create_ix_portfolio_book_snapshot :: sql_index where
  "create_ix_portfolio_book_snapshot = index ''ix_portfolio_book_snapshot'' [''book'', ''snapshot_at'']"

definition create_positions :: table_def where
  "create_positions = \<lparr>td_name = ''positions'', td_columns = [
     tcol ''id'' Ty_Uuid,
     tcol ''ticker'' (Ty_String 16),
     tdefault ''net_quantity'' (Ty_Numeric 20 6) ''0'',
     tnull ''avg_cost'' Ty_Price,
     tcol ''book_id'' (Ty_String 32),
     tdefault ''currency'' (Ty_String 8) (quoted ''USD''),
     tnull ''last_trade_at'' Ty_Timestamp,
     tnull ''updated_at'' Ty_Timestamp],
     td_primary = (''pk_positions'', [''id'']),
     td_uniques = [(''uq_positions_ticker_book'', [''ticker'', ''book_id''])],
     td_checks = [],
     td_keys = []\<rparr>"

definition create_price_pins :: table_def where
  "create_price_pins = \<lparr>td_name = ''price_pins'', td_columns = [
     tcol ''exchange'' (Ty_String 16),
     tcol ''ticker'' (Ty_String 16),
     tcol ''trading_date'' Ty_Date,
     tcol ''value'' Ty_Price,
     tcol ''currency'' (Ty_String 8),
     tcol ''source'' (Ty_String 32),
     tdefault ''pinned_at'' Ty_Timestamp ''now()''],
     td_primary = (''pk_price_pins'', [''exchange'', ''ticker'', ''trading_date'']),
     td_uniques = [],
     td_checks = [],
     td_keys = []\<rparr>"

definition create_risk_configs :: table_def where
  "create_risk_configs = \<lparr>td_name = ''risk_configs'', td_columns = [
     tcol ''id'' Ty_Uuid,
     tcol ''book'' (Ty_String 32),
     tnull ''max_position_pct'' Ty_Prob,
     tnull ''stop_loss_pct'' Ty_Prob,
     tnull ''var_confidence'' Ty_Prob,
     tnull ''var_limit_pct'' Ty_Prob,
     tnull ''rebalance_threshold_pct'' Ty_Prob,
     tnull ''max_sector_pct'' Ty_Prob,
     tnull ''sizing_method'' (Ty_String 32),
     tnull ''kelly_fraction'' Ty_Prob,
     tnull ''max_positions'' Ty_Integer,
     tnull ''historical_lookback_days'' Ty_Integer,
     tnull ''parametric_window_days'' Ty_Integer,
     tnull ''parametric_ewma_lambda'' Ty_Prob,
     tnull ''mc_covariance_window_days'' Ty_Integer,
     tnull ''mc_distribution'' (Ty_String 16),
     tnull ''mc_t_dof'' Ty_Integer,
     tnull ''target_weights'' Ty_Json,
     tnull ''scenario_shocks'' Ty_Json,
     tdefault ''created_at'' Ty_Timestamp ''now()'',
     tnull ''updated_at'' Ty_Timestamp],
     td_primary = (''pk_risk_configs'', [''id'']),
     td_uniques = [(''uq_risk_configs_book'', [''book''])],
     td_checks = [],
     td_keys = []\<rparr>"

definition create_risk_events :: table_def where
  "create_risk_events = \<lparr>td_name = ''risk_events'', td_columns = [
     tcol ''id'' Ty_Uuid,
     tcol ''book_id'' (Ty_String 32),
     tnull ''ticker'' (Ty_String 16),
     tcol ''event_type'' (Ty_String 32),
     tcol ''severity'' (Ty_String 16),
     tnull ''detail'' Ty_Text,
     tnull ''instruction'' Ty_Json,
     tcol ''snapshot_at'' Ty_Timestamp,
     tdefault ''acknowledged'' Ty_Boolean ''false'',
     tnull ''acknowledged_by_user_id'' (Ty_String 64),
     tnull ''acknowledged_at'' Ty_Timestamp,
     tnull ''acknowledged_via_post_id'' (Ty_String 64),
     tnull ''post_id'' (Ty_String 64),
     tdefault ''created_at'' Ty_Timestamp ''now()''],
     td_primary = (''pk_risk_events'', [''id'']),
     td_uniques = [(''uq_risk_event_snapshot'', [''book_id'', ''ticker'', ''event_type'', ''snapshot_at''])],
     td_checks = [],
     td_keys = []\<rparr>"

definition create_ix_risk_events_book_severity_ack :: sql_index where
  "create_ix_risk_events_book_severity_ack = index ''ix_risk_events_book_severity_ack'' [''book_id'', ''severity'', ''acknowledged'']"

definition create_ix_risk_events_created_at :: sql_index where
  "create_ix_risk_events_created_at = index ''ix_risk_events_created_at'' [''created_at'']"

definition create_scheduler_job_logs :: table_def where
  "create_scheduler_job_logs = \<lparr>td_name = ''scheduler_job_logs'', td_columns = [
     tcol ''id'' Ty_Uuid,
     tcol ''job_name'' (Ty_String 64),
     tcol ''status'' (Ty_String 16),
     tnull ''scheduled_for'' Ty_Timestamp,
     tnull ''started_at'' Ty_Timestamp,
     tnull ''finished_at'' Ty_Timestamp,
     tnull ''detail'' Ty_Text,
     tdefault ''runs_created'' Ty_Integer ''0'',
     tdefault ''created_at'' Ty_Timestamp ''now()''],
     td_primary = (''pk_scheduler_job_logs'', [''id'']),
     td_uniques = [],
     td_checks = [],
     td_keys = []\<rparr>"

definition create_ix_scheduler_job_logs_job_created :: sql_index where
  "create_ix_scheduler_job_logs_job_created = index ''ix_scheduler_job_logs_job_created'' [''job_name'', ''created_at'']"

definition create_trades :: table_def where
  "create_trades = \<lparr>td_name = ''trades'', td_columns = [
     tcol ''id'' Ty_Uuid,
     tnull ''source_ref'' (Ty_String 64),
     tcol ''raw_text'' Ty_Text,
     tcol ''ticker'' (Ty_String 16),
     tcol ''direction'' (Ty_String 4),
     tcol ''quantity'' (Ty_Numeric 20 6),
     tcol ''price'' Ty_Price,
     tdefault ''currency'' (Ty_String 8) (quoted ''USD''),
     tnull ''notes'' Ty_Text,
     tnull ''parse_confidence'' Ty_Prob,
     tcol ''book_id'' (Ty_String 32),
     tcol ''posted_by_user_id'' (Ty_String 64),
     tnull ''posted_by_username'' (Ty_String 128),
     tnull ''confirmed_at'' Ty_Timestamp,
     tnull ''traded_at'' Ty_Timestamp,
     tdefault ''created_at'' Ty_Timestamp ''now()''],
     td_primary = (''pk_trades'', [''id'']),
     td_uniques = [(''uq_trades_source_ref'', [''source_ref''])],
     td_checks = [(''ck_trades_ck_trades_direction'', one_of ''direction'' [''buy'', ''sell''])],
     td_keys = []\<rparr>"

definition create_ix_trades_book_traded_at :: sql_index where
  "create_ix_trades_book_traded_at = index ''ix_trades_book_traded_at'' [''book_id'', ''traded_at'']"

definition create_ix_trades_traded_at :: sql_index where
  "create_ix_trades_traded_at = index ''ix_trades_traded_at'' [''traded_at'']"

definition create_coverage :: table_def where
  "create_coverage = \<lparr>td_name = ''coverage'', td_columns = [
     tcol ''id'' Ty_Uuid,
     tcol ''ticker'' (Ty_String 16),
     tcol ''exchange'' (Ty_String 16),
     tcol ''name'' (Ty_String 128),
     tcol ''currency'' (Ty_String 8),
     tnull ''isin'' (Ty_String 12),
     tcol ''state'' (Ty_String 24),
     tnull ''lead_house'' (Ty_String 32),
     tcol ''dossier_slug'' (Ty_String 48),
     tnull ''earnings_calendar_ref'' (Ty_String 64),
     tnull ''exchange_session_ref'' (Ty_String 32),
     tnull ''pm_notes'' Ty_Text,
     tnull ''proposed_by'' (Ty_String 64),
     tnull ''decided_at'' Ty_Timestamp,
     tnull ''exited_at'' Ty_Timestamp,
     tdefault ''created_at'' Ty_Timestamp ''now()'',
     tnull ''updated_at'' Ty_Timestamp],
     td_primary = (''pk_coverage'', [''id'']),
     td_uniques = [(''uq_coverage_dossier_slug'', [''dossier_slug'']), (''uq_coverage_exchange_ticker'', [''exchange'', ''ticker''])],
     td_checks = [(''ck_coverage_ck_coverage_lead_required_when_live'', ''(state IN ('active','watch','decision_pending')) = (lead_house IS NOT NULL) OR state NOT IN ('active','watch','decision_pending')''),
       (''ck_coverage_ck_coverage_state'', one_of ''state'' [''proposed'', ''initiating'', ''decision_pending'', ''active'', ''watch'', ''rejected'', ''exited'', ''failed''])],
     td_keys = [(False, fkey ''lead_house'' ''houses'' ''key'' ''fk_coverage_lead_house_houses'' (Some ''RESTRICT''))]\<rparr>"

definition create_ix_coverage_state :: sql_index where
  "create_ix_coverage_state = index ''ix_coverage_state'' [''state'']"

definition create_house_budget_days :: table_def where
  "create_house_budget_days = \<lparr>td_name = ''house_budget_days'', td_columns = [
     tcol ''house'' (Ty_String 32),
     tcol ''day'' Ty_Date,
     tdefault ''reserved_usd'' Ty_Cost ''0'',
     tdefault ''spent_usd'' Ty_Cost ''0'',
     tnull ''cap_usd'' Ty_Cost,
     tnull ''updated_at'' Ty_Timestamp],
     td_primary = (''pk_house_budget_days'', [''house'', ''day'']),
     td_uniques = [],
     td_checks = [],
     td_keys = [(False, fkey ''house'' ''houses'' ''key'' ''fk_house_budget_days_house_houses'' (Some ''RESTRICT''))]\<rparr>"

definition create_house_metric_snapshots :: table_def where
  "create_house_metric_snapshots = \<lparr>td_name = ''house_metric_snapshots'', td_columns = [
     tcol ''house'' (Ty_String 32),
     tcol ''as_of'' Ty_Date,
     tcol ''scope'' (Ty_String 32),
     tcol ''metrics'' Ty_Json,
     tdefault ''created_at'' Ty_Timestamp ''now()''],
     td_primary = (''pk_house_metric_snapshots'', [''house'', ''as_of'', ''scope'']),
     td_uniques = [],
     td_checks = [],
     td_keys = [(False, fkey ''house'' ''houses'' ''key'' ''fk_house_metric_snapshots_house_houses'' (Some ''RESTRICT''))]\<rparr>"

definition create_coverage_contributors :: table_def where
  "create_coverage_contributors = \<lparr>td_name = ''coverage_contributors'', td_columns = [
     tcol ''coverage_id'' Ty_Uuid,
     tcol ''house'' (Ty_String 32),
     tdefault ''added_at'' Ty_Timestamp ''now()'',
     tnull ''added_by'' (Ty_String 64)],
     td_primary = (''pk_coverage_contributors'', [''coverage_id'', ''house'']),
     td_uniques = [],
     td_checks = [],
     td_keys = [(False, fkey ''coverage_id'' ''coverage'' ''id'' ''fk_coverage_contributors_coverage_id_coverage'' (Some ''RESTRICT'')),
       (False, fkey ''house'' ''houses'' ''key'' ''fk_coverage_contributors_house_houses'' (Some ''RESTRICT''))]\<rparr>"

definition create_mm_channels :: table_def where
  "create_mm_channels = \<lparr>td_name = ''mm_channels'', td_columns = [
     tcol ''coverage_id'' Ty_Uuid,
     tcol ''team_id'' (Ty_String 64),
     tcol ''channel_id'' (Ty_String 64),
     tcol ''channel_name'' (Ty_String 64),
     tnull ''archived_at'' Ty_Timestamp,
     tdefault ''created_at'' Ty_Timestamp ''now()'',
     tnull ''updated_at'' Ty_Timestamp],
     td_primary = (''pk_mm_channels'', [''coverage_id'']),
     td_uniques = [(''uq_mm_channels_channel_id'', [''channel_id'']), (''uq_mm_channels_channel_name'', [''channel_name''])],
     td_checks = [],
     td_keys = [(False, fkey ''coverage_id'' ''coverage'' ''id'' ''fk_mm_channels_coverage_id_coverage'' None)]\<rparr>"

definition create_runs :: table_def where
  "create_runs = \<lparr>td_name = ''runs'', td_columns = [
     tcol ''id'' Ty_Uuid,
     tnull ''coverage_id'' Ty_Uuid,
     tcol ''type'' (Ty_String 24),
     tcol ''status'' (Ty_String 16),
     tcol ''trigger'' (Ty_String 32),
     tnull ''trigger_ref'' (Ty_String 128),
     tdefault ''priority'' Ty_Integer ''100'',
     tdefault ''mutates_dossier'' Ty_Boolean ''true'',
     tnull ''requested_by'' (Ty_String 64),
     tcol ''params'' Ty_Json,
     tnull ''doctrine_version_id'' Ty_Uuid,
     tnull ''budget_cap_usd'' Ty_Cost,
     tdefault ''cost_usd'' Ty_Cost ''0'',
     tnull ''summary'' Ty_Text,
     tnull ''pm_decision'' (Ty_String 32),
     tnull ''dossier_commit_before'' (Ty_String 40),
     tnull ''dossier_commit_after'' (Ty_String 40),
     tnull ''error'' Ty_Text,
     tnull ''started_at'' Ty_Timestamp,
     tnull ''finished_at'' Ty_Timestamp,
     tdefault ''created_at'' Ty_Timestamp ''now()'',
     tnull ''updated_at'' Ty_Timestamp],
     td_primary = (''pk_runs'', [''id'']),
     td_uniques = [],
     td_checks = [(''ck_runs_ck_runs_coverage_required'', (''(coverage_id IS NOT NULL) OR type = '' @ quoted ''distillation'')),
       (''ck_runs_ck_runs_status'', one_of ''status'' [''queued'', ''running'', ''waiting_pm'', ''succeeded'', ''failed'', ''cancelled'']),
       (''ck_runs_ck_runs_type'', one_of ''type'' [''initiation'', ''deep_review'', ''event_analysis'', ''monitor_tick'', ''pm_query'', ''lead_review'', ''distillation''])],
     td_keys = [(False, fkey ''coverage_id'' ''coverage'' ''id'' ''fk_runs_coverage_id_coverage'' None),
       (False, fkey ''doctrine_version_id'' ''doctrine_versions'' ''id'' ''fk_runs_doctrine_version_id_doctrine_versions'' None)]\<rparr>"

definition create_ix_runs_coverage_created :: sql_index where
  "create_ix_runs_coverage_created = index ''ix_runs_coverage_created'' [''coverage_id'', ''created_at'']"

definition create_ix_runs_status_priority :: sql_index where
  "create_ix_runs_status_priority = index ''ix_runs_status_priority'' [''status'', ''priority'', ''created_at'']"

definition create_uq_runs_trigger_ref :: sql_index where
  "create_uq_runs_trigger_ref = unique_where ''uq_runs_trigger_ref'' [''coverage_id'', ''type'', ''trigger_ref''] ''trigger_ref IS NOT NULL''"

definition create_coverage_lead_history :: table_def where
  "create_coverage_lead_history = \<lparr>td_name = ''coverage_lead_history'', td_columns = [
     tcol ''id'' Ty_Uuid,
     tcol ''coverage_id'' Ty_Uuid,
     tnull ''from_house'' (Ty_String 32),
     tcol ''to_house'' (Ty_String 32),
     tnull ''run_id'' Ty_Uuid,
     tcol ''approved_by'' (Ty_String 64),
     tnull ''rationale'' Ty_Text,
     tdefault ''created_at'' Ty_Timestamp ''now()''],
     td_primary = (''pk_coverage_lead_history'', [''id'']),
     td_uniques = [],
     td_checks = [],
     td_keys = [(False, fkey ''coverage_id'' ''coverage'' ''id'' ''fk_coverage_lead_history_coverage_id_coverage'' (Some ''RESTRICT'')),
       (False, fkey ''from_house'' ''houses'' ''key'' ''fk_coverage_lead_history_from_house_houses'' (Some ''RESTRICT'')),
       (False, fkey ''run_id'' ''runs'' ''id'' ''fk_coverage_lead_history_run_id_runs'' None),
       (False, fkey ''to_house'' ''houses'' ''key'' ''fk_coverage_lead_history_to_house_houses'' (Some ''RESTRICT''))]\<rparr>"

definition create_coverage_levels :: table_def where
  "create_coverage_levels = \<lparr>td_name = ''coverage_levels'', td_columns = [
     tcol ''id'' Ty_Uuid,
     tcol ''coverage_id'' Ty_Uuid,
     tcol ''kind'' (Ty_String 16),
     tcol ''value'' Ty_Price,
     tcol ''currency'' (Ty_String 8),
     tcol ''direction'' (Ty_String 8),
     tcol ''set_by'' (Ty_String 16),
     tnull ''set_by_run_id'' Ty_Uuid,
     tdefault ''active'' Ty_Boolean ''true'',
     tnull ''superseded_at'' Ty_Timestamp,
     tdefault ''created_at'' Ty_Timestamp ''now()''],
     td_primary = (''pk_coverage_levels'', [''id'']),
     td_uniques = [],
     td_checks = [(''ck_coverage_levels_ck_coverage_levels_direction'', one_of ''direction'' [''below'', ''above'']),
       (''ck_coverage_levels_ck_coverage_levels_kind'', one_of ''kind'' [''entry'', ''target'', ''stop'', ''review'']),
       (''ck_coverage_levels_ck_coverage_levels_value_positive'', ''value > 0'')],
     td_keys = [(False, fkey ''coverage_id'' ''coverage'' ''id'' ''fk_coverage_levels_coverage_id_coverage'' (Some ''RESTRICT'')),
       (False, fkey ''set_by_run_id'' ''runs'' ''id'' ''fk_coverage_levels_set_by_run_id_runs'' None)]\<rparr>"

definition create_ix_coverage_levels_active :: sql_index where
  "create_ix_coverage_levels_active = index ''ix_coverage_levels_active'' [''coverage_id'', ''active'']"

definition create_coverage_run_locks :: table_def where
  "create_coverage_run_locks = \<lparr>td_name = ''coverage_run_locks'', td_columns = [
     tcol ''coverage_id'' Ty_Uuid,
     tcol ''run_id'' Ty_Uuid,
     tcol ''acquired_at'' Ty_Timestamp],
     td_primary = (''pk_coverage_run_locks'', [''coverage_id'']),
     td_uniques = [(''uq_coverage_run_locks_run_id'', [''run_id''])],
     td_checks = [],
     td_keys = [(False, fkey ''coverage_id'' ''coverage'' ''id'' ''fk_coverage_run_locks_coverage_id_coverage'' None),
       (False, fkey ''run_id'' ''runs'' ''id'' ''fk_coverage_run_locks_run_id_runs'' None)]\<rparr>"

definition create_coverage_transitions :: table_def where
  "create_coverage_transitions = \<lparr>td_name = ''coverage_transitions'', td_columns = [
     tcol ''id'' Ty_Uuid,
     tcol ''coverage_id'' Ty_Uuid,
     tnull ''from_state'' (Ty_String 24),
     tcol ''to_state'' (Ty_String 24),
     tcol ''actor_type'' (Ty_String 16),
     tnull ''actor_id'' (Ty_String 64),
     tcol ''cause'' (Ty_String 64),
     tnull ''run_id'' Ty_Uuid,
     tnull ''notes'' Ty_Text,
     tdefault ''created_at'' Ty_Timestamp ''now()''],
     td_primary = (''pk_coverage_transitions'', [''id'']),
     td_uniques = [],
     td_checks = [],
     td_keys = [(False, fkey ''coverage_id'' ''coverage'' ''id'' ''fk_coverage_transitions_coverage_id_coverage'' (Some ''RESTRICT'')),
       (False, fkey ''run_id'' ''runs'' ''id'' ''fk_coverage_transitions_run_id_runs'' None)]\<rparr>"

definition create_ix_coverage_transitions_coverage_created :: sql_index where
  "create_ix_coverage_transitions_coverage_created = index ''ix_coverage_transitions_coverage_created'' [''coverage_id'', ''created_at'']"

definition create_dossier_index :: table_def where
  "create_dossier_index = \<lparr>td_name = ''dossier_index'', td_columns = [
     tcol ''coverage_id'' Ty_Uuid,
     tcol ''slug'' (Ty_String 48),
     tnull ''main_commit'' (Ty_String 40),
     tnull ''updated_by_run_id'' Ty_Uuid,
     tnull ''stance'' (Ty_String 16),
     tnull ''conviction'' (Ty_String 16),
     tnull ''as_of'' Ty_Date,
     tnull ''target_price'' Ty_Price,
     tdefault ''tripwire_count'' Ty_Integer ''0'',
     tnull ''files'' Ty_Json,
     tnull ''updated_at'' Ty_Timestamp],
     td_primary = (''pk_dossier_index'', [''coverage_id'']),
     td_uniques = [(''uq_dossier_index_slug'', [''slug''])],
     td_checks = [],
     td_keys = [(False, fkey ''coverage_id'' ''coverage'' ''id'' ''fk_dossier_index_coverage_id_coverage'' None),
       (False, fkey ''updated_by_run_id'' ''runs'' ''id'' ''fk_dossier_index_updated_by_run_id_runs'' None)]\<rparr>"

definition create_events :: table_def where
  "create_events = \<lparr>td_name = ''events'', td_columns = [
     tcol ''id'' Ty_Uuid,
     tnull ''coverage_id'' Ty_Uuid,
     tcol ''kind'' (Ty_String 24),
     tcol ''severity'' (Ty_String 16),
     tcol ''title'' (Ty_String 256),
     tnull ''detail'' Ty_Text,
     tcol ''payload'' Ty_Json,
     tnull ''news_article_id'' Ty_Uuid,
     tnull ''detected_by_run_id'' Ty_Uuid,
     tnull ''handled_by_run_id'' Ty_Uuid,
     tnull ''action'' (Ty_String 24),
     tcol ''dedupe_key'' (Ty_String 128),
     tcol ''occurred_at'' Ty_Timestamp,
     tdefault ''created_at'' Ty_Timestamp ''now()'',
     tnull ''pm_rating'' Ty_SmallInteger,
     tnull ''pm_rated_at'' Ty_Timestamp,
     tnull ''pm_rated_by'' (Ty_String 64)],
     td_primary = (''pk_events'', [''id'']),
     td_uniques = [(''uq_events_dedupe_key'', [''dedupe_key''])],
     td_checks = [],
     td_keys = [(False, fkey ''coverage_id'' ''coverage'' ''id'' ''fk_events_coverage_id_coverage'' None),
       (False, fkey ''detected_by_run_id'' ''runs'' ''id'' ''fk_events_detected_by_run_id_runs'' None),
       (False, fkey ''handled_by_run_id'' ''runs'' ''id'' ''fk_events_handled_by_run_id_runs'' None),
       (False, fkey ''news_article_id'' ''news_articles'' ''id'' ''fk_events_news_article_id_news_articles'' None)]\<rparr>"

definition create_ix_events_coverage_created :: sql_index where
  "create_ix_events_coverage_created = index ''ix_events_coverage_created'' [''coverage_id'', ''created_at'']"

definition create_ix_events_unhandled :: sql_index where
  "create_ix_events_unhandled = index ''ix_events_unhandled'' [''action'', ''handled_by_run_id'']"

definition create_outbox_events :: table_def where
  "create_outbox_events = \<lparr>td_name = ''outbox_events'', td_columns = [
     tcol ''id'' Ty_Uuid,
     tcol ''kind'' (Ty_String 48),
     tnull ''coverage_id'' Ty_Uuid,
     tnull ''run_id'' Ty_Uuid,
     tcol ''payload'' Ty_Json,
     tcol ''dedupe_key'' (Ty_String 128),
     tdefault ''available_at'' Ty_Timestamp ''now()'',
     tnull ''claimed_by'' (Ty_String 64),
     tnull ''lease_expires_at'' Ty_Timestamp,
     tdefault ''attempts'' Ty_Integer ''0'',
     tnull ''delivered_at'' Ty_Timestamp,
     tnull ''last_error'' Ty_Text,
     tdefault ''created_at'' Ty_Timestamp ''now()''],
     td_primary = (''pk_outbox_events'', [''id'']),
     td_uniques = [(''uq_outbox_events_dedupe_key'', [''dedupe_key''])],
     td_checks = [],
     td_keys = [(False, fkey ''coverage_id'' ''coverage'' ''id'' ''fk_outbox_events_coverage_id_coverage'' None),
       (False, fkey ''run_id'' ''runs'' ''id'' ''fk_outbox_events_run_id_runs'' None)]\<rparr>"

definition create_ix_outbox_pending :: sql_index where
  "create_ix_outbox_pending = index ''ix_outbox_pending'' [''delivered_at'', ''available_at'']"

definition create_pm_gates :: table_def where
  "create_pm_gates = \<lparr>td_name = ''pm_gates'', td_columns = [
     tcol ''id'' Ty_Uuid,
     tcol ''run_id'' Ty_Uuid,
     tnull ''coverage_id'' Ty_Uuid,
     tcol ''kind'' (Ty_String 32),
     tcol ''state'' (Ty_String 16),
     tcol ''prompt'' Ty_Text,
     tcol ''payload'' Ty_Json,
     tcol ''allowed_answers'' Ty_Json,
     tnull ''answer'' (Ty_String 32),
     tnull ''answer_notes'' Ty_Text,
     tnull ''answered_by'' (Ty_String 64),
     tnull ''answered_at'' Ty_Timestamp,
     tnull ''idempotency_key'' (Ty_String 64),
     tdefault ''created_at'' Ty_Timestamp ''now()'',
     tnull ''updated_at'' Ty_Timestamp],
     td_primary = (''pk_pm_gates'', [''id'']),
     td_uniques = [(''uq_pm_gates_idempotency_key'', [''idempotency_key''])],
     td_checks = [],
     td_keys = [(False, fkey ''coverage_id'' ''coverage'' ''id'' ''fk_pm_gates_coverage_id_coverage'' None),
       (False, fkey ''run_id'' ''runs'' ''id'' ''fk_pm_gates_run_id_runs'' None)]\<rparr>"

definition create_ix_pm_gates_state_created :: sql_index where
  "create_ix_pm_gates_state_created = index ''ix_pm_gates_state_created'' [''state'', ''created_at'']"

definition create_run_stages :: table_def where
  "create_run_stages = \<lparr>td_name = ''run_stages'', td_columns = [
     tcol ''id'' Ty_Uuid,
     tcol ''run_id'' Ty_Uuid,
     tcol ''seq'' Ty_Integer,
     tcol ''role'' (Ty_String 24),
     tcol ''house'' (Ty_String 32),
     tcol ''substrate'' (Ty_String 8),
     tcol ''status'' (Ty_String 16),
     tnull ''depends_on_seq'' Ty_Integer,
     tdefault ''available_at'' Ty_Timestamp ''now()'',
     tnull ''claimed_by'' (Ty_String 64),
     tnull ''claimed_at'' Ty_Timestamp,
     tnull ''lease_expires_at'' Ty_Timestamp,
     tdefault ''attempts'' Ty_Integer ''0'',
     tcol ''max_attempts'' Ty_Integer,
     tnull ''workspace_ref'' (Ty_String 256),
     tnull ''transcript_ref'' (Ty_String 256),
     tnull ''artifacts_ref'' Ty_Json,
     tnull ''result'' Ty_Json,
     tdefault ''cost_usd'' Ty_Cost ''0'',
     tnull ''tokens_in'' Ty_Integer,
     tnull ''tokens_out'' Ty_Integer,
     tnull ''wall_time_s'' Ty_Integer,
     tnull ''error'' Ty_Text,
     tnull ''started_at'' Ty_Timestamp,
     tnull ''finished_at'' Ty_Timestamp,
     tdefault ''created_at'' Ty_Timestamp ''now()'',
     tnull ''updated_at'' Ty_Timestamp],
     td_primary = (''pk_run_stages'', [''id'']),
     td_uniques = [(''uq_run_stages_run_seq'', [''run_id'', ''seq''])],
     td_checks = [(''ck_run_stages_ck_run_stages_status'', one_of ''status'' [''queued'', ''running'', ''succeeded'', ''failed'', ''skipped'']),
       (''ck_run_stages_ck_run_stages_substrate'', one_of ''substrate'' [''harness'', ''api''])],
     td_keys = [(False, fkey ''house'' ''houses'' ''key'' ''fk_run_stages_house_houses'' (Some ''RESTRICT'')),
       (False, fkey ''run_id'' ''runs'' ''id'' ''fk_run_stages_run_id_runs'' (Some ''CASCADE''))]\<rparr>"

definition create_ix_run_stages_claimable :: sql_index where
  "create_ix_run_stages_claimable = index ''ix_run_stages_claimable'' [''status'', ''available_at'', ''id'']"

definition create_ix_run_stages_lease :: sql_index where
  "create_ix_run_stages_lease = index ''ix_run_stages_lease'' [''status'', ''lease_expires_at'']"

definition create_artifacts :: table_def where
  "create_artifacts = \<lparr>td_name = ''artifacts'', td_columns = [
     tcol ''id'' Ty_Uuid,
     tcol ''sha256'' (Ty_String 64),
     tcol ''kind'' (Ty_String 24),
     tnull ''media_type'' (Ty_String 64),
     tcol ''size_bytes'' Ty_BigInteger,
     tcol ''path'' (Ty_String 512),
     tnull ''run_id'' Ty_Uuid,
     tnull ''stage_id'' Ty_Uuid,
     tnull ''coverage_id'' Ty_Uuid,
     tnull ''filename'' (Ty_String 256),
     tdefault ''created_at'' Ty_Timestamp ''now()''],
     td_primary = (''pk_artifacts'', [''id'']),
     td_uniques = [(''uq_artifacts_sha_kind'', [''sha256'', ''kind''])],
     td_checks = [],
     td_keys = [(False, fkey ''coverage_id'' ''coverage'' ''id'' ''fk_artifacts_coverage_id_coverage'' None),
       (False, fkey ''run_id'' ''runs'' ''id'' ''fk_artifacts_run_id_runs'' None),
       (False, fkey ''stage_id'' ''run_stages'' ''id'' ''fk_artifacts_stage_id_run_stages'' None)]\<rparr>"

definition create_ix_artifacts_run :: sql_index where
  "create_ix_artifacts_run = index ''ix_artifacts_run'' [''run_id'']"

definition create_corrections :: table_def where
  "create_corrections = \<lparr>td_name = ''corrections'', td_columns = [
     tcol ''id'' Ty_Uuid,
     tcol ''run_id'' Ty_Uuid,
     tcol ''stage_id'' Ty_Uuid,
     tcol ''correcting_house'' (Ty_String 32),
     tnull ''attributed_stage_id'' Ty_Uuid,
     tnull ''attributed_house'' (Ty_String 32),
     tcol ''target'' (Ty_String 256),
     tcol ''was'' Ty_Text,
     tcol ''now_value'' Ty_Text,
     tnull ''source'' Ty_Text,
     tdefault ''created_at'' Ty_Timestamp ''now()'',
     tcol ''idempotency_key'' (Ty_String 64)],
     td_primary = (''pk_corrections'', [''id'']),
     td_uniques = [(''uq_corrections_idempotency_key'', [''idempotency_key''])],
     td_checks = [],
     td_keys = [(False, fkey ''attributed_stage_id'' ''run_stages'' ''id'' ''fk_corrections_attributed_stage_id_run_stages'' None),
       (False, fkey ''correcting_house'' ''houses'' ''key'' ''fk_corrections_correcting_house_houses'' (Some ''RESTRICT'')),
       (False, fkey ''run_id'' ''runs'' ''id'' ''fk_corrections_run_id_runs'' None),
       (False, fkey ''stage_id'' ''run_stages'' ''id'' ''fk_corrections_stage_id_run_stages'' None)]\<rparr>"

definition create_ix_corrections_attributed :: sql_index where
  "create_ix_corrections_attributed = index ''ix_corrections_attributed'' [''attributed_house'', ''created_at'']"

definition create_disagreements :: table_def where
  "create_disagreements = \<lparr>td_name = ''disagreements'', td_columns = [
     tcol ''id'' Ty_Uuid,
     tcol ''run_id'' Ty_Uuid,
     tcol ''stage_id'' Ty_Uuid,
     tcol ''house'' (Ty_String 32),
     tcol ''lead_house'' (Ty_String 32),
     tdefault ''material'' Ty_Boolean ''false'',
     tcol ''lead_position'' Ty_Text,
     tcol ''challenger_position'' Ty_Text,
     tnull ''key_numbers'' Ty_Json,
     tnull ''resolves_if'' Ty_Text,
     tdefault ''created_at'' Ty_Timestamp ''now()''],
     td_primary = (''pk_disagreements'', [''id'']),
     td_uniques = [],
     td_checks = [],
     td_keys = [(False, fkey ''house'' ''houses'' ''key'' ''fk_disagreements_house_houses'' (Some ''RESTRICT'')),
       (False, fkey ''lead_house'' ''houses'' ''key'' ''fk_disagreements_lead_house_houses'' (Some ''RESTRICT'')),
       (False, fkey ''run_id'' ''runs'' ''id'' ''fk_disagreements_run_id_runs'' None),
       (False, fkey ''stage_id'' ''run_stages'' ''id'' ''fk_disagreements_stage_id_run_stages'' None)]\<rparr>"

definition create_dossier_commits :: table_def where
  "create_dossier_commits = \<lparr>td_name = ''dossier_commits'', td_columns = [
     tcol ''id'' Ty_Uuid,
     tcol ''coverage_id'' Ty_Uuid,
     tnull ''run_id'' Ty_Uuid,
     tnull ''stage_id'' Ty_Uuid,
     tcol ''commit_sha'' (Ty_String 40),
     tcol ''branch'' (Ty_String 64),
     tnull ''parent_sha'' (Ty_String 40),
     tcol ''message'' Ty_Text,
     tnull ''files_changed'' Ty_Json,
     tdefault ''merged_to_main'' Ty_Boolean ''false'',
     tdefault ''created_at'' Ty_Timestamp ''now()''],
     td_primary = (''pk_dossier_commits'', [''id'']),
     td_uniques = [(''uq_dossier_commits_sha'', [''commit_sha''])],
     td_checks = [],
     td_keys = [(False, fkey ''coverage_id'' ''coverage'' ''id'' ''fk_dossier_commits_coverage_id_coverage'' None),
       (False, fkey ''run_id'' ''runs'' ''id'' ''fk_dossier_commits_run_id_runs'' None),
       (False, fkey ''stage_id'' ''run_stages'' ''id'' ''fk_dossier_commits_stage_id_run_stages'' None)]\<rparr>"

definition create_predictions :: table_def where
  "create_predictions = \<lparr>td_name = ''predictions'', td_columns = [
     tcol ''id'' Ty_Uuid,
     tcol ''coverage_id'' Ty_Uuid,
     tcol ''run_id'' Ty_Uuid,
     tcol ''stage_id'' Ty_Uuid,
     tcol ''house'' (Ty_String 32),
     tcol ''kind'' (Ty_String 24),
     tnull ''value'' Ty_Price,
     tnull ''currency'' (Ty_String 8),
     tnull ''stance'' (Ty_String 16),
     tnull ''scenario_label'' (Ty_String 32),
     tnull ''scenario_prob'' Ty_Prob,
     tnull ''scenario_group'' Ty_Uuid,
     tcol ''horizon_date'' Ty_Date,
     tnull ''confidence'' Ty_Prob,
     tnull ''rationale_ref'' (Ty_String 256),
     tdefault ''status'' (Ty_String 16) (quoted ''open''),
     tnull ''superseded_by_id'' Ty_Uuid,
     tnull ''superseded_run_id'' Ty_Uuid,
     tnull ''scored_at'' Ty_Timestamp,
     tnull ''realized_price'' Ty_Price,
     tnull ''realized_return'' (Ty_Numeric 10 6),
     tnull ''error_pct'' (Ty_Numeric 10 6),
     tnull ''outcome_notes'' Ty_Text,
     tcol ''idempotency_key'' (Ty_String 64),
     tdefault ''created_at'' Ty_Timestamp ''now()'',
     tnull ''direction'' (Ty_String 8),
     tnull ''pinned_price'' Ty_Price],
     td_primary = (''pk_predictions'', [''id'']),
     td_uniques = [(''uq_predictions_idempotency_key'', [''idempotency_key''])],
     td_checks = [(''ck_predictions_ck_predictions_target_price_requires_value'', ''kind <> 'target_price' OR (value IS NOT NULL AND currency IS NOT NULL)''),
       (''ck_predictions_ck_predictions_kind'', one_of ''kind'' [''target_price'', ''entry_point'', ''scenario'', ''event_forecast'', ''stance'']),
       (''ck_predictions_ck_predictions_status'', one_of ''status'' [''open'', ''hit'', ''miss'', ''expired'', ''superseded'']),
       (''ck_predictions_ck_predictions_confidence'', ''confidence IS NULL OR (confidence >= 0 AND confidence <= 1)''),
       (''ck_predictions_ck_predictions_scenario_prob'', ''scenario_prob IS NULL OR (scenario_prob >= 0 AND scenario_prob <= 1)'')],
     td_keys = [(False, fkey ''coverage_id'' ''coverage'' ''id'' ''fk_predictions_coverage_id_coverage'' None),
       (False, fkey ''house'' ''houses'' ''key'' ''fk_predictions_house_houses'' (Some ''RESTRICT'')),
       (False, fkey ''run_id'' ''runs'' ''id'' ''fk_predictions_run_id_runs'' None),
       (False, fkey ''stage_id'' ''run_stages'' ''id'' ''fk_predictions_stage_id_run_stages'' None),
       (False, fkey ''superseded_by_id'' ''predictions'' ''id'' ''fk_predictions_superseded_by_id_predictions'' None),
       (False, fkey ''superseded_run_id'' ''runs'' ''id'' ''fk_predictions_superseded_run_id_runs'' None)]\<rparr>"

definition create_ix_predictions_coverage_house :: sql_index where
  "create_ix_predictions_coverage_house = index ''ix_predictions_coverage_house'' [''coverage_id'', ''house'', ''created_at'']"

definition create_ix_predictions_open_horizon :: sql_index where
  "create_ix_predictions_open_horizon = index ''ix_predictions_open_horizon'' [''status'', ''horizon_date'']"

definition create_stage_attempts :: table_def where
  "create_stage_attempts = \<lparr>td_name = ''stage_attempts'', td_columns = [
     tcol ''id'' Ty_Uuid,
     tcol ''stage_id'' Ty_Uuid,
     tcol ''attempt_no'' Ty_Integer,
     tcol ''status'' (Ty_String 16),
     tcol ''house'' (Ty_String 32),
     tnull ''model'' (Ty_String 64),
     tcol ''substrate'' (Ty_String 8),
     tnull ''worker_id'' (Ty_String 64),
     tnull ''transcript_ref'' (Ty_String 256),
     tnull ''result'' Ty_Json,
     tnull ''validation_errors'' Ty_Json,
     tdefault ''cost_usd'' Ty_Cost ''0'',
     tnull ''cost_source'' (Ty_String 16),
     tnull ''tokens_in'' Ty_Integer,
     tnull ''tokens_out'' Ty_Integer,
     tnull ''cached_tokens_in'' Ty_Integer,
     tnull ''exit_code'' Ty_Integer,
     tnull ''kill_reason'' (Ty_String 32),
     tnull ''started_at'' Ty_Timestamp,
     tnull ''finished_at'' Ty_Timestamp,
     tdefault ''created_at'' Ty_Timestamp ''now()''],
     td_primary = (''pk_stage_attempts'', [''id'']),
     td_uniques = [(''uq_stage_attempts_stage_no'', [''stage_id'', ''attempt_no''])],
     td_checks = [(''ck_stage_attempts_ck_stage_attempts_status'', one_of ''status'' [''running'', ''succeeded'', ''failed'', ''killed'', ''timeout''])],
     td_keys = [(False, fkey ''house'' ''houses'' ''key'' ''fk_stage_attempts_house_houses'' (Some ''RESTRICT'')),
       (False, fkey ''stage_id'' ''run_stages'' ''id'' ''fk_stage_attempts_stage_id_run_stages'' (Some ''CASCADE''))]\<rparr>"

definition create_llm_usage :: table_def where
  "create_llm_usage = \<lparr>td_name = ''llm_usage'', td_columns = [
     tcol ''id'' Ty_Uuid,
     tnull ''run_id'' Ty_Uuid,
     tnull ''stage_id'' Ty_Uuid,
     tnull ''attempt_id'' Ty_Uuid,
     tnull ''house'' (Ty_String 32),
     tnull ''coverage_id'' Ty_Uuid,
     tcol ''provider'' (Ty_String 32),
     tcol ''model'' (Ty_String 64),
     tnull ''substrate'' (Ty_String 8),
     tcol ''purpose'' (Ty_String 32),
     tnull ''input_tokens'' Ty_Integer,
     tnull ''output_tokens'' Ty_Integer,
     tnull ''cached_input_tokens'' Ty_Integer,
     tnull ''cost_usd'' Ty_Cost,
     tcol ''cost_source'' (Ty_String 16),
     tnull ''request_id'' (Ty_String 64),
     tnull ''reconciled_at'' Ty_Timestamp,
     tnull ''reconciled_delta_usd'' Ty_Cost,
     tnull ''error'' Ty_Text,
     tnull ''started_at'' Ty_Timestamp,
     tnull ''completed_at'' Ty_Timestamp,
     tdefault ''created_at'' Ty_Timestamp ''now()''],
     td_primary = (''pk_llm_usage'', [''id'']),
     td_uniques = [],
     td_checks = [],
     td_keys = [(False, fkey ''attempt_id'' ''stage_attempts'' ''id'' ''fk_llm_usage_attempt_id_stage_attempts'' None),
       (False, fkey ''coverage_id'' ''coverage'' ''id'' ''fk_llm_usage_coverage_id_coverage'' None),
       (False, fkey ''house'' ''houses'' ''key'' ''fk_llm_usage_house_houses'' None),
       (False, fkey ''run_id'' ''runs'' ''id'' ''fk_llm_usage_run_id_runs'' None),
       (False, fkey ''stage_id'' ''run_stages'' ''id'' ''fk_llm_usage_stage_id_run_stages'' None)]\<rparr>"

definition create_ix_llm_usage_house_completed :: sql_index where
  "create_ix_llm_usage_house_completed = index ''ix_llm_usage_house_completed'' [''house'', ''completed_at'']"

definition create_ix_llm_usage_run :: sql_index where
  "create_ix_llm_usage_run = index ''ix_llm_usage_run'' [''run_id'']"

definition create_prediction_hits :: table_def where
  "create_prediction_hits = \<lparr>td_name = ''prediction_hits'', td_columns = [
     tcol ''id'' Ty_Uuid,
     tcol ''prediction_id'' Ty_Uuid,
     tcol ''hit_price'' Ty_Price,
     tcol ''hit_on'' Ty_Date,
     tcol ''source'' (Ty_String 32),
     tdefault ''created_at'' Ty_Timestamp ''now()''],
     td_primary = (''pk_prediction_hits'', [''id'']),
     td_uniques = [(''uq_prediction_hits_day'', [''prediction_id'', ''hit_on''])],
     td_checks = [],
     td_keys = [(False, fkey ''prediction_id'' ''predictions'' ''id'' ''fk_prediction_hits_prediction_id_predictions'' None)]\<rparr>"

definition upgrade :: "ddl list" where
  "upgrade = [
     Create_Table create_audit_log,
     Create_Index ''audit_log'' create_ix_audit_log_created,
     Create_Table create_book_cash,
     Create_Table create_cash_events,
     Create_Table create_doctrine_versions,
     Create_Index ''doctrine_versions'' create_ux_doctrine_current,
     Create_Table create_houses,
     Create_Table create_idempotency_keys,
     Create_Table create_mm_posts,
     Create_Table create_news_articles,
     Create_Index ''news_articles'' create_ix_news_content_hash,
     Create_Index ''news_articles'' create_ix_news_normalised_url,
     Create_Index ''news_articles'' create_ix_news_published,
     Create_Table create_pending_trade_confirmations,
     Create_Index ''pending_trade_confirmations'' create_ix_trade_confirmations_status_expires,
     Create_Table create_portfolio_snapshots,
     Create_Index ''portfolio_snapshots'' create_ix_portfolio_book_snapshot,
     Create_Table create_positions,
     Create_Table create_price_pins,
     Create_Table create_risk_configs,
     Create_Table create_risk_events,
     Create_Index ''risk_events'' create_ix_risk_events_book_severity_ack,
     Create_Index ''risk_events'' create_ix_risk_events_created_at,
     Create_Table create_scheduler_job_logs,
     Create_Index ''scheduler_job_logs'' create_ix_scheduler_job_logs_job_created,
     Create_Table create_trades,
     Create_Index ''trades'' create_ix_trades_book_traded_at,
     Create_Index ''trades'' create_ix_trades_traded_at,
     Create_Table create_coverage,
     Create_Index ''coverage'' create_ix_coverage_state,
     Create_Table create_house_budget_days,
     Create_Table create_house_metric_snapshots,
     Create_Table create_coverage_contributors,
     Create_Table create_mm_channels,
     Create_Table create_runs,
     Create_Index ''runs'' create_ix_runs_coverage_created,
     Create_Index ''runs'' create_ix_runs_status_priority,
     Create_Index ''runs'' create_uq_runs_trigger_ref,
     Create_Table create_coverage_lead_history,
     Create_Table create_coverage_levels,
     Create_Index ''coverage_levels'' create_ix_coverage_levels_active,
     Create_Table create_coverage_run_locks,
     Create_Table create_coverage_transitions,
     Create_Index ''coverage_transitions'' create_ix_coverage_transitions_coverage_created,
     Create_Table create_dossier_index,
     Create_Table create_events,
     Create_Index ''events'' create_ix_events_coverage_created,
     Create_Index ''events'' create_ix_events_unhandled,
     Create_Table create_outbox_events,
     Create_Index ''outbox_events'' create_ix_outbox_pending,
     Create_Table create_pm_gates,
     Create_Index ''pm_gates'' create_ix_pm_gates_state_created,
     Create_Table create_run_stages,
     Create_Index ''run_stages'' create_ix_run_stages_claimable,
     Create_Index ''run_stages'' create_ix_run_stages_lease,
     Create_Table create_artifacts,
     Create_Index ''artifacts'' create_ix_artifacts_run,
     Create_Table create_corrections,
     Create_Index ''corrections'' create_ix_corrections_attributed,
     Create_Table create_disagreements,
     Create_Table create_dossier_commits,
     Create_Table create_predictions,
     Create_Index ''predictions'' create_ix_predictions_coverage_house,
     Create_Index ''predictions'' create_ix_predictions_open_horizon,
     Create_Table create_stage_attempts,
     Create_Table create_llm_usage,
     Create_Index ''llm_usage'' create_ix_llm_usage_house_completed,
     Create_Index ''llm_usage'' create_ix_llm_usage_run,
     Create_Table create_prediction_hits,
     Create_Foreign_Key ''doctrine_versions'' (fkey ''distillation_run_id'' ''runs'' ''id'' ''fk_doctrine_versions_distillation_run_id_runs'' None)]"

definition downgrade :: "ddl list" where
  "downgrade = [
     Drop_Constraint ''fk_doctrine_versions_distillation_run_id_runs'' ''doctrine_versions'',
     Drop_Table ''prediction_hits'',
     Drop_Index ''ix_llm_usage_run'' ''llm_usage'',
     Drop_Index ''ix_llm_usage_house_completed'' ''llm_usage'',
     Drop_Table ''llm_usage'',
     Drop_Table ''stage_attempts'',
     Drop_Index ''ix_predictions_open_horizon'' ''predictions'',
     Drop_Index ''ix_predictions_coverage_house'' ''predictions'',
     Drop_Table ''predictions'',
     Drop_Table ''dossier_commits'',
     Drop_Table ''disagreements'',
     Drop_Index ''ix_corrections_attributed'' ''corrections'',
     Drop_Table ''corrections'',
     Drop_Index ''ix_artifacts_run'' ''artifacts'',
     Drop_Table ''artifacts'',
     Drop_Index ''ix_run_stages_lease'' ''run_stages'',
     Drop_Index ''ix_run_stages_claimable'' ''run_stages'',
     Drop_Table ''run_stages'',
     Drop_Index ''ix_pm_gates_state_created'' ''pm_gates'',
     Drop_Table ''pm_gates'',
     Drop_Index ''ix_outbox_pending'' ''outbox_events'',
     Drop_Table ''outbox_events'',
     Drop_Index ''ix_events_unhandled'' ''events'',
     Drop_Index ''ix_events_coverage_created'' ''events'',
     Drop_Table ''events'',
     Drop_Table ''dossier_index'',
     Drop_Index ''ix_coverage_transitions_coverage_created'' ''coverage_transitions'',
     Drop_Table ''coverage_transitions'',
     Drop_Table ''coverage_run_locks'',
     Drop_Index ''ix_coverage_levels_active'' ''coverage_levels'',
     Drop_Table ''coverage_levels'',
     Drop_Table ''coverage_lead_history'',
     Drop_Index ''uq_runs_trigger_ref'' ''runs'',
     Drop_Index ''ix_runs_status_priority'' ''runs'',
     Drop_Index ''ix_runs_coverage_created'' ''runs'',
     Drop_Table ''runs'',
     Drop_Table ''mm_channels'',
     Drop_Table ''coverage_contributors'',
     Drop_Table ''house_metric_snapshots'',
     Drop_Table ''house_budget_days'',
     Drop_Index ''ix_coverage_state'' ''coverage'',
     Drop_Table ''coverage'',
     Drop_Index ''ix_trades_traded_at'' ''trades'',
     Drop_Index ''ix_trades_book_traded_at'' ''trades'',
     Drop_Table ''trades'',
     Drop_Index ''ix_scheduler_job_logs_job_created'' ''scheduler_job_logs'',
     Drop_Table ''scheduler_job_logs'',
     Drop_Index ''ix_risk_events_created_at'' ''risk_events'',
     Drop_Index ''ix_risk_events_book_severity_ack'' ''risk_events'',
     Drop_Table ''risk_events'',
     Drop_Table ''risk_configs'',
     Drop_Table ''price_pins'',
     Drop_Table ''positions'',
     Drop_Index ''ix_portfolio_book_snapshot'' ''portfolio_snapshots'',
     Drop_Table ''portfolio_snapshots'',
     Drop_Index ''ix_trade_confirmations_status_expires'' ''pending_trade_confirmations'',
     Drop_Table ''pending_trade_confirmations'',
     Drop_Index ''ix_news_published'' ''news_articles'',
     Drop_Index ''ix_news_normalised_url'' ''news_articles'',
     Drop_Index ''ix_news_content_hash'' ''news_articles'',
     Drop_Table ''news_articles'',
     Drop_Table ''mm_posts'',
     Drop_Table ''idempotency_keys'',
     Drop_Table ''houses'',
     Drop_Index ''ux_doctrine_current'' ''doctrine_versions'',
     Drop_Table ''doctrine_versions'',
     Drop_Table ''cash_events'',
     Drop_Table ''book_cash'',
     Drop_Index ''ix_audit_log_created'' ''audit_log'',
     Drop_Table ''audit_log'']"

lemmas create_defs = create_audit_log_def create_book_cash_def create_cash_events_def create_doctrine_versions_def
  create_houses_def create_idempotency_keys_def create_mm_posts_def create_news_articles_def
  create_pending_trade_confirmations_def create_portfolio_snapshots_def create_positions_def create_price_pins_def
  create_risk_configs_def create_risk_events_def create_scheduler_job_logs_def create_trades_def
  create_coverage_def create_house_budget_days_def create_house_metric_snapshots_def create_coverage_contributors_def
  create_mm_channels_def create_runs_def create_coverage_lead_history_def create_coverage_levels_def
  create_coverage_run_locks_def create_coverage_transitions_def create_dossier_index_def create_events_def
  create_outbox_events_def create_pm_gates_def create_run_stages_def create_artifacts_def
  create_corrections_def create_disagreements_def create_dossier_commits_def create_predictions_def
  create_stage_attempts_def create_llm_usage_def create_prediction_hits_def

lemmas create_index_defs = create_ix_audit_log_created_def create_ux_doctrine_current_def create_ix_news_content_hash_def create_ix_news_normalised_url_def
  create_ix_news_published_def create_ix_trade_confirmations_status_expires_def create_ix_portfolio_book_snapshot_def create_ix_risk_events_book_severity_ack_def
  create_ix_risk_events_created_at_def create_ix_scheduler_job_logs_job_created_def create_ix_trades_book_traded_at_def create_ix_trades_traded_at_def
  create_ix_coverage_state_def create_ix_runs_coverage_created_def create_ix_runs_status_priority_def create_uq_runs_trigger_ref_def
  create_ix_coverage_levels_active_def create_ix_coverage_transitions_coverage_created_def create_ix_events_coverage_created_def create_ix_events_unhandled_def
  create_ix_outbox_pending_def create_ix_pm_gates_state_created_def create_ix_run_stages_claimable_def create_ix_run_stages_lease_def
  create_ix_artifacts_run_def create_ix_corrections_attributed_def create_ix_predictions_coverage_house_def create_ix_predictions_open_horizon_def
  create_ix_llm_usage_house_completed_def create_ix_llm_usage_run_def

end
