(* ===== verification/Schema_Properties.thy ===== *)
theory Schema_Properties
  imports Orm_Models Migration Domain_Types
begin

text \<open>
  The schema the migration creates against the schema the models declare, and the round trip of the
  migration.  The tables a migration creates stay folded in the proofs; the facts below read off the
  parts of them the rules of the catalogue look at.
\<close>

section \<open>Reading the tables\<close>

lemmas create_names = create_defs [THEN arg_cong [where f = td_name], simplified]

lemmas create_primary = create_defs [THEN arg_cong [where f = td_primary], simplified]

lemmas create_keys = create_defs [THEN arg_cong [where f = td_keys], unfolded fkey_def, simplified]

lemmas create_columns = create_defs [THEN arg_cong [where f = column_names], unfolded column_names_def, simplified,
  folded column_names_def, unfolded tcol_def tnull_def tdefault_def, simplified]

lemmas create_uniques = create_defs [THEN arg_cong [where f = td_uniques], simplified]

lemmas create_index_names = create_index_defs [THEN arg_cong [where f = si_name], unfolded index_def unique_where_def, simplified]

lemmas create_index_columns = create_index_defs [THEN arg_cong [where f = si_columns], unfolded index_def unique_where_def, simplified]

lemma column_names_keys: "column_names (t\<lparr>td_keys := ks\<rparr>) = column_names t"
  by (simp add: column_names_def)

lemmas create_facts = column_names_keys create_names create_primary create_keys create_columns create_uniques
  create_index_names create_index_columns

section \<open>Running the operations\<close>

definition tables_of :: "ddl list \<Rightarrow> table_def list" where
  "tables_of xs = List.map_filter (\<lambda>x. case x of Create_Table t \<Rightarrow> Some t | _ \<Rightarrow> None) xs"

definition indexes_of :: "ddl list \<Rightarrow> (string \<times> sql_index) list" where
  "indexes_of xs = List.map_filter (\<lambda>x. case x of Create_Index n i \<Rightarrow> Some (n, i) | _ \<Rightarrow> None) xs"

text \<open>A table with all its foreign keys in force, and what the baseline leaves in the database.\<close>

definition in_force :: "table_def \<Rightarrow> table_def" where
  "in_force t = (if list_ex fst (td_keys t) then t\<lparr>td_keys := map (\<lambda>(_, f). (False, f)) (td_keys t)\<rparr> else t)"

definition baseline :: catalogue where
  "baseline = \<lparr>ca_tables = map in_force (tables_of upgrade), ca_indexes = indexes_of upgrade\<rparr>"

lemma run_simps: "run_ddl [] c = Inr c" "run_ddl (x # xs) c = andthen (exec_ddl x c) (run_ddl xs)"
  unfolding run_ddl_def by simp_all

lemma exec_table:
  assumes "list_all (\<lambda>x. td_name x \<noteq> td_name t) ts" "list_all (\<lambda>(_, i). si_name i \<noteq> td_name t) ns"
    and "well_formed t" and "list_all (\<lambda>(later, f). later \<or> key_resolves \<lparr>ca_tables = ts, ca_indexes = ns\<rparr> t f) (td_keys t)"
  shows "exec_ddl (Create_Table t) \<lparr>ca_tables = ts, ca_indexes = ns\<rparr> = Inr \<lparr>ca_tables = ts @ [immediate t], ca_indexes = ns\<rparr>"
  using assms by (simp add: exec_ddl_def name_free_def)

lemma exec_index:
  assumes "find (\<lambda>t. td_name t = n) ts = Some t" "has_columns t (si_columns i)"
    and "list_all (\<lambda>x. td_name x \<noteq> si_name i) ts" "list_all (\<lambda>(_, j). si_name j \<noteq> si_name i) ns"
  shows "exec_ddl (Create_Index n i) \<lparr>ca_tables = ts, ca_indexes = ns\<rparr> = Inr \<lparr>ca_tables = ts, ca_indexes = ns @ [(n, i)]\<rparr>"
  using assms by (simp add: exec_ddl_def name_free_def get_table_def)

lemma exec_foreign_key:
  assumes "find (\<lambda>t. td_name t = n) ts = Some t" "\<not> list_ex (\<lambda>(_, g). fk_name g = fk_name f) (td_keys t)"
    and "key_resolves \<lparr>ca_tables = ts, ca_indexes = ns\<rparr> t f"
  shows "exec_ddl (Create_Foreign_Key n f) \<lparr>ca_tables = ts, ca_indexes = ns\<rparr> =
    Inr \<lparr>ca_tables = map (\<lambda>t. if td_name t = n then t\<lparr>td_keys := td_keys t @ [(False, f)]\<rparr> else t) ts, ca_indexes = ns\<rparr>"
  using assms by (simp add: exec_ddl_def get_table_def upd_table_def)

lemma exec_drop_constraint:
  assumes "find (\<lambda>t. td_name t = n) ts = Some t" "list_ex (\<lambda>(_, g). fk_name g = k) (td_keys t)"
  shows "exec_ddl (Drop_Constraint k n) \<lparr>ca_tables = ts, ca_indexes = ns\<rparr> =
    Inr \<lparr>ca_tables = map (\<lambda>t. if td_name t = n then t\<lparr>td_keys := filter (\<lambda>(_, g). fk_name g \<noteq> k) (td_keys t)\<rparr> else t) ts, ca_indexes = ns\<rparr>"
  using assms by (simp add: exec_ddl_def get_table_def upd_table_def)

lemma exec_drop_index:
  assumes "list_ex (\<lambda>(t, j). t = n \<and> si_name j = i) ns"
  shows "exec_ddl (Drop_Index i n) \<lparr>ca_tables = ts, ca_indexes = ns\<rparr> =
    Inr \<lparr>ca_tables = ts, ca_indexes = filter (\<lambda>(t, j). \<not> (t = n \<and> si_name j = i)) ns\<rparr>"
  using assms by (simp add: exec_ddl_def)

lemma exec_drop_table:
  assumes "list_ex (\<lambda>t. td_name t = n) ts"
    and "\<not> list_ex (\<lambda>t. td_name t \<noteq> n \<and> list_ex (\<lambda>(_, f). fk_table f = n) (td_keys t)) ts"
  shows "exec_ddl (Drop_Table n) \<lparr>ca_tables = ts, ca_indexes = ns\<rparr> =
    Inr \<lparr>ca_tables = filter (\<lambda>t. td_name t \<noteq> n) ts, ca_indexes = filter (\<lambda>(t, _). t \<noteq> n) ns\<rparr>"
  using assms by (simp add: exec_ddl_def get_table_def list_ex_iff find_None_iff) blast

lemmas exec_rules = run_simps exec_table exec_index exec_foreign_key exec_drop_constraint exec_drop_index exec_drop_table

lemmas baseline_lists = tables_of_def indexes_of_def upgrade_def List.map_filter_simps in_force_def create_keys

lemma run_upgrade: "run_ddl upgrade empty_catalogue = Inr baseline"
  unfolding baseline_def empty_catalogue_def
  by (simp add: baseline_lists exec_rules key_resolves_def get_table_def well_formed_def has_columns_def immediate_def create_facts
      fkey_def)

lemma run_downgrade: "run_ddl downgrade baseline = Inr empty_catalogue"
  unfolding baseline_def empty_catalogue_def
  by (simp add: baseline_lists downgrade_def exec_rules create_facts)

section \<open>The migration against the models\<close>

definition created :: "(orm_table \<times> table_def) list" where
  "created = [
     (orm_houses, create_houses), (orm_coverage, create_coverage), (orm_coverage_contributors, create_coverage_contributors),
     (orm_coverage_levels, create_coverage_levels), (orm_coverage_transitions, create_coverage_transitions), (orm_coverage_lead_history, create_coverage_lead_history),
     (orm_runs, create_runs), (orm_run_stages, create_run_stages), (orm_stage_attempts, create_stage_attempts),
     (orm_coverage_run_locks, create_coverage_run_locks), (orm_pm_gates, create_pm_gates), (orm_predictions, create_predictions),
     (orm_prediction_hits, create_prediction_hits), (orm_corrections, create_corrections), (orm_disagreements, create_disagreements),
     (orm_events, create_events), (orm_dossier_index, create_dossier_index), (orm_dossier_commits, create_dossier_commits),
     (orm_doctrine_versions, create_doctrine_versions), (orm_artifacts, create_artifacts), (orm_llm_usage, create_llm_usage),
     (orm_house_budget_days, create_house_budget_days), (orm_house_metric_snapshots, create_house_metric_snapshots), (orm_price_pins, create_price_pins),
     (orm_outbox_events, create_outbox_events), (orm_audit_log, create_audit_log), (orm_idempotency_keys, create_idempotency_keys),
     (orm_scheduler_job_logs, create_scheduler_job_logs), (orm_news_articles, create_news_articles), (orm_mm_channels, create_mm_channels),
     (orm_mm_posts, create_mm_posts), (orm_positions, create_positions), (orm_trades, create_trades),
     (orm_pending_trade_confirmations, create_pending_trade_confirmations), (orm_book_cash, create_book_cash), (orm_cash_events, create_cash_events),
     (orm_risk_configs, create_risk_configs), (orm_risk_events, create_risk_events), (orm_portfolio_snapshots, create_portfolio_snapshots)]"

lemma type_in_houses: "type_in metadata ''houses'' ''key'' = Some (Ty_String 32)"
  by (simp add: type_in_def metadata_def orm_houses_def col_def key_def)

lemmas column_defs = col_def untyped_col_def nullable_def key_def unique_def server_default_def references_def
  references_later_def timestamps_def

lemmas name_defs = ck_name_def uq_name_def fk_name_of_def pk_name_def

lemma created_same: "list_all (\<lambda>(t, d). same_table (metadata_table metadata t) d) created"
  by (simp add: created_def same_table_def metadata_table_def List.map_filter_simps metadata_column_def column_type_def
      metadata_key_def type_in_houses orm_defs create_defs column_defs name_defs tcol_def tnull_def tdefault_def fkey_def insert_commute del: filter_empty_conv set_filter set_empty set_empty2 image_is_empty empty_is_image)


lemma created_metadata: "map fst created = metadata"
  by (simp add: created_def metadata_def)

lemma created_tables:
  "list_all (\<lambda>(t, d). d \<in> set (tables_of upgrade)) created"
  "list_all (\<lambda>d. list_ex (\<lambda>(t, x). x = d) created) (tables_of upgrade)"
  by (simp_all add: created_def tables_of_def upgrade_def List.map_filter_simps)

lemmas orm_names = orm_defs [THEN arg_cong [where f = ot_name], simplified]

lemmas orm_indexes = orm_defs [THEN arg_cong [where f = ot_indexes], simplified]

definition metadata_indexes :: "(string \<times> sql_index) list" where
  "metadata_indexes = concat (map (\<lambda>t. map (Pair (ot_name t)) (ot_indexes t)) metadata)"

lemma indexes_agree:
  "list_all (\<lambda>i. i \<in> set metadata_indexes) (indexes_of upgrade)"
  "list_all (\<lambda>i. i \<in> set (indexes_of upgrade)) metadata_indexes"
  by (simp_all add: metadata_indexes_def metadata_def indexes_of_def upgrade_def List.map_filter_simps orm_names orm_indexes
      create_index_defs)

lemma in_force_same: "same_table a b \<Longrightarrow> same_table (in_force a) (in_force b)"
proof -
  assume s: "same_table a b"
  then have "list_ex fst (td_keys a) = list_ex fst (td_keys b)" by (simp add: same_table_def list_ex_iff)
  with s show ?thesis by (auto simp: same_table_def in_force_def)
qed

lemma baseline_tables: "ca_tables baseline = map in_force (tables_of upgrade)" "ca_indexes baseline = indexes_of upgrade"
  by (simp_all add: baseline_def)

lemma in_force_name: "td_name (in_force t) = td_name t"
  by (simp add: in_force_def)

lemma baseline_names: "distinct (map td_name (ca_tables baseline))"
  by (simp add: baseline_tables in_force_name comp_def tables_of_def upgrade_def List.map_filter_simps create_names)

text \<open>
  C38.  On an empty database the baseline migration runs to the end, and what it leaves is what the
  models declare: under the naming convention the same tables, each with the same columns in the same
  order (type, nullability, default), the same primary key, unique, check and foreign key constraints
  under the same names, and the same indexes; nothing is missing and nothing is left over.
\<close>

theorem baseline_is_metadata:
  "\<exists>c. run_ddl upgrade empty_catalogue = Inr c \<and>
     list_all (\<lambda>t. list_ex (same_table (in_force (metadata_table metadata t))) (ca_tables c)) metadata \<and>
     list_all (\<lambda>d. list_ex (\<lambda>t. same_table (in_force (metadata_table metadata t)) d) metadata) (ca_tables c) \<and>
     distinct (map td_name (ca_tables c)) \<and>
     set (ca_indexes c) = set (concat (map (\<lambda>t. map (Pair (ot_name t)) (ot_indexes t)) metadata))"
proof -
  have same: "same_table (in_force (metadata_table metadata t)) (in_force d)" if "(t, d) \<in> set created" for t d
    using created_same that by (intro in_force_same) (auto simp: list_all_iff)
  have models: "t \<in> set metadata \<longleftrightarrow> (\<exists>d. (t, d) \<in> set created)" for t
    unfolding created_metadata [symmetric] by force
  have "list_all (\<lambda>t. list_ex (same_table (in_force (metadata_table metadata t))) (ca_tables baseline)) metadata"
    unfolding list_all_iff
  proof
    fix t assume "t \<in> set metadata"
    then obtain d where d: "(t, d) \<in> set created" using models by blast
    with created_tables(1) have "in_force d \<in> set (ca_tables baseline)" by (auto simp: list_all_iff baseline_tables)
    with same [OF d] show "list_ex (same_table (in_force (metadata_table metadata t))) (ca_tables baseline)"
      by (auto simp: list_ex_iff)
  qed
  moreover have "list_all (\<lambda>d. list_ex (\<lambda>t. same_table (in_force (metadata_table metadata t)) d) metadata) (ca_tables baseline)"
    unfolding list_all_iff
  proof
    fix x assume "x \<in> set (ca_tables baseline)"
    then obtain d where d: "d \<in> set (tables_of upgrade)" "x = in_force d" by (auto simp: baseline_tables)
    with created_tables(2) obtain t where t: "(t, d) \<in> set created" by (auto simp: list_all_iff list_ex_iff)
    with same [OF t] d(2) models show "list_ex (\<lambda>t. same_table (in_force (metadata_table metadata t)) x) metadata"
      by (auto simp: list_ex_iff)
  qed
  moreover have "set (ca_indexes baseline) = set metadata_indexes"
    using indexes_agree by (auto simp: baseline_tables list_all_iff)
  ultimately show ?thesis using run_upgrade baseline_names unfolding metadata_indexes_def by blast
qed

lemma upgrade_begins: "upgrade = Create_Table create_audit_log # tl upgrade"
  by (simp add: upgrade_def)

text \<open>
  C39.  The baseline migration is undone by its downgrade: upgrading an empty database and downgrading
  it again runs to the end and leaves the database empty, every table and index dropped before what it
  refers to.  Upgrading twice without a downgrade fails and, a migration being one transaction, changes
  nothing.
\<close>

theorem migration_round_trip:
  "run_ddl (upgrade @ downgrade) empty_catalogue = Inr empty_catalogue \<and>
   run_ddl (upgrade @ upgrade) empty_catalogue = Inl ''relation exists''"
proof -
  have split: "run_ddl (xs @ ys) c = andthen (run_ddl xs c) (run_ddl ys)" for xs ys c
    unfolding run_ddl_def by (rule fold_err_append)
  have "\<not> name_free ''audit_log'' baseline"
    by (simp add: name_free_def baseline_tables in_force_name tables_of_def upgrade_def List.map_filter_simps create_names)
  then have "exec_ddl (Create_Table create_audit_log) baseline = Inl ''relation exists''"
    by (simp add: exec_ddl_def create_names)
  then have "run_ddl upgrade baseline = Inl ''relation exists''"
    by (subst upgrade_begins) (simp add: run_simps)
  then show ?thesis by (simp add: split run_upgrade run_downgrade)
qed

lemma cascades:
  "list_all (\<lambda>d. list_all (\<lambda>(_, f). fk_ondelete f = Some ''CASCADE'' \<longrightarrow>
       (td_name d, fk_table f) \<in> {(''run_stages'', ''runs''), (''stage_attempts'', ''run_stages'')}) (td_keys d)) (tables_of upgrade)"
  by (simp add: tables_of_def upgrade_def List.map_filter_simps create_keys create_names)

end
