(* ===== verification/State_Columns.thy ===== *)
theory State_Columns
  imports Schema_Properties
begin

text \<open>
  The columns of the database that hold a state of the domain: what they take, read off the text of
  the check constraints the migration creates, against the enums of \<open>core/domain/enums.py\<close>.
\<close>

section \<open>What a text column takes\<close>

text \<open>
  Reading the text of a check: the column and the constants of \<open>c IN ('a','b')\<close>; nothing for a text of
  another form.
\<close>

function constants :: "string \<Rightarrow> string list option" where
  "constants s = (case s of
     [] \<Rightarrow> None
   | q # r \<Rightarrow>
       let v = takeWhile (\<lambda>c. c \<noteq> CHR 0x27) r; t = drop (Suc (length v)) r
       in if q \<noteq> CHR 0x27 then None
          else if t = '')'' then Some [v]
          else case t of [] \<Rightarrow> None | c # u \<Rightarrow> if c = CHR '','' then map_option (Cons v) (constants u) else None)"
  by pat_completeness auto
termination
proof (relation "measure length")
  fix s q r v t c u
  assume "s = q # r" "t = drop (Suc (length (v :: string))) r" "t = (c :: char) # u"
  then have "length (c # u) \<le> length r" by (metis diff_le_self length_drop)
  with \<open>s = q # r\<close> show "(u, s) \<in> measure length" by simp
qed simp

declare constants.simps [simp del]

definition in_list :: "string \<Rightarrow> (string \<times> string list) option" where
  "in_list x =
     (let c = takeWhile (\<lambda>y. y \<noteq> CHR '' '') x; r = drop (length c) x
      in if take 5 r = '' IN ('' then map_option (Pair c) (constants (drop 5 r)) else None)"

lemma constants_join:
  assumes "vs \<noteq> []" and "list_all (\<lambda>v. CHR 0x27 \<notin> set v) vs"
  shows "constants (join '','' (map quoted vs) @ '')'') = Some vs"
  using assms
proof (induction vs)
  case (Cons v vs)
  have tw: "takeWhile (\<lambda>c. c \<noteq> CHR 0x27) (v @ CHR 0x27 # r) = v" for r
    using Cons.prems(2) by (subst takeWhile_append2) auto
  show ?case
  proof (cases vs)
    case Nil
    then show ?thesis by (subst constants.simps) (simp add: quoted_def Let_def tw)
  next
    case (Cons w ws)
    with Cons.IH Cons.prems(2) have "constants (join '','' (map quoted vs) @ '')'') = Some vs" by simp
    with Cons show ?thesis by (subst constants.simps) (simp add: quoted_def Let_def tw)
  qed
qed simp

lemma in_list_one_of:
  assumes "CHR '' '' \<notin> set c" and "vs \<noteq> []" and "list_all (\<lambda>v. CHR 0x27 \<notin> set v) vs"
  shows "in_list (one_of c vs) = Some (c, vs)"
proof -
  have "takeWhile (\<lambda>y. y \<noteq> CHR '' '') (c @ CHR '' '' # r) = c" for r
    using assms(1) by (subst takeWhile_append2) auto
  then show ?thesis using constants_join [OF assms(2,3)] by (simp add: in_list_def one_of_def Let_def)
qed

text \<open>
  What a text column takes on its own account, a row's other columns aside: a text within its length
  that each \<open>IN\<close> check on the column lists, and \<open>NULL\<close> where it may be absent.
\<close>

definition fits :: "sql_type \<Rightarrow> string \<Rightarrow> bool" where
  "fits ty s = (case ty of Ty_String n \<Rightarrow> length s \<le> n | Ty_Text \<Rightarrow> True | _ \<Rightarrow> False)"

definition passes_check :: "string \<Rightarrow> string \<Rightarrow> string \<Rightarrow> bool" where
  "passes_check c s x = (case in_list x of None \<Rightarrow> True | Some (k, vs) \<Rightarrow> k = c \<longrightarrow> s \<in> set vs)"

definition admits :: "catalogue \<Rightarrow> string \<Rightarrow> string \<Rightarrow> string option \<Rightarrow> bool" where
  "admits cat t c x = (case get_table t cat of
     None \<Rightarrow> False
   | Some d \<Rightarrow> (case find (\<lambda>(n, _). n = c) (td_columns d) of
       None \<Rightarrow> False
     | Some (_, ty, nul, _) \<Rightarrow> (case x of
         None \<Rightarrow> nul
       | Some s \<Rightarrow> fits ty s \<and> list_all (\<lambda>(_, k). passes_check c s k) (td_checks d))))"

section \<open>The columns that hold a state\<close>

lemmas state_table_defs = create_coverage_def create_runs_def create_run_stages_def create_predictions_def

lemmas state_table_checks = state_table_defs [THEN arg_cong [where f = td_checks], simplified]

lemma passes_one_of:
  assumes "CHR '' '' \<notin> set k" and "vs \<noteq> []" and "list_all (\<lambda>v. CHR 0x27 \<notin> set v) vs"
  shows "passes_check c s (one_of k vs) \<longleftrightarrow> (k = c \<longrightarrow> s \<in> set vs)"
  by (simp add: passes_check_def in_list_one_of [OF assms])

lemma other_checks:
  "in_list ''(state IN ('active','watch','decision_pending')) = (lead_house IS NOT NULL) OR state NOT IN ('active','watch','decision_pending')'' = None"
  "in_list (''(coverage_id IS NOT NULL) OR type = '' @ quoted ''distillation'') = None"
  "in_list ''kind <> 'target_price' OR (value IS NOT NULL AND currency IS NOT NULL)'' = None"
  "in_list ''confidence IS NULL OR (confidence >= 0 AND confidence <= 1)'' = None"
  "in_list ''scenario_prob IS NULL OR (scenario_prob >= 0 AND scenario_prob <= 1)'' = None"
  by (simp_all add: in_list_def constants.simps quoted_def)

lemma passes_other: "in_list k = None \<Longrightarrow> passes_check c s k"
  by (simp add: passes_check_def)

lemmas checks_pass = passes_one_of other_checks [THEN passes_other] other_checks [THEN passes_other, simplified]

lemma in_force_parts: "td_columns (in_force t) = td_columns t" "td_checks (in_force t) = td_checks t"
  by (simp_all add: in_force_def)

lemma state_checks:
  "list_all (\<lambda>(_, k). passes_check ''state'' s k) (td_checks (in_force create_coverage)) \<longleftrightarrow> s \<in> set (map coverage_state_value coverage_state_members)"
  "list_all (\<lambda>(_, k). passes_check ''type'' s k) (td_checks (in_force create_runs)) \<longleftrightarrow> s \<in> set (map run_type_value run_type_members)"
  "list_all (\<lambda>(_, k). passes_check ''status'' s k) (td_checks (in_force create_runs)) \<longleftrightarrow> s \<in> set (map run_status_value run_status_members)"
  "list_all (\<lambda>(_, k). passes_check ''status'' s k) (td_checks (in_force create_run_stages)) \<longleftrightarrow> s \<in> set (map stage_status_value stage_status_members)"
  "list_all (\<lambda>(_, k). passes_check ''substrate'' s k) (td_checks (in_force create_run_stages)) \<longleftrightarrow> s \<in> set (map substrate_value substrate_members)"
  "list_all (\<lambda>(_, k). passes_check ''kind'' s k) (td_checks (in_force create_predictions)) \<longleftrightarrow> s \<in> set (map prediction_kind_value prediction_kind_members)"
  "list_all (\<lambda>(_, k). passes_check ''status'' s k) (td_checks (in_force create_predictions)) \<longleftrightarrow> s \<in> set (map prediction_status_value prediction_status_members)"
  by (simp_all add: in_force_parts state_table_checks checks_pass coverage_state_members_def run_type_members_def run_status_members_def
      stage_status_members_def substrate_members_def prediction_kind_members_def prediction_status_members_def)

lemma baseline_table:
  "get_table ''coverage'' baseline = Some (in_force create_coverage)"
  "get_table ''runs'' baseline = Some (in_force create_runs)"
  "get_table ''run_stages'' baseline = Some (in_force create_run_stages)"
  "get_table ''predictions'' baseline = Some (in_force create_predictions)"
  by (simp_all add: get_table_def baseline_tables in_force_name tables_of_def upgrade_def List.map_filter_simps create_names)

lemma state_columns:
  "find (\<lambda>(n, _). n = ''state'') (td_columns (in_force create_coverage)) = Some (''state'', Ty_String 24, False, None)"
  "find (\<lambda>(n, _). n = ''type'') (td_columns (in_force create_runs)) = Some (''type'', Ty_String 24, False, None)"
  "find (\<lambda>(n, _). n = ''status'') (td_columns (in_force create_runs)) = Some (''status'', Ty_String 16, False, None)"
  "find (\<lambda>(n, _). n = ''status'') (td_columns (in_force create_run_stages)) = Some (''status'', Ty_String 16, False, None)"
  "find (\<lambda>(n, _). n = ''substrate'') (td_columns (in_force create_run_stages)) = Some (''substrate'', Ty_String 8, False, None)"
  "find (\<lambda>(n, _). n = ''kind'') (td_columns (in_force create_predictions)) = Some (''kind'', Ty_String 24, False, None)"
  "find (\<lambda>(n, _). n = ''status'') (td_columns (in_force create_predictions)) = Some (''status'', Ty_String 16, False, Some (quoted ''open''))"
  by (simp_all add: in_force_parts state_table_defs tcol_def tnull_def tdefault_def)

lemma state_widths:
  "list_all (\<lambda>e. length (coverage_state_value e) \<le> 24) coverage_state_members"
  "list_all (\<lambda>e. length (run_type_value e) \<le> 24) run_type_members"
  "list_all (\<lambda>e. length (run_status_value e) \<le> 16) run_status_members"
  "list_all (\<lambda>e. length (stage_status_value e) \<le> 16) stage_status_members"
  "list_all (\<lambda>e. length (substrate_value e) \<le> 8) substrate_members"
  "list_all (\<lambda>e. length (prediction_kind_value e) \<le> 24) prediction_kind_members"
  "list_all (\<lambda>e. length (prediction_status_value e) \<le> 16) prediction_status_members"
  by (simp_all add: coverage_state_members_def run_type_members_def run_status_members_def stage_status_members_def
      substrate_members_def prediction_kind_members_def prediction_status_members_def)

context str_enum
begin

text \<open>A column of the enum: required, wide enough, and checked against the values.\<close>

lemma admits_members:
  assumes "get_table t cat = Some d" and "find (\<lambda>(n, _). n = c) (td_columns d) = Some (c, Ty_String w, False, df)"
    and "\<And>s. list_all (\<lambda>(_, k). passes_check c s k) (td_checks d) \<longleftrightarrow> s \<in> set (map val members)"
    and "list_all (\<lambda>e. length (val e) \<le> w) members"
  shows "admits cat t c x \<longleftrightarrow> (\<exists>s e. x = Some s \<and> enum_of val members s = Some e)"
  using assms by (cases x) (auto simp: admits_def fits_def of_Some_iff list_all_iff members_complete)

end

lemmas state_admits =
  coverage_state_enum.admits_members [OF baseline_table(1) state_columns(1) state_checks(1) state_widths(1)]
  run_type_enum.admits_members [OF baseline_table(2) state_columns(2) state_checks(2) state_widths(2)]
  run_status_enum.admits_members [OF baseline_table(2) state_columns(3) state_checks(3) state_widths(3)]
  stage_status_enum.admits_members [OF baseline_table(3) state_columns(4) state_checks(4) state_widths(4)]
  substrate_enum.admits_members [OF baseline_table(3) state_columns(5) state_checks(5) state_widths(5)]
  prediction_kind_enum.admits_members [OF baseline_table(4) state_columns(6) state_checks(6) state_widths(6)]
  prediction_status_enum.admits_members [OF baseline_table(4) state_columns(7) state_checks(7) state_widths(7)]

text \<open>
  C40.  The columns that hold a state hold exactly the members of their enum.  In the database that
  the migration leaves, a coverage's state, a run's type and status, a stage's status and substrate
  and a prediction's kind and status take a value, as far as the column goes, precisely when it is the text of a member (every
  member fits the column's width, no other text passes its check, and none may be NULL), so that what
  is stored reads back as a member.
\<close>

theorem checks_are_the_enums:
  assumes "run_ddl upgrade empty_catalogue = Inr cat"
  shows "(admits cat ''coverage'' ''state'' x \<longleftrightarrow> (\<exists>s e. x = Some s \<and> coverage_state_of s = Some e)) \<and>
   (admits cat ''runs'' ''type'' x \<longleftrightarrow> (\<exists>s e. x = Some s \<and> run_type_of s = Some e)) \<and>
   (admits cat ''runs'' ''status'' x \<longleftrightarrow> (\<exists>s e. x = Some s \<and> run_status_of s = Some e)) \<and>
   (admits cat ''run_stages'' ''status'' x \<longleftrightarrow> (\<exists>s e. x = Some s \<and> stage_status_of s = Some e)) \<and>
   (admits cat ''run_stages'' ''substrate'' x \<longleftrightarrow> (\<exists>s e. x = Some s \<and> substrate_of s = Some e)) \<and>
   (admits cat ''predictions'' ''kind'' x \<longleftrightarrow> (\<exists>s e. x = Some s \<and> prediction_kind_of s = Some e)) \<and>
   (admits cat ''predictions'' ''status'' x \<longleftrightarrow> (\<exists>s e. x = Some s \<and> prediction_status_of s = Some e))"
proof -
  have "cat = baseline" using assms by (simp add: run_upgrade)
  then show ?thesis
    unfolding coverage_state_of_def run_type_of_def run_status_of_def stage_status_of_def substrate_of_def
      prediction_kind_of_def prediction_status_of_def
    by (simp only: state_admits simp_thms)
qed

theorem checks_are_the_enums_witness:
  "run_ddl upgrade empty_catalogue = Inr baseline \<and> admits baseline ''coverage'' ''state'' (Some ''decision_pending'') \<and>
   \<not> admits baseline ''runs'' ''status'' (Some ''paused'') \<and> \<not> admits baseline ''predictions'' ''kind'' None"
proof -
  have "coverage_state_of ''decision_pending'' = Some CS_Decision_Pending" "run_status_of ''paused'' = None" by code_simp+
  with checks_are_the_enums [OF run_upgrade, of "Some ''decision_pending''"]
    checks_are_the_enums [OF run_upgrade, of "Some ''paused''"] checks_are_the_enums [OF run_upgrade, of None]
  show ?thesis using run_upgrade by simp
qed

end
