(* ===== verification/Vocabulary.thy ===== *)
theory Vocabulary
  imports Engine Schema_Properties
begin

text \<open>
  The enums of \<open>core/domain/enums.py\<close> whose columns the database leaves unchecked: the roles of
  stages, the kinds and severities of events and the kinds of gates.  The operations handle these as
  texts; here they are typed, and the texts the orchestrator writes are shown to be values of them.
\<close>

section \<open>The enums\<close>

text \<open>\<open>StageRole\<close>.\<close>

datatype stage_role = SR_Author | SR_Verifier | SR_Data_Checker | SR_Finalizer | SR_Monitor | SR_Cross_Check | SR_Lead_Review | SR_Distiller | SR_PM_Query

fun stage_role_value :: "stage_role \<Rightarrow> string" where
  "stage_role_value SR_Author = ''author''"
| "stage_role_value SR_Verifier = ''verifier''"
| "stage_role_value SR_Data_Checker = ''data_checker''"
| "stage_role_value SR_Finalizer = ''finalizer''"
| "stage_role_value SR_Monitor = ''monitor''"
| "stage_role_value SR_Cross_Check = ''cross_check''"
| "stage_role_value SR_Lead_Review = ''lead_review''"
| "stage_role_value SR_Distiller = ''distiller''"
| "stage_role_value SR_PM_Query = ''pm_query''"

definition stage_role_members :: "stage_role list" where
  "stage_role_members = [SR_Author, SR_Verifier, SR_Data_Checker, SR_Finalizer, SR_Monitor, SR_Cross_Check, SR_Lead_Review, SR_Distiller, SR_PM_Query]"

definition stage_role_of :: "string \<Rightarrow> stage_role option" where
  "stage_role_of = enum_of stage_role_value stage_role_members"

interpretation stage_role_enum: str_enum stage_role_value stage_role_members
proof unfold_locales
  show "distinct (map stage_role_value stage_role_members)" by (simp add: stage_role_members_def)
  show "e \<in> set stage_role_members" for e by (cases e) (simp_all add: stage_role_members_def)
qed

text \<open>\<open>EventKind\<close>.\<close>

datatype event_kind = EK_News | EK_Filing | EK_Earnings | EK_Price_Level | EK_Tripwire | EK_PM_Instruction | EK_Risk

fun event_kind_value :: "event_kind \<Rightarrow> string" where
  "event_kind_value EK_News = ''news''"
| "event_kind_value EK_Filing = ''filing''"
| "event_kind_value EK_Earnings = ''earnings''"
| "event_kind_value EK_Price_Level = ''price_level''"
| "event_kind_value EK_Tripwire = ''tripwire''"
| "event_kind_value EK_PM_Instruction = ''pm_instruction''"
| "event_kind_value EK_Risk = ''risk''"

definition event_kind_members :: "event_kind list" where
  "event_kind_members = [EK_News, EK_Filing, EK_Earnings, EK_Price_Level, EK_Tripwire, EK_PM_Instruction, EK_Risk]"

definition event_kind_of :: "string \<Rightarrow> event_kind option" where
  "event_kind_of = enum_of event_kind_value event_kind_members"

interpretation event_kind_enum: str_enum event_kind_value event_kind_members
proof unfold_locales
  show "distinct (map event_kind_value event_kind_members)" by (simp add: event_kind_members_def)
  show "e \<in> set event_kind_members" for e by (cases e) (simp_all add: event_kind_members_def)
qed

text \<open>\<open>Severity\<close>.\<close>

datatype severity = SV_Thesis | SV_Valuation | SV_Info

fun severity_value :: "severity \<Rightarrow> string" where
  "severity_value SV_Thesis = ''thesis''"
| "severity_value SV_Valuation = ''valuation''"
| "severity_value SV_Info = ''info''"

definition severity_members :: "severity list" where
  "severity_members = [SV_Thesis, SV_Valuation, SV_Info]"

definition severity_of :: "string \<Rightarrow> severity option" where
  "severity_of = enum_of severity_value severity_members"

interpretation severity_enum: str_enum severity_value severity_members
proof unfold_locales
  show "distinct (map severity_value severity_members)" by (simp add: severity_members_def)
  show "e \<in> set severity_members" for e by (cases e) (simp_all add: severity_members_def)
qed

text \<open>\<open>GateKind\<close>.\<close>

datatype gate_kind = GK_Initiation_Decision | GK_Lead_Change | GK_Doctrine_Amendment | GK_Budget_Cap

fun gate_kind_value :: "gate_kind \<Rightarrow> string" where
  "gate_kind_value GK_Initiation_Decision = ''initiation_decision''"
| "gate_kind_value GK_Lead_Change = ''lead_change''"
| "gate_kind_value GK_Doctrine_Amendment = ''doctrine_amendment''"
| "gate_kind_value GK_Budget_Cap = ''budget_cap''"

definition gate_kind_members :: "gate_kind list" where
  "gate_kind_members = [GK_Initiation_Decision, GK_Lead_Change, GK_Doctrine_Amendment, GK_Budget_Cap]"

definition gate_kind_of :: "string \<Rightarrow> gate_kind option" where
  "gate_kind_of = enum_of gate_kind_value gate_kind_members"

interpretation gate_kind_enum: str_enum gate_kind_value gate_kind_members
proof unfold_locales
  show "distinct (map gate_kind_value gate_kind_members)" by (simp add: gate_kind_members_def)
  show "e \<in> set gate_kind_members" for e by (cases e) (simp_all add: gate_kind_members_def)
qed

section \<open>What the orchestrator writes\<close>

text \<open>A planned stage whose role and substrate are values of their enums.\<close>

definition stage_typed :: "stage_in \<Rightarrow> bool" where
  "stage_typed s \<longleftrightarrow> si_role s \<in> range stage_role_value \<and> si_substrate s \<in> range substrate_value"

lemma mk_stage_typed:
  "stage_typed (mk_stage m s r h b d) \<longleftrightarrow> r \<in> range stage_role_value \<and> b \<in> range substrate_value"
  by (simp add: stage_typed_def mk_stage_def)

lemmas values_in_range = rangeI [of stage_role_value SR_Author, simplified]
  rangeI [of stage_role_value SR_Verifier, simplified]
  rangeI [of stage_role_value SR_Data_Checker, simplified]
  rangeI [of stage_role_value SR_Finalizer, simplified]
  rangeI [of stage_role_value SR_Monitor, simplified]
  rangeI [of stage_role_value SR_Cross_Check, simplified]
  rangeI [of stage_role_value SR_Lead_Review, simplified]
  rangeI [of stage_role_value SR_Distiller, simplified]
  rangeI [of stage_role_value SR_PM_Query, simplified]
  rangeI [of substrate_value Sub_Harness, simplified] rangeI [of substrate_value Sub_Api, simplified]
  rangeI [of gate_kind_value GK_Initiation_Decision, simplified] rangeI [of gate_kind_value GK_Lead_Change, simplified]
  rangeI [of gate_kind_value GK_Doctrine_Amendment, simplified] rangeI [of gate_kind_value GK_Budget_Cap, simplified]

lemma verifier_stages_typed: "verifier_stages a s cs = Inr st \<Longrightarrow> list_all stage_typed st"
  by (induction a s cs arbitrary: st rule: verifier_stages.induct)
    (auto simp: andthen_Inr_iff mk_stage_typed values_in_range)

lemma lead_review_stages_typed: "lead_review_stages a s cs = Inr st \<Longrightarrow> list_all stage_typed st"
  by (induction a s cs arbitrary: st rule: lead_review_stages.induct)
    (auto simp: andthen_Inr_iff mk_stage_typed values_in_range)

lemma planned_stages_typed:
  assumes "plan_stages rt a = Inr st"
  shows "list_all stage_typed st"
  using assms
  by (auto simp: plan_stages_def plan_initiation_def plan_deep_review_def andthen_Inr_iff Let_def mk_stage_typed values_in_range
      dest: verifier_stages_typed lead_review_stages_typed split: if_splits list.splits)

lemma cross_check_stage_typed: "cross_check_stage fund run stage d = Inr s \<Longrightarrow> stage_typed s"
  by (auto simp: cross_check_stage_def andthen_Inr_iff stage_typed_def values_in_range)

lemma terminal_gate_typed: "terminal_gate rt = Some (k, answers) \<Longrightarrow> k \<in> range gate_kind_value"
  by (auto simp: terminal_gate_def values_in_range split: if_splits)

text \<open>The database itself does not check these columns.\<close>

lemma unchecked_columns:
  "list_all (\<lambda>(_, x). \<not> starts_with ''role'' x) (ot_checks orm_run_stages)"
  "ot_checks orm_events = []" "ot_checks orm_pm_gates = []" "ot_checks orm_coverage_transitions = []"
  by (simp_all add: orm_run_stages_def orm_events_def orm_pm_gates_def orm_coverage_transitions_def one_of_def)

end
