(* ===== verification/Spec2Isabelle.thy ===== *)
theory Spec2Isabelle
  imports Coverage_SM Run_SM Backoff Dossier_Slug Contributors Planner Schema Lease Queue Queue_Correct
    Queue_Properties Keyed_Log Outbox Events_Repo Runs_Repo
    Coverage_Repo Coverage_Properties Predictions_Repo Config Cross_Check Engine Repository Engine_Correct
    Worker Engine_Properties Jobs Jobs_Properties Api Routes Api_Properties
    Route_Table Client Cli Cli_Properties Ddl Orm_Models
    Migration Schema_Properties State_Columns Vocabulary
begin

text \<open>
  A verification development for the core of the research desk (\<open>core/\<close>, \<open>cli/\<close>, and
  the runner of \<open>tests/fakes/runner.py\<close>).

  THE PROGRAM.  A desk of model houses researches listed tickers.  A ticker (a coverage row) moves
  through a state machine from proposed over initiating and decision pending to active, watch, rejected,
  exited or failed.  Work on it is a run, a run is a sequence of stages, and a stage is attempted by a
  worker that claims it from a queue kept in the database.  The orchestrator promotes queued runs,
  advances running ones, registers the predictions of their results and opens a gate where the
  portfolio manager (PM) must decide.  The PM acts through an HTTP API or the \<open>fund\<close> command line;
  a scheduler creates periodic runs; an outbox carries notices to a chat adapter.  All components share
  one relational database and interact through the functions of \<open>core/db/repo\<close>, the queue and the
  outbox; nothing else is shared.

  THE MODEL.  The database is the record \<open>db\<close> of \<open>Schema\<close>, one field per table, a table
  being its rows in insertion order, a row a record with the columns the operations touch.  An operation
  is a function from its arguments and the database to an error or the new database and its result; an
  exception is a value of \<open>error\<close>, and the transaction around an operation (the API's session, a
  job's session) is the function that keeps or drops its effect.  Definitions keep the source's names,
  with a suffix or prefix where a name is taken (\<open>create_run_row\<close> is \<open>create_run\<close> of
  \<open>runs.py\<close>, \<open>decide_route\<close> is \<open>decide\<close> of \<open>routes.py\<close>, \<open>c_decide\<close> is
  \<open>decide\<close> of \<open>client.py\<close>, \<open>do_decide\<close> its branch in \<open>cli/main.py\<close>,
  \<open>at_decide\<close> its declaration to the router).

  THE THEORIES.
  Foundations.  \<open>Prelude\<close>: error composition, tables by primary key, list lemmas.
  \<open>Domain_Types\<close>: \<open>core/domain/enums.py\<close>, the exceptions, and the locale \<open>str_enum\<close>
  every enum interprets.  \<open>Vocabulary\<close>: the enums whose columns the database leaves unchecked
  (roles, event kinds, severities, gate kinds), and that the orchestrator only writes their values.
  \<open>Schema\<close>: rows, tables, constraints and the session's view of unflushed
  rows; the locale \<open>table\<close> with an interpretation per keyed table.
  Domain.  \<open>Coverage_SM\<close>, \<open>Run_SM\<close> (locale \<open>lifecycle\<close>, interpreted by both
  machines), \<open>Backoff\<close>, \<open>Dossier_Slug\<close>, \<open>Contributors\<close> (with
  \<open>orchestrator/rotation.py\<close>), \<open>Planner\<close> (with \<open>gates.py\<close>).
  Queues and logs.  \<open>Lease\<close> (the locale \<open>lease_queue\<close>: what is handed out under a lease is not
  handed out again) with the stage queue (\<open>Queue\<close>, \<open>Queue_Correct\<close>,
  \<open>Queue_Properties\<close>: \<open>db/queue.py\<close>) and the outbox (\<open>Outbox\<close>: \<open>repo/outbox.py\<close>)
  as interpretations; \<open>Keyed_Log\<close> (the locale \<open>keyed_log\<close>: one entry per dedupe key) with the
  outbox and the events (\<open>Events_Repo\<close>: \<open>repo/events.py\<close>, \<open>repo/dossier.py\<close>).
  Repositories.  \<open>Runs_Repo\<close>, \<open>Coverage_Repo\<close> with \<open>Coverage_Properties\<close>,
  \<open>Predictions_Repo\<close>; \<open>Repository\<close> gathers every call that may change the database in the
  step relation \<open>repo_op\<close> and proves the invariants of the desk over it.
  Orchestrator.  \<open>Config\<close> (\<open>core/config\<close>), \<open>Cross_Check\<close>, \<open>Engine\<close> (with
  \<open>budgets.py\<close>), \<open>Engine_Correct\<close> (the engine refines \<open>repo_op\<close>),
  \<open>Engine_Properties\<close>, \<open>Worker\<close> (the fake runner's loop).
  Scheduler.  \<open>Jobs\<close> and \<open>Jobs_Properties\<close> (\<open>core/scheduler\<close>; the locale
  \<open>once_loop\<close> for the loops that create a run once per ticker).
  API and command line.  \<open>Api\<close> (\<open>deps.py\<close>, \<open>errors.py\<close>, \<open>app.py\<close>),
  \<open>Routes\<close> and \<open>Api_Properties\<close> (\<open>routes.py\<close>), \<open>Route_Table\<close> (what the routes
  declare), \<open>Client\<close>, \<open>Cli\<close> and \<open>Cli_Properties\<close> (\<open>cli/\<close>).
  Schema.  \<open>Ddl\<close>, \<open>Orm_Models\<close> (\<open>db/models.py\<close>), \<open>Migration\<close>
  (\<open>0001_baseline.py\<close>), \<open>Schema_Properties\<close>, \<open>State_Columns\<close> (what the columns that hold a
  state take, read off the text of their check constraints).

  WHAT IS SHOWN.  The operations are described, errors included, by lemmas in their own
  theory.  A history of the stage queue is a sequence of steps (\<open>queue_step\<close>: the orderly ones of a
  worker and the reaper, and any late report of a failure, which the code accepts), and the books are
  kept over all of them; an advance of a run is described from the runner's result to the status, the
  stages and the lock it leaves; a created run by the team of its type; the periodic jobs by the rows
  they add and by what later firings cannot add.  Over all histories of repository calls: keys are unique, at most one mutating run per ticker
  is running or waiting and it owns the ticker's lock, the audit trail of a ticker is a path of the state
  machine from nothing to its present state, a live ticker was decided by the PM, attempts are bounded and
  leases exclusive, and the prediction ledger only grows.  The orchestrator, the API and the scheduler
  are refinements of sequences of repository calls, so this holds of the whole program
  (\<open>desk_never_corrupt\<close> below).  Requests are authorised, audited, atomic and replayed by key;
  commands reach their routes with typed bodies; the migration creates the declared schema.  Several
  theorems state where the code falls short of its own comments (stranded tickers, a requeue that ignores
  its backoff, a cross-check lost without a flush, an initiation that can never be finished, commands that never succeed)
  or of specs/SPEC-CORE.md (an empty API key passes the preflight, a refusal exits with 1, a lead
  review ends without its gate).

  BOUNDS AND TERMINATION.  Loops of the code are folds over finite lists and terminate by construction,
  but for the worker loop: \<open>drain\<close> is a partial function whose value \<open>None\<close> is not returning,
  and it is proved to return from every consistent queue, after at most as many rounds as attempts are left.
  No fuel is used.

  IDEALISATIONS.  Decimals, floats and times are exact rationals; numeric columns do not round and text
  columns do not truncate.  A uuid is the next of a counter.  One operation sees one instant
  \<open>now\<close>.  Strings are over the first 256 code points, and message texts outside ASCII are spelled in
  ASCII.  Rows come in insertion order where SQL leaves the order open.  Enum-checked columns hold the
  enum (\<open>checks_are_the_enums\<close> relates the two).  NaN and infinities are rejected where a number is
  read from a result; the command line keeps them by their names (\<open>special_float\<close>), and whether
  httpx sends such a level is its own affair.  Numerals with underscores and ISO week dates are not read.
  Header values are those HTTP carries unchanged (\<open>received\<close>).  Rows locked by other transactions are an argument of the claiming
  operations; other interleavings are sequences of whole transactions.  Foreign keys but those to houses
  are taken to hold.

  PARAMETERS.  What is not in the repository is an argument: the runner behind \<open>drain\<close>, the digest
  and the texts of decimals and times, the random jitter, the parsing of YAML and cron expressions, the
  answers of advisory locks, the transport of the client, \<open>json.dumps\<close>, and the bodies FastAPI and
  pydantic hand to a route (\<open>Route_Table\<close> states what the routes declare to them).

  NOT MODELLED.  Logging; engine creation and the Alembic environment (I/O); the splitting of a command
  line by argparse; test factories; the packages \<open>adapter\<close> and \<open>runner\<close>, which are empty.
\<close>

section \<open>The desk\<close>

text \<open>
  One step of the whole program: a request to the API, a tick of the orchestrator with any runner that
  works through the repository, a job of the scheduler, or a single repository call of a worker or the
  adapter that delivers the outbox.
\<close>

inductive desk_step :: "db \<Rightarrow> db \<Rightarrow> bool" where
  request: "desk_step d (fst (serve ap af now rq call d))"
| tick: "\<forall>x y. runner x = Inr y \<longrightarrow> repo_op\<^sup>*\<^sup>* x y \<Longrightarrow> tick tf af now runner fund d = Inr d' \<Longrightarrow> desk_step d d'"
| job: "desk_step d (fst (run_job le now fund job d))"
| session: "session_tick le now fund ex dt s d = Inr (d', n) \<Longrightarrow> desk_step d d'"
| watch: "watch_tick le now fund dt d = Inr (d', n) \<Longrightarrow> desk_step d d'"
| call: "repo_op d d' \<Longrightarrow> desk_step d d'"

lemma handle_ops:
  assumes "handle ap af now rq cl d = Inr (d', res)"
  shows "repo_op\<^sup>*\<^sup>* d d'"
proof -
  from handle_ok [of ap rq af now cl] assms obtain pm i where
    r: "case id_replay i of Some r \<Rightarrow> d' = d \<and> res = r | None \<Rightarrow> ran rq pm i d d' res"
    unfolding route_ok_def by blast
  show ?thesis
  proof (cases "id_replay i")
    case (Some x)
    with r show ?thesis by simp
  next
    case None
    with r obtain dx route target after code where "repo_op\<^sup>*\<^sup>* d dx"
      and "d' = store i res code route pm (write_audit rq route pm (Some target) after dx)"
      by (auto simp: ran_def core_step_def)
    moreover from this(2) have "core_tables_same dx d'"
      by (simp add: core_tables_same_def store_def write_audit_def split: option.split)
    ultimately show ?thesis by (meson repo_op.aside rtranclp.rtrancl_into_rtrancl)
  qed
qed

lemma desk_step_ops:
  assumes "desk_step d d'"
  shows "repo_op\<^sup>*\<^sup>* d d'"
  using assms
proof cases
  case (request ap af now rq cl)
  then show ?thesis
    by (cases "handle ap af now rq cl d") (auto simp: serve_def in_session_def dest: handle_ops)
next
  case (tick runner tf af now fund)
  then show ?thesis by (intro tick_ops [OF _ tick(2)]) blast
next
  case (job le now fund jb)
  then show ?thesis by (simp add: run_job_ops)
qed (auto intro: session_tick_ops watch_tick_ops)

lemma desk_steps_ops: "desk_step\<^sup>*\<^sup>* d d' \<Longrightarrow> repo_op\<^sup>*\<^sup>* d d'"
  by (induction rule: rtranclp_induct) (auto intro: rtranclp_trans desk_step_ops)

lemma lock_fetch: "lock_inv d \<Longrightarrow> r \<in> set (t_runs d) \<Longrightarrow> get_run (run_id r) d = Some r"
  by (simp add: lock_inv_def keys_ok_def run_tab.fetch_member)
text \<open>
  C1.  However the program is driven - requests to the API, ticks of the orchestrator with any runner
  that works through the repository, scheduled jobs, session and watch ticks, single repository calls
  of a worker, in any order and number, from the empty database - two runs that mutate the same ticker
  are never both running or waiting, the one that is owns the ticker's lock, every ticker's audit trail
  leads from nothing to the state it is in, and whatever the prediction ledger held at some moment
  stays in it word for word at every later one.
\<close>

theorem desk_never_corrupt:
  assumes "desk_step\<^sup>*\<^sup>* (empty_db\<lparr>t_houses := hs\<rparr>) d" and "desk_step\<^sup>*\<^sup>* d d'"
  shows "(\<forall>r1 \<in> set (t_runs d'). \<forall>r2 \<in> set (t_runs d'). \<forall>c.
            holds_ticker r1 = Some c \<and> holds_ticker r2 = Some c \<longrightarrow> r1 = r2 \<and> lock_owner c d' = Some (run_id r1)) \<and>
         (\<forall>x \<in> set (t_coverage d').
            chain None (filter (\<lambda>t. tr_coverage t = cov_id x) (t_transitions d')) (Some (cov_state x))) \<and>
         (\<exists>new. map frozen (t_predictions d') = map frozen (t_predictions d) @ new)"
proof -
  have "desk_inv d" using desk_steps_ops [OF assms(1)] empty_desk_inv by (rule repo_ops_inv)
  with desk_steps_ops [OF assms(2)] have inv: "desk_inv d'" by (rule repo_ops_inv)
  then have lock: "lock_inv d'" by (simp add: desk_inv_def)
  have own: "lock_owner c d' = Some (run_id r)" if "r \<in> set (t_runs d')" "holds_ticker r = Some c" for r c
    using lock that by (rule lock_invD)
  have one: "r1 = r2" if "r1 \<in> set (t_runs d')" "r2 \<in> set (t_runs d')" "holds_ticker r1 = Some c" "holds_ticker r2 = Some c"
    for r1 r2 c
    using lock_fetch [OF lock that(1)] lock_fetch [OF lock that(2)] own [OF that(1,3)] own [OF that(2,4)] by simp
  have trail: "chain None (filter (\<lambda>t. tr_coverage t = cov_id x) (t_transitions d')) (Some (cov_state x))"
    if "x \<in> set (t_coverage d')" for x
    using inv that by (simp add: desk_inv_def coverage_inv_def audit_trail_def)
  have "\<exists>new. map frozen (t_predictions d') = map frozen (t_predictions d) @ new"
    using repo_ops_ledger [OF desk_steps_ops [OF assms(2)]] by (simp add: ledger_extends_def)
  with own one trail show ?thesis by blast
qed

lemma sample_pending_steps: "sample_pending = Inr d \<Longrightarrow> desk_step\<^sup>*\<^sup>* sample_desk d"
proof -
  assume "sample_pending = Inr d"
  then obtain d1 r1 d2 r2 where h1: "handle sample_app False 1 (sample_rq ''k1'' ''h1'') (Propose sample_body) sample_desk = Inr (d1, r1)"
    and h2: "handle sample_app False 2 (sample_rq ''k2'' ''h2'')
                (Initiate ''tse_7203'' \<lparr>ib_lead = Some ''gpt'', ib_verify_count = None\<rparr>) d1 = Inr (d2, r2)"
    and t: "tick sample_texts False 3 (work_stages 3 [(''status'', JStr ''completed'')] 4) sample_fund d2 = Inr d"
    by (auto simp: sample_pending_def andthen_Inr_iff simp del: handle.simps)
  have w: "\<forall>x y. work_stages 3 [(''status'', JStr ''completed'')] 4 x = Inr y \<longrightarrow> repo_op\<^sup>*\<^sup>* x y"
    using work_stages_ops by blast
  have "desk_step sample_desk d1" "desk_step d1 d2"
    using desk_step.request [of sample_desk sample_app False 1 "sample_rq ''k1'' ''h1''" "Propose sample_body"] h1
      desk_step.request [of d1 sample_app False 2 "sample_rq ''k2'' ''h2''"
        "Initiate ''tse_7203'' \<lparr>ib_lead = Some ''gpt'', ib_verify_count = None\<rparr>"] h2
    by (simp_all add: serve_def in_session_def del: handle.simps)
  with desk_step.tick [OF w t] show ?thesis by (meson converse_rtranclp_into_rtranclp r_into_rtranclp)
qed

lemma sample_pending_holds:
  "case sample_pending of Inl _ \<Rightarrow> False | Inr d \<Rightarrow> list_all (\<lambda>r. holds_ticker r \<noteq> None) (t_runs d) \<and> length (t_runs d) = 1"
  by code_simp

theorem desk_never_corrupt_witness:
  "\<exists>d (r :: run_row) c. sample_pending = Inr d \<and> t_runs d = [r] \<and>
     holds_ticker r = Some c \<and> lock_owner c d = Some (run_id r) \<and>
     (\<forall>x \<in> set (t_coverage d).
        chain None (filter (\<lambda>t. tr_coverage t = cov_id x) (t_transitions d)) (Some (cov_state x)))"
proof -
  obtain d where s: "sample_pending = Inr d" and h: "list_all (\<lambda>r. holds_ticker r \<noteq> None) (t_runs d)"
    and one: "length (t_runs d) = 1"
    using ok1D [OF sample_pending_holds] by (elim exE conjE) (rule that)
  from one obtain r where r: "t_runs d = [r]" by (cases "t_runs d") auto
  with h obtain c where c: "holds_ticker r = Some c" by auto
  have "sample_desk = empty_db\<lparr>t_houses := t_houses sample_desk\<rparr>" by (simp add: sample_desk_def empty_db_def)
  with sample_pending_steps [OF s] have "desk_step\<^sup>*\<^sup>* (empty_db\<lparr>t_houses := t_houses sample_desk\<rparr>) d" by simp
  note safe = desk_never_corrupt [OF this rtranclp.rtrancl_refl]
  then have "lock_owner c d = Some (run_id r)" using r c by simp
  with s r c safe show ?thesis by (intro exI conjI) blast+
qed

end
